(* ===== verification/Prelude.thy ===== *)
theory Prelude
  imports Main "HOL-Library.Word"
begin

section \<open>Shared vocabulary: machine integers, time, lists and cursors\<close>

text \<open>
  What every component of GhostPort uses: the machine integer types, instants and durations,
  the list operations of the Rust code (\<open>Vec::get\<close>, \<open>Vec::remove\<close>, \<open>Iterator::position\<close>,
  \<open>Iterator::find\<close>, \<open>Vec::retain\<close>), and two interfaces that several components share:
  a list of entries addressed by a key (\<open>keyed_store\<close>) and a cursor that wraps around a menu
  (\<open>wrapping_cursor\<close>).
\<close>

named_theorems op_defs \<open>definitions of the operations of the component at hand\<close>

type_synonym u8 = "8 word"
type_synonym u16 = "16 word"
type_synonym u32 = "32 word"
type_synonym u64 = "64 word"

text \<open>
  A point on the monotonic clock, in nanoseconds from an arbitrary origin (it may lie before
  the origin), and a span of time in nanoseconds.
\<close>

type_synonym instant = int
type_synonym duration = nat

definition secs :: "nat \<Rightarrow> duration" where
  "secs n = n * 1000000000"

text \<open>\<open>Instant::duration_since\<close> saturates at zero when the argument is the later instant.\<close>

definition duration_since :: "instant \<Rightarrow> instant \<Rightarrow> duration" where
  "duration_since now t = nat (now - t)"

definition saturating_sub :: "u64 \<Rightarrow> u64 \<Rightarrow> u64" where
  "saturating_sub a b = (if a < b then 0 else a - b)"

lemma unat_saturating_sub: "unat (saturating_sub a b) = unat a - unat b"
  by (auto simp: saturating_sub_def unat_sub word_le_nat_alt word_less_nat_alt not_less)

lemma unat_of_nat_less: "n < 2 ^ LENGTH('w) \<Longrightarrow> unat (of_nat n :: 'w::len word) = n"
  by (simp add: unat_of_nat take_bit_nat_eq_self)

text \<open>A number below 2 ^ 32 and its four base-256 digits.\<close>

lemma base256_digits:
  fixes a b c d :: nat
  assumes "a < 256" and "b < 256" and "c < 256"
  shows "(a + 256 * (b + 256 * (c + 256 * d))) mod 256 = a"
    and "(a + 256 * (b + 256 * (c + 256 * d))) div 256 mod 256 = b"
    and "(a + 256 * (b + 256 * (c + 256 * d))) div 65536 mod 256 = c"
    and "(a + 256 * (b + 256 * (c + 256 * d))) div 16777216 = d"
proof -
  have 1: "(x + 256 * y) div 256 = y" "(x + 256 * y) mod 256 = x" if "x < 256" for x y :: nat
    using that by simp_all
  have d2: "n div 65536 = n div 256 div 256" "n div 16777216 = n div 256 div 256 div 256"
    for n :: nat by (simp_all add: div_mult2_eq [symmetric])
  show "(a + 256 * (b + 256 * (c + 256 * d))) mod 256 = a"
    and "(a + 256 * (b + 256 * (c + 256 * d))) div 256 mod 256 = b"
    and "(a + 256 * (b + 256 * (c + 256 * d))) div 65536 mod 256 = c"
    and "(a + 256 * (b + 256 * (c + 256 * d))) div 16777216 = d"
    by (simp_all only: d2 1 assms)
qed

lemma base256_sum:
  fixes n :: nat
  shows "n mod 256 + 256 * (n div 256 mod 256 + 256 * (n div 65536 mod 256 +
      256 * (n div 16777216))) = n"
proof -
  have d2: "n div 65536 = n div 256 div 256" "n div 16777216 = n div 256 div 256 div 256"
    by (simp_all add: div_mult2_eq [symmetric])
  have e: "x mod 256 + 256 * (x div 256) = x" for x :: nat by simp
  show ?thesis by (simp only: d2 e)
qed

subsection \<open>Lists\<close>

text \<open>\<open>xs.get(i)\<close>, which is \<open>None\<close> out of range.\<close>

definition nth_opt :: "'a list \<Rightarrow> nat \<Rightarrow> 'a option" where
  "nth_opt xs i = (if i < length xs then Some (xs ! i) else None)"

lemma nth_opt_in_set: "nth_opt xs i = Some x \<Longrightarrow> x \<in> set xs"
  by (auto simp: nth_opt_def split: if_splits)

text \<open>\<open>xs.remove(i)\<close>, called with \<open>i\<close> in range only.\<close>

definition remove_at :: "nat \<Rightarrow> 'a list \<Rightarrow> 'a list" where
  "remove_at i xs = take i xs @ drop (Suc i) xs"

lemma length_remove_at: "i < length xs \<Longrightarrow> length (remove_at i xs) = length xs - 1"
  by (simp add: remove_at_def)

lemma set_remove_at_subset: "set (remove_at i xs) \<subseteq> set xs"
  by (auto simp: remove_at_def dest: in_set_takeD in_set_dropD)

lemma remove_at_split:
  "i < length xs \<Longrightarrow> xs = take i xs @ xs ! i # drop (Suc i) xs"
  by (simp add: id_take_nth_drop)

lemma distinct_remove_at:
  assumes "distinct (map f xs)"
  shows "distinct (map f (remove_at i xs))"
proof (cases "i < length xs")
  case True
  then have "distinct (map f (take i xs @ xs ! i # drop (Suc i) xs))"
    using assms remove_at_split [of i xs] by simp
  then show ?thesis by (auto simp: remove_at_def)
next
  case False
  then show ?thesis using assms by (simp add: remove_at_def)
qed

lemma remove_at_notin:
  assumes "distinct xs" and "i < length xs"
  shows "xs ! i \<notin> set (remove_at i xs)"
proof -
  have "distinct (take i xs @ xs ! i # drop (Suc i) xs)"
    using assms remove_at_split [of i xs] by simp
  then show ?thesis by (auto simp: remove_at_def)
qed

text \<open>\<open>xs.iter().position(p)\<close>: the first index whose element satisfies \<open>p\<close>.\<close>

fun position :: "('a \<Rightarrow> bool) \<Rightarrow> 'a list \<Rightarrow> nat option" where
  "position p [] = None"
| "position p (x # xs) = (if p x then Some 0 else map_option Suc (position p xs))"

lemma position_Some:
  "position p xs = Some i \<Longrightarrow> i < length xs \<and> p (xs ! i) \<and> (\<forall>j < i. \<not> p (xs ! j))"
proof (induction xs arbitrary: i)
  case (Cons x xs)
  then show ?case by (auto simp: less_Suc_eq_0_disj split: if_splits)
qed simp

lemma position_None: "position p xs = None \<longleftrightarrow> (\<forall>x \<in> set xs. \<not> p x)"
  by (induction xs) auto

lemma position_append_new:
  "\<forall>x \<in> set xs. \<not> p x \<Longrightarrow> p y \<Longrightarrow> position p (xs @ [y]) = Some (length xs)"
  by (induction xs) auto

lemma find_SomeD: "find p xs = Some x \<Longrightarrow> x \<in> set xs \<and> p x"
  by (induction xs) (auto split: if_splits)

lemma find_exists: "x \<in> set xs \<Longrightarrow> p x \<Longrightarrow> \<exists>y. find p xs = Some y"
  by (induction xs) auto

lemma map_of_const: "map_of (map (\<lambda>x. (f x, c)) xs) k = (if k \<in> f ` set xs then Some c else None)"
  by (induction xs) auto

lemma find_distinct_key:
  "distinct (map key xs) \<Longrightarrow> x \<in> set xs \<Longrightarrow> find (\<lambda>y. key y = key x) xs = Some x"
  by (induction xs) force+

lemma distinct_map_filter': "distinct (map f xs) \<Longrightarrow> distinct (map f (filter p xs))"
  by (induction xs) auto

text \<open>
  \<open>duplicates f xs\<close> lists, in order, the entries whose key was already seen at an earlier
  index: the entries for which \<open>HashSet::insert\<close> returns false in a loop over the list.
\<close>

fun duplicates :: "('a \<Rightarrow> 'k) \<Rightarrow> 'k set \<Rightarrow> 'a list \<Rightarrow> 'a list" where
  "duplicates f seen [] = []"
| "duplicates f seen (x # xs) =
     (if f x \<in> seen then x # duplicates f seen xs else duplicates f (insert (f x) seen) xs)"

lemma duplicates_Nil:
  "duplicates f seen xs = [] \<longleftrightarrow> distinct (map f xs) \<and> set (map f xs) \<inter> seen = {}"
  by (induction xs arbitrary: seen) auto

subsection \<open>Interface: a list of entries addressed by a key\<close>

text \<open>
  The links of a config are addressed by their id, its peers by their name. Both are edited by
  one operation: the entry being edited (if any) is dropped when its key changed, an entry with
  the same key is replaced, and the new entry goes to the end.
\<close>

locale keyed_store =
  fixes key :: "'a \<Rightarrow> 'k"
    and upsert :: "'k option \<Rightarrow> 'a \<Rightarrow> 'a list \<Rightarrow> 'a list"
  assumes upsert_member:
      "y \<in> set (upsert old x xs) \<longleftrightarrow>
         y = x \<or> (y \<in> set xs \<and> key y \<noteq> key x \<and> old \<noteq> Some (key y))"
    and upsert_distinct:
      "distinct (map key xs) \<Longrightarrow> distinct (map key (upsert old x xs))"
begin

lemma find_new:
  assumes "distinct (map key xs)"
  shows "find (\<lambda>y. key y = key x) (upsert old x xs) = Some x"
  using upsert_distinct [OF assms] upsert_member [of x old x xs] by (auto intro: find_distinct_key)

lemma old_gone:
  "old = Some k \<Longrightarrow> k \<noteq> key x \<Longrightarrow> y \<in> set (upsert old x xs) \<Longrightarrow> key y \<noteq> k"
  by (auto simp: upsert_member)

lemma others_kept:
  "y \<in> set xs \<Longrightarrow> key y \<noteq> key x \<Longrightarrow> old \<noteq> Some (key y) \<Longrightarrow> y \<in> set (upsert old x xs)"
  by (simp add: upsert_member)

lemma all_kept:
  "(\<forall>y \<in> set xs. P y) \<Longrightarrow> P x \<Longrightarrow> \<forall>y \<in> set (upsert old x xs). P y"
  by (auto simp: upsert_member)

end

subsection \<open>Interface: a cursor that wraps around\<close>

text \<open>
  \<open>(i as isize + delta).rem_euclid(len)\<close>: the cursor arithmetic of every list and menu of the
  console. Lengths are far below \<open>isize::MAX\<close>, so the machine addition does not overflow and
  unbounded integers are faithful.
\<close>

definition wrap_index :: "nat \<Rightarrow> int \<Rightarrow> nat \<Rightarrow> nat" where
  "wrap_index i delta len = nat ((int i + delta) mod int len)"

lemma wrap_index_bound: "0 < len \<Longrightarrow> wrap_index i delta len < len"
  by (simp add: wrap_index_def nat_less_iff)

lemma wrap_index_down: "i < len \<Longrightarrow> wrap_index i 1 len = (if Suc i = len then 0 else Suc i)"
  by (auto simp: wrap_index_def mod_pos_pos_trivial nat_add_distrib add.commute)

lemma wrap_index_inverse:
  assumes "i < len"
  shows "wrap_index (wrap_index i delta len) (- delta) len = i"
proof -
  have "((int i + delta) mod int len - delta) mod int len = int i mod int len"
    by (metis add_diff_cancel_right' mod_diff_left_eq)
  then show ?thesis using assms by (simp add: wrap_index_def)
qed

text \<open>
  A menu of the console: a cursor over entries whose number is read from the state.
\<close>

locale wrapping_cursor =
  fixes size_of :: "'s \<Rightarrow> nat"
    and cursor :: "'s \<Rightarrow> nat"
    and move :: "int \<Rightarrow> 's \<Rightarrow> 's"
  assumes move_size: "size_of (move d s) = size_of s"
    and move_cursor:
      "cursor (move d s) = (if size_of s = 0 then cursor s else wrap_index (cursor s) d (size_of s))"
begin

lemma stays_in_range: "cursor s < size_of s \<Longrightarrow> cursor (move d s) < size_of (move d s)"
  by (simp add: move_size move_cursor wrap_index_bound)

lemma move_back: "cursor s < size_of s \<Longrightarrow> cursor (move (- d) (move d s)) = cursor s"
  by (auto simp: move_size move_cursor wrap_index_inverse)

end

end
