(* ===== verification/Rust_Std.thy ===== *)
theory Rust_Std
  imports Prelude
begin

section \<open>Strings of the Rust standard library\<close>

text \<open>
  A Rust \<open>String\<close> or \<open>&str\<close> is its sequence of UTF-8 bytes, one \<open>char\<close> of Isabelle per byte, so
  \<open>length\<close> is Rust's \<open>len()\<close> and slices and writes see the same bytes. A Rust \<open>char\<close> is its code
  point, a natural number. This theory holds the operations the program uses: pushing and popping
  a character, trimming Unicode white space, splitting at white space, and the decimal
  \<open>Display\<close> of an unsigned integer.
\<close>

subsection \<open>UTF-8\<close>

definition utf8_encode :: "nat \<Rightarrow> string" where
  "utf8_encode c =
     (if c < 128 then [char_of c]
      else if c < 2048 then [char_of (192 + c div 64), char_of (128 + c mod 64)]
      else if c < 65536 then
        [char_of (224 + c div 4096), char_of (128 + c div 64 mod 64), char_of (128 + c mod 64)]
      else [char_of (240 + c div 262144), char_of (128 + c div 4096 mod 64),
            char_of (128 + c div 64 mod 64), char_of (128 + c mod 64)])"

definition byte :: "char \<Rightarrow> nat" where
  "byte b = of_char b"

lemma byte_char_of: "(n::nat) < 256 \<Longrightarrow> byte (char_of n) = n"
  by (simp add: byte_def)

lemma byte_char_of_mod: "byte (char_of (n::nat)) = n mod 256"
  by (simp add: byte_def)

lemma char_of_byte [simp]: "char_of (byte c) = c"
  by (simp add: byte_def)

lemma byte_less: "byte b < 256"
  by (simp add: byte_def)

definition is_continuation :: "char \<Rightarrow> bool" where
  "is_continuation b \<longleftrightarrow> 128 \<le> byte b \<and> byte b < 192"

text \<open>\<open>String::push\<close> and \<open>String::pop\<close>: the last character is the last byte that is not a
  continuation byte, with the continuation bytes after it.\<close>

definition push_char :: "string \<Rightarrow> nat \<Rightarrow> string" where
  "push_char s c = s @ utf8_encode c"

definition pop_char :: "string \<Rightarrow> string" where
  "pop_char s = rev (drop 1 (dropWhile is_continuation (rev s)))"

lemma continuation_byte: "(n::nat) < 64 \<Longrightarrow> is_continuation (char_of (128 + n))"
  by (simp add: is_continuation_def byte_char_of)

lemma not_continuation_ascii: "(n::nat) < 128 \<Longrightarrow> \<not> is_continuation (char_of n)"
  by (simp add: is_continuation_def byte_char_of)

lemma not_continuation_lead: "192 \<le> (n::nat) \<Longrightarrow> n < 256 \<Longrightarrow> \<not> is_continuation (char_of n)"
  by (simp add: is_continuation_def byte_char_of)

lemma utf8_encode_shape:
  assumes "c < 1114112"
  shows "\<exists>l cs. utf8_encode c = l # cs \<and> \<not> is_continuation l \<and> list_all is_continuation cs"
proof -
  consider "c < 128" | "128 \<le> c" "c < 2048" | "2048 \<le> c" "c < 65536" | "65536 \<le> c" by linarith
  then show ?thesis
  proof cases
    case 1
    then show ?thesis by (simp add: utf8_encode_def not_continuation_ascii)
  next
    case 2
    then have "c div 64 < 32" by auto
    with 2 show ?thesis
      by (simp add: utf8_encode_def continuation_byte not_continuation_lead)
  next
    case 3
    then have "c div 4096 < 16" by auto
    with 3 show ?thesis
      by (simp add: utf8_encode_def continuation_byte not_continuation_lead)
  next
    case 4
    with assms have "c div 262144 < 8" by auto
    with 4 show ?thesis
      by (simp add: utf8_encode_def continuation_byte not_continuation_lead)
  qed
qed

lemma dropWhile_all_append: "list_all p xs \<Longrightarrow> dropWhile p (xs @ ys) = dropWhile p ys"
  by (induction xs) auto

lemma pop_push_char:
  assumes "c < 1114112"
  shows "pop_char (push_char s c) = s"
proof -
  obtain l cs where enc: "utf8_encode c = l # cs"
    and l: "\<not> is_continuation l" and cs: "list_all is_continuation cs"
    using utf8_encode_shape [OF assms] by blast
  have "list_all is_continuation (rev cs)" using cs by (simp add: list_all_iff)
  then have "dropWhile is_continuation (rev cs @ l # rev s) = l # rev s"
    using l by (simp add: dropWhile_all_append)
  then show ?thesis by (simp add: pop_char_def push_char_def enc)
qed

subsection \<open>Trimming and splitting\<close>

text \<open>
  The number of bytes of the white space character (Unicode property \<open>White_Space\<close>) at the head
  of a byte sequence, 0 if there is none: \<open>U+0009..U+000D\<close>, \<open>U+0020\<close>, \<open>U+0085\<close>, \<open>U+00A0\<close>,
  \<open>U+1680\<close>, \<open>U+2000..U+200A\<close>, \<open>U+2028\<close>, \<open>U+2029\<close>, \<open>U+202F\<close>, \<open>U+205F\<close>, \<open>U+3000\<close>.
\<close>

definition ws1 :: "nat \<Rightarrow> bool" where
  "ws1 a \<longleftrightarrow> (9 \<le> a \<and> a \<le> 13) \<or> a = 32"

definition ws2 :: "nat \<Rightarrow> nat \<Rightarrow> bool" where
  "ws2 a b \<longleftrightarrow> a = 194 \<and> (b = 133 \<or> b = 160)"

definition ws3 :: "nat \<Rightarrow> nat \<Rightarrow> nat \<Rightarrow> bool" where
  "ws3 a b c \<longleftrightarrow>
     (a = 225 \<and> b = 154 \<and> c = 128) \<or>
     (a = 226 \<and> b = 128 \<and> ((128 \<le> c \<and> c \<le> 138) \<or> c = 168 \<or> c = 169 \<or> c = 175)) \<or>
     (a = 226 \<and> b = 129 \<and> c = 159) \<or>
     (a = 227 \<and> b = 128 \<and> c = 128)"

fun ws_head :: "string \<Rightarrow> nat" where
  "ws_head [] = 0"
| "ws_head [a] = (if ws1 (byte a) then 1 else 0)"
| "ws_head [a, b] = (if ws1 (byte a) then 1 else if ws2 (byte a) (byte b) then 2 else 0)"
| "ws_head (a # b # c # s) =
     (if ws1 (byte a) then 1 else if ws2 (byte a) (byte b) then 2
      else if ws3 (byte a) (byte b) (byte c) then 3 else 0)"

text \<open>The same at the end of the sequence, read from the reversed bytes.\<close>

fun ws_last :: "string \<Rightarrow> nat" where
  "ws_last [] = 0"
| "ws_last [a] = (if ws1 (byte a) then 1 else 0)"
| "ws_last [b, a] = (if ws1 (byte b) then 1 else if ws2 (byte a) (byte b) then 2 else 0)"
| "ws_last (c # b # a # s) =
     (if ws1 (byte c) then 1 else if ws2 (byte b) (byte c) then 2
      else if ws3 (byte a) (byte b) (byte c) then 3 else 0)"

lemma ws_head_Nil_conv: "0 < ws_head s \<Longrightarrow> s \<noteq> []"
  by (cases s) auto

lemma ws_last_Nil_conv: "0 < ws_last s \<Longrightarrow> s \<noteq> []"
  by (cases s) auto

function trim_start :: "string \<Rightarrow> string" where
  "trim_start s = (if ws_head s = 0 then s else trim_start (drop (ws_head s) s))"
  by pat_completeness auto
termination
  by (relation "measure length") (auto dest: ws_head_Nil_conv intro!: diff_less)

function trim_last :: "string \<Rightarrow> string" where
  "trim_last s = (if ws_last s = 0 then s else trim_last (drop (ws_last s) s))"
  by pat_completeness auto
termination
  by (relation "measure length") (auto dest: ws_last_Nil_conv intro!: diff_less)

declare trim_start.simps [simp del] trim_last.simps [simp del]

definition trim :: "string \<Rightarrow> string" where
  "trim s = rev (trim_last (rev (trim_start s)))"

lemma ws_head_trim_start: "ws_head (trim_start s) = 0"
proof (induction s rule: trim_start.induct)
  case (1 s)
  then show ?case by (cases "ws_head s = 0") (simp_all add: trim_start.simps [of s])
qed

lemma ws_last_trim_last: "ws_last (trim_last s) = 0"
proof (induction s rule: trim_last.induct)
  case (1 s)
  then show ?case by (cases "ws_last s = 0") (simp_all add: trim_last.simps [of s])
qed

lemma trim_last_suffix: "\<exists>p. s = p @ trim_last s"
proof (induction s rule: trim_last.induct)
  case (1 s)
  show ?case
  proof (cases "ws_last s = 0")
    case False
    then obtain p where "drop (ws_last s) s = p @ trim_last (drop (ws_last s) s)"
      using "1" by blast
    then have "s = (take (ws_last s) s @ p) @ trim_last (drop (ws_last s) s)"
      by (metis append.assoc append_take_drop_id)
    then have "s = (take (ws_last s) s @ p) @ trim_last s"
      using False by (simp add: trim_last.simps [of s])
    then show ?thesis by blast
  qed (simp add: trim_last.simps [of s])
qed

lemma ws_head_prefix: "ws_head (s @ t) = 0 \<Longrightarrow> ws_head s = 0"
  by (induction s rule: ws_head.induct; cases t rule: ws_head.cases) (auto split: if_splits)

text \<open>A trimmed string neither starts nor ends with white space; trimming it again changes
  nothing.\<close>

lemma trim_ends: "ws_head (trim s) = 0 \<and> ws_last (rev (trim s)) = 0"
proof -
  obtain p where "rev (trim_start s) = p @ trim_last (rev (trim_start s))"
    using trim_last_suffix by blast
  then have "trim_start s = trim s @ rev p"
    by (metis rev_append rev_rev_ident trim_def)
  then have "ws_head (trim s) = 0"
    using ws_head_trim_start [of s] ws_head_prefix by metis
  then show ?thesis by (simp add: trim_def ws_last_trim_last)
qed

lemma trim_id: "ws_head s = 0 \<Longrightarrow> ws_last (rev s) = 0 \<Longrightarrow> trim s = s"
  by (simp add: trim_def trim_start.simps [of s] trim_last.simps [of "rev s"])

lemma trim_trim [simp]: "trim (trim s) = trim s"
  using trim_ends by (intro trim_id) auto

lemma trim_Nil [simp]: "trim [] = []"
  by (simp add: trim_id)

text \<open>\<open>split_whitespace\<close>: the maximal runs of other characters.\<close>

function split_ws :: "string \<Rightarrow> string \<Rightarrow> string list" where
  "split_ws cur s =
     (if s = [] then (if cur = [] then [] else [cur])
      else if ws_head s = 0 then split_ws (cur @ [hd s]) (tl s)
      else (if cur = [] then [] else [cur]) @ split_ws [] (drop (ws_head s) s))"
  by pat_completeness auto
termination
  by (relation "measure (\<lambda>(cur, s). length s)") auto

declare split_ws.simps [simp del]

definition split_whitespace :: "string \<Rightarrow> string list" where
  "split_whitespace s = split_ws [] s"

subsection \<open>Decimal numbers\<close>

fun show_nat :: "nat \<Rightarrow> string" where
  "show_nat n = (if n < 10 then [char_of (48 + n)]
                 else show_nat (n div 10) @ [char_of (48 + n mod 10)])"

declare show_nat.simps [simp del]

definition show_word :: "'w::len word \<Rightarrow> string" where
  "show_word w = show_nat (unat w)"

definition is_digit :: "char \<Rightarrow> bool" where
  "is_digit c \<longleftrightarrow> 48 \<le> byte c \<and> byte c \<le> 57"

text \<open>The value of a string of digits.\<close>

fun digits_val :: "nat \<Rightarrow> string \<Rightarrow> nat" where
  "digits_val acc [] = acc"
| "digits_val acc (c # s) = digits_val (10 * acc + (byte c - 48)) s"

lemma digits_val_append: "digits_val acc (s @ t) = digits_val (digits_val acc s) t"
  by (induction s arbitrary: acc) auto

lemma show_nat_digits: "\<forall>c \<in> set (show_nat n). is_digit c"
proof (induction n rule: show_nat.induct)
  case (1 n)
  then show ?case
    by (auto simp: show_nat.simps [of n] is_digit_def byte_char_of)
qed

lemma show_nat_not_Nil [simp]: "show_nat n \<noteq> []"
  by (subst show_nat.simps) simp

lemma digits_val_show_nat: "digits_val 0 (show_nat n) = n"
proof (induction n rule: show_nat.induct)
  case (1 n)
  then show ?case
    by (auto simp: show_nat.simps [of n] digits_val_append byte_char_of)
qed

lemma show_nat_inject [simp]: "show_nat m = show_nat n \<longleftrightarrow> m = n"
  by (metis digits_val_show_nat)

lemma hd_show_nat: "10 \<le> n \<Longrightarrow> byte (hd (show_nat n)) \<noteq> 48"
proof (induction n rule: show_nat.induct)
  case (1 n)
  show ?case
  proof (cases "n div 10 < 10")
    case True
    then show ?thesis using "1.prems"
      by (simp add: show_nat.simps [of n] show_nat.simps [of "n div 10"] byte_char_of)
  next
    case False
    with "1" show ?thesis by (simp add: show_nat.simps [of n] hd_append)
  qed
qed

subsection \<open>Formatting\<close>

text \<open>The widths of \<open>{:>w}\<close> and \<open>{:<w}\<close> count characters, not bytes.\<close>

definition char_count :: "string \<Rightarrow> nat" where
  "char_count s = length (filter (\<lambda>c. \<not> is_continuation c) s)"

definition spaces :: "nat \<Rightarrow> string" where
  "spaces n = replicate n CHR '' ''"

definition pad_left :: "nat \<Rightarrow> string \<Rightarrow> string" where
  "pad_left w s = spaces (w - char_count s) @ s"

definition pad_right :: "nat \<Rightarrow> string \<Rightarrow> string" where
  "pad_right w s = s @ spaces (w - char_count s)"

text \<open>The bytes of \<open>U+2014\<close>.\<close>

definition em_dash :: string where
  "em_dash = [CHR 0xE2, CHR 0x80, CHR 0x94]"

end
