(* ===== verification/Utf8.thy ===== *)
theory Utf8
  imports Rust_Std
begin

section \<open>UTF-8\<close>

text \<open>
  Which byte sequences are a Rust \<open>String\<close>: valid UTF-8 in the sense of the Unicode standard, table
  3-7, as an executable check, and its agreement with the encoding of \<open>Rust_Std\<close>: the valid
  sequences are those that encode a sequence of Unicode scalar values. The operations of \<open>Rust_Std\<close>
  on strings stay within them, and \<open>String::from_utf8_lossy\<close> makes one of any byte sequence.
\<close>

subsection \<open>One character\<close>

definition unicode_scalar :: "nat \<Rightarrow> bool" where
  "unicode_scalar c \<longleftrightarrow> c < 1114112 \<and> \<not> (55296 \<le> c \<and> c \<le> 57343)"

definition second_ok :: "nat \<Rightarrow> nat \<Rightarrow> bool" where
  "second_ok a b \<longleftrightarrow>
     (if a = 224 then 160 \<le> b \<and> b \<le> 191
      else if a = 237 then 128 \<le> b \<and> b \<le> 159
      else if a = 240 then 144 \<le> b \<and> b \<le> 191
      else if a = 244 then 128 \<le> b \<and> b \<le> 143
      else 128 \<le> b \<and> b \<le> 191)"

fun continuations :: "nat \<Rightarrow> string \<Rightarrow> nat" where
  "continuations 0 s = 0"
| "continuations (Suc n) [] = 0"
| "continuations (Suc n) (c # s) = (if is_continuation c then Suc (continuations n s) else 0)"

text \<open>
  The number of bytes of the next character or of the next maximal invalid part, and which of the
  two it is.
\<close>

definition utf8_next :: "string \<Rightarrow> nat \<times> bool" where
  "utf8_next s =
     (let a = byte (hd s); r = tl s;
          need = (if 194 \<le> a \<and> a \<le> 223 then 1 else if 224 \<le> a \<and> a \<le> 239 then 2
                  else if 240 \<le> a \<and> a \<le> 244 then 3 else 0)
      in if a < 128 then (1, True)
         else if need = 0 \<or> r = [] \<or> \<not> second_ok a (byte (hd r)) then (1, False)
         else let k = continuations need r in (Suc k, k = need))"

lemma utf8_next_pos: "0 < fst (utf8_next s)"
  by (simp add: utf8_next_def Let_def)

lemma continuations_all:
  "continuations n s = n \<longleftrightarrow> n \<le> length s \<and> list_all is_continuation (take n s)"
proof (induction n s rule: continuations.induct)
  case (3 n c s)
  then show ?case by auto
qed simp_all

lemma continuations_2: "continuations 2 s = 2 \<longleftrightarrow>
    (\<exists>b c r. s = b # c # r \<and> is_continuation b \<and> is_continuation c)"
  by (auto simp: continuations_all Suc_le_length_iff numeral_2_eq_2)

lemma continuations_3: "continuations 3 s = 3 \<longleftrightarrow>
    (\<exists>b c d r. s = b # c # d # r \<and> is_continuation b \<and> is_continuation c \<and> is_continuation d)"
  by (auto simp: continuations_all Suc_le_length_iff numeral_3_eq_3)

lemma second_ok_continuation: "second_ok (byte a) (byte b) \<Longrightarrow> is_continuation b"
  by (auto simp: second_ok_def is_continuation_def split: if_splits)

text \<open>The four lengths of a valid character.\<close>

lemma utf8_next_cases:
  assumes "s \<noteq> []" and "utf8_next s = (n, True)"
  obtains (One) a r where "s = a # r" "n = 1" "byte a < 128"
  | (Two) a b r where "s = a # b # r" "n = 2" "194 \<le> byte a" "byte a \<le> 223" "is_continuation b"
  | (Three) a b c r where "s = a # b # c # r" "n = 3" "224 \<le> byte a" "byte a \<le> 239"
      "second_ok (byte a) (byte b)" "is_continuation b" "is_continuation c"
  | (Four) a b c d r where "s = a # b # c # d # r" "n = 4" "240 \<le> byte a" "byte a \<le> 244"
      "second_ok (byte a) (byte b)" "is_continuation b" "is_continuation c" "is_continuation d"
proof -
  obtain a r where s: "s = a # r" using assms(1) by (cases s) auto
  consider "byte a < 128" | "194 \<le> byte a" "byte a \<le> 223" | "224 \<le> byte a" "byte a \<le> 239"
    | "240 \<le> byte a" "byte a \<le> 244"
    using assms(2) by (force simp: utf8_next_def s Let_def split: if_splits)
  then show ?thesis
  proof cases
    case 1
    with assms(2) s show ?thesis by (intro One) (auto simp: utf8_next_def)
  next
    case 2
    with assms(2) s obtain b r' where "r = b # r'" "is_continuation b"
      by (cases r) (auto simp: utf8_next_def Let_def split: if_splits)
    with 2 assms(2) s show ?thesis by (intro Two) (auto simp: utf8_next_def Let_def split: if_splits)
  next
    case 3
    with assms(2) s have "continuations 2 r = 2" and n: "n = 3" and ok: "second_ok (byte a) (byte (hd r))"
      by (auto simp: utf8_next_def Let_def split: if_splits)
    then obtain b c r' where "r = b # c # r'" "is_continuation b" "is_continuation c"
      by (auto simp: continuations_2)
    with 3 s n ok show ?thesis by (intro Three [of a b c r']) auto
  next
    case 4
    with assms(2) s have "continuations 3 r = 3" and n: "n = 4" and ok: "second_ok (byte a) (byte (hd r))"
      by (auto simp: utf8_next_def Let_def split: if_splits)
    then obtain b c d r' where "r = b # c # d # r'" "is_continuation b" "is_continuation c" "is_continuation d"
      by (auto simp: continuations_3)
    with 4 s n ok show ?thesis by (intro Four [of a b c d r']) auto
  qed
qed

lemma continuation_value: "is_continuation b \<Longrightarrow> \<exists>y::nat. y < 64 \<and> b = char_of (128 + y)"
  by (rule exI [of _ "byte b - 128"]) (auto simp: is_continuation_def)

lemma lead_value: "k \<le> byte a \<Longrightarrow> \<exists>x. byte a = k + x \<and> a = char_of (k + x :: nat)"
  by (rule exI [of _ "byte a - k"]) auto

lemma digits_64:
  "y < 64 \<Longrightarrow> (x * 64 + y) div 64 = (x :: nat)" "y < 64 \<Longrightarrow> (x * 64 + y) mod 64 = (y :: nat)"
  "(c :: nat) div 4096 = c div 64 div 64" "c div 262144 = c div 64 div 64 div 64"
  by (simp_all flip: div_mult2_eq)

text \<open>A valid character is the encoding of a scalar value.\<close>

lemma utf8_next_decodes:
  assumes "s \<noteq> []" and "utf8_next s = (n, True)"
  shows "\<exists>c. unicode_scalar c \<and> take n s = utf8_encode c \<and> n \<le> length s"
  using assms
proof (cases rule: utf8_next_cases)
  case (One a r)
  then show ?thesis by (intro exI [of _ "byte a"]) (auto simp: unicode_scalar_def utf8_encode_def)
next
  case (Two a b r)
  obtain x :: nat where x: "byte a = 192 + x" "a = char_of (192 + x)" using lead_value [of 192 a] Two by auto
  obtain y :: nat where y: "y < 64" "b = char_of (128 + y)" using continuation_value Two by blast
  have "(x * 64 + y) div 64 = x" "(x * 64 + y) mod 64 = y" using y by simp_all
  moreover have "128 \<le> x * 64 + y" "x * 64 + y < 2048" using Two x y by simp_all
  ultimately show ?thesis
    using Two x y by (intro exI [of _ "x * 64 + y"]) (simp add: unicode_scalar_def utf8_encode_def)
next
  case (Three a b c r)
  obtain x :: nat where x: "byte a = 224 + x" "a = char_of (224 + x)" using lead_value [of 224 a] Three by auto
  obtain y :: nat where y: "y < 64" "b = char_of (128 + y)" using continuation_value Three by blast
  obtain z :: nat where z: "z < 64" "c = char_of (128 + z)" using continuation_value Three by blast
  let ?v = "(x * 64 + y) * 64 + z"
  have v: "?v div 4096 = x" "?v div 64 mod 64 = y" "?v mod 64 = z"
    using y(1) z(1) by (simp_all only: digits_64)
  have "second_ok (224 + x) (128 + y)" using Three x y by (simp add: byte_char_of)
  then have "2048 \<le> ?v" "?v < 65536" "\<not> (55296 \<le> ?v \<and> ?v \<le> 57343)"
    using Three(3,4) x(1) y(1) z(1) by (auto simp: second_ok_def split: if_splits)
  then have "unicode_scalar ?v" "utf8_encode ?v = [a, b, c]"
    unfolding unicode_scalar_def utf8_encode_def v using x y z by simp_all
  then show ?thesis using Three(1,2) by (intro exI [of _ ?v]) simp
next
  case (Four a b c d r)
  obtain x :: nat where x: "byte a = 240 + x" "a = char_of (240 + x)" using lead_value [of 240 a] Four by auto
  obtain y :: nat where y: "y < 64" "b = char_of (128 + y)" using continuation_value Four by blast
  obtain z :: nat where z: "z < 64" "c = char_of (128 + z)" using continuation_value Four by blast
  obtain w :: nat where w: "w < 64" "d = char_of (128 + w)" using continuation_value Four by blast
  let ?v = "((x * 64 + y) * 64 + z) * 64 + w"
  have v: "?v div 262144 = x" "?v div 4096 mod 64 = y" "?v div 64 mod 64 = z" "?v mod 64 = w"
    using y(1) z(1) w(1) by (simp_all only: digits_64)
  have "second_ok (240 + x) (128 + y)" using Four x y by (simp add: byte_char_of)
  then have "65536 \<le> ?v" "?v < 1114112"
    using Four(3,4) x(1) y(1) z(1) w(1) by (auto simp: second_ok_def split: if_splits)
  then have "unicode_scalar ?v" "utf8_encode ?v = [a, b, c, d]"
    unfolding unicode_scalar_def utf8_encode_def v using x y z w by simp_all
  then show ?thesis using Four(1,2) by (intro exI [of _ ?v]) simp
qed

text \<open>And the encoding of a scalar value is a valid character.\<close>

lemma utf8_next_forms:
  "byte a < 128 \<Longrightarrow> utf8_next (a # s) = (1, True)"
  "194 \<le> byte a \<Longrightarrow> byte a \<le> 223 \<Longrightarrow> is_continuation b \<Longrightarrow> utf8_next (a # b # s) = (2, True)"
  "224 \<le> byte a \<Longrightarrow> byte a \<le> 239 \<Longrightarrow> second_ok (byte a) (byte b) \<Longrightarrow> is_continuation c \<Longrightarrow>
     utf8_next (a # b # c # s) = (3, True)"
  "240 \<le> byte a \<Longrightarrow> byte a \<le> 244 \<Longrightarrow> second_ok (byte a) (byte b) \<Longrightarrow> is_continuation c \<Longrightarrow>
     is_continuation d \<Longrightarrow> utf8_next (a # b # c # d # s) = (4, True)"
  using second_ok_continuation [of a b]
  by (simp_all add: utf8_next_def numeral_2_eq_2 numeral_3_eq_3 Let_def)
    (simp add: second_ok_def is_continuation_def)

lemma utf8_next_encode:
  assumes "unicode_scalar c"
  shows "utf8_next (utf8_encode c @ s) = (length (utf8_encode c), True)"
proof -
  consider "c < 128" | "128 \<le> c" "c < 2048" | "2048 \<le> c" "c < 65536" | "65536 \<le> c" by linarith
  then show ?thesis
  proof cases
    case 1
    then show ?thesis by (simp add: utf8_encode_def utf8_next_forms byte_char_of)
  next
    case 2
    then have "2 \<le> c div 64" "c div 64 < 32" by auto
    with 2 show ?thesis by (simp add: utf8_encode_def utf8_next_forms byte_char_of continuation_byte)
  next
    case 3
    define x y where "x = c div 4096" and "y = c div 64 mod 64"
    have "c = (x * 64 + y) * 64 + c mod 64" "y < 64"
      unfolding x_def y_def digits_64 by simp_all
    then obtain z where "c = (x * 64 + y) * 64 + z" "y < 64" "z < 64"
      by (metis mod_less_divisor zero_less_numeral)
    then have c: "c = x * 4096 + y * 64 + z" "y < 64" "z < 64" by simp_all
    have x: "x < 16" using c(1) 3 by linarith
    have x0: "32 \<le> y" if "x = 0" using c(1,3) 3 that by linarith
    have "x = 13 \<longrightarrow> y < 32"
      using c assms by (cases "55296 \<le> c") (auto simp: unicode_scalar_def)
    with x0 have "second_ok (224 + x) (128 + y)" using c(2) x by (auto simp: second_ok_def)
    with 3 x c(2) show ?thesis
      by (simp add: utf8_encode_def utf8_next_forms byte_char_of continuation_byte
          flip: x_def y_def)
  next
    case 4
    define x y where "x = c div 262144" and "y = c div 4096 mod 64"
    have "c = (x * 64 + y) * 4096 + c mod 4096" "y < 64"
      using div_mult_mod_eq [of "c div 4096" 64] div_mult_mod_eq [of c 4096]
      unfolding x_def y_def by (simp_all flip: div_mult2_eq)
    then obtain z where "c = (x * 64 + y) * 4096 + z" "y < 64" "z < 4096"
      by (metis mod_less_divisor zero_less_numeral)
    then have c: "c = x * 262144 + y * 4096 + z" "y < 64" "z < 4096" by simp_all
    have x: "x < 5" using c(1) 4 assms unfolding unicode_scalar_def by linarith
    have "16 \<le> y" if "x = 0" using c(1,3) 4 that by linarith
    moreover have "y < 16" if "x = 4" using c(1) 4 assms that unfolding unicode_scalar_def by linarith
    ultimately have "second_ok (240 + x) (128 + y)" using c(2) x by (auto simp: second_ok_def)
    with 4 x c(2) show ?thesis
      by (simp add: utf8_encode_def utf8_next_forms byte_char_of continuation_byte
          flip: x_def y_def)
  qed
qed

subsection \<open>Valid strings\<close>

function utf8 :: "string \<Rightarrow> bool" where
  "utf8 s \<longleftrightarrow>
     (if s = [] then True else let (n, good) = utf8_next s in good \<and> utf8 (drop n s))"
  by pat_completeness auto
termination
  by (relation "measure length")
    (simp_all, metis diff_less fst_conv length_greater_0_conv utf8_next_pos)

declare utf8.simps [simp del]

lemma utf8_Nil [simp]: "utf8 []"
  by (simp add: utf8.simps)

lemma utf8_encode_append: "unicode_scalar c \<Longrightarrow> utf8 (utf8_encode c @ s) = utf8 s"
  using utf8_encode_shape [of c]
  by (subst utf8.simps) (auto simp: utf8_next_encode unicode_scalar_def)

lemma utf8_encodes:
  "list_all unicode_scalar cs \<Longrightarrow> utf8 (concat (map utf8_encode cs) @ s) = utf8 s"
  by (induction cs) (simp_all add: utf8_encode_append)

theorem utf8_iff:
  "utf8 s \<longleftrightarrow> (\<exists>cs. list_all unicode_scalar cs \<and> s = concat (map utf8_encode cs))"
proof
  show "utf8 s \<Longrightarrow> \<exists>cs. list_all unicode_scalar cs \<and> s = concat (map utf8_encode cs)"
  proof (induction s rule: utf8.induct)
    case (1 s)
    show ?case
    proof (cases "s = []")
      case True
      then show ?thesis by (intro exI [of _ "[]"]) simp
    next
      case False
      obtain n good where n: "utf8_next s = (n, good)" by (cases "utf8_next s")
      have good: "good" and tail: "utf8 (drop n s)"
        using "1.prems" False by (simp_all add: utf8.simps [of s] n)
      obtain c where c: "unicode_scalar c" "take n s = utf8_encode c"
        using utf8_next_decodes [OF False, of n] n good by auto
      obtain cs where "list_all unicode_scalar cs" "drop n s = concat (map utf8_encode cs)"
        using "1.IH" [OF False refl, of n good] n tail by auto
      with c show ?thesis
        by (intro exI [of _ "c # cs"]) (simp, metis append_take_drop_id)
    qed
  qed
next
  show "\<exists>cs. list_all unicode_scalar cs \<and> s = concat (map utf8_encode cs) \<Longrightarrow> utf8 s"
    using utf8_encodes [of _ "[]"] by auto
qed

lemma utf8_append [simp]: "utf8 s \<Longrightarrow> utf8 (s @ t) = utf8 t"
  by (auto simp: utf8_iff [of s] utf8_encodes)

lemma utf8_ascii_Cons [simp]: "byte c < 128 \<Longrightarrow> utf8 (c # s) = utf8 s"
  by (subst utf8.simps) (simp add: utf8_next_def)

lemma utf8_newline [simp]: "utf8 (CHR 10 # s) = utf8 s"
  by (rule utf8_ascii_Cons) (simp add: byte_def)

lemma utf8_ascii: "list_all (\<lambda>c. byte c < 128) s \<Longrightarrow> utf8 s"
  by (induction s) simp_all

lemma utf8_concat: "list_all utf8 ss \<Longrightarrow> utf8 (concat ss)"
  by (induction ss) simp_all

subsection \<open>Operations on strings\<close>

lemma utf8_push: "utf8 s \<Longrightarrow> unicode_scalar c \<Longrightarrow> utf8 (push_char s c)"
  using utf8_encode_append [of c "[]"] by (simp add: push_char_def)

lemma pop_char_shape:
  "\<not> is_continuation l \<Longrightarrow> list_all is_continuation cs \<Longrightarrow> pop_char (p @ l # cs) = p"
  by (simp add: pop_char_def dropWhile_all_append list_all_iff)

lemma pop_char_Nil [simp]: "pop_char [] = []"
  by (simp add: pop_char_def)

lemma utf8_pop:
  assumes "utf8 s"
  shows "utf8 (pop_char s)"
proof -
  obtain cs where cs: "list_all unicode_scalar cs" "s = concat (map utf8_encode cs)"
    using assms by (auto simp: utf8_iff)
  show ?thesis
  proof (cases cs rule: rev_cases)
    case (snoc cs' c)
    then have "pop_char s = concat (map utf8_encode cs')"
      using cs pop_push_char [of c "concat (map utf8_encode cs')"]
      by (simp add: push_char_def unicode_scalar_def)
    then show ?thesis using cs snoc by (auto simp: utf8_iff)
  qed (use cs in simp)
qed

lemma ws_next:
  "ws1 (byte a) \<Longrightarrow> utf8_next (a # s) = (1, True)"
  "ws2 (byte a) (byte b) \<Longrightarrow> utf8_next (a # b # s) = (2, True)"
  "ws3 (byte a) (byte b) (byte c) \<Longrightarrow> utf8_next (a # b # c # s) = (3, True)"
  by (rule utf8_next_forms, auto simp: ws1_def)
    (auto simp: ws2_def is_continuation_def intro!: utf8_next_forms,
      auto simp: ws3_def is_continuation_def second_ok_def intro!: utf8_next_forms)

lemma ws_head_next: "0 < ws_head s \<Longrightarrow> utf8_next s = (ws_head s, True)"
  by (induction s rule: ws_head.induct) (simp_all add: ws_next split: if_splits)

lemma utf8_trim_start: "utf8 s \<Longrightarrow> utf8 (trim_start s)"
proof (induction s rule: trim_start.induct)
  case (1 s)
  show ?case
  proof (cases "ws_head s = 0")
    case True
    then show ?thesis using 1 by (simp add: trim_start.simps [of s])
  next
    case False
    then have "utf8 (drop (ws_head s) s)"
      using 1(2) ws_head_next [of s] ws_head_Nil_conv [of s] by (auto simp: utf8.simps [of s])
    then show ?thesis using 1 False by (simp add: trim_start.simps [of s])
  qed
qed

lemma ws_last_pop: "0 < ws_last s \<Longrightarrow> pop_char (rev s) = rev (drop (ws_last s) s)"
proof (induction s rule: ws_last.induct)
  case (2 a)
  then show ?case using pop_char_shape [of a "[]" "[]"]
    by (auto simp: ws1_def is_continuation_def split: if_splits)
next
  case (3 b a)
  then show ?case
    using pop_char_shape [of b "[]" "[a]"] pop_char_shape [of a "[b]" "[]"]
    by (auto simp: ws1_def ws2_def is_continuation_def split: if_splits)
next
  case (4 c b a s)
  then show ?case
    using pop_char_shape [of c "[]" "rev s @ [a, b]"] pop_char_shape [of b "[c]" "rev s @ [a]"]
      pop_char_shape [of a "[b, c]" "rev s"]
    by (auto simp: ws1_def ws2_def ws3_def is_continuation_def split: if_splits)
qed simp

lemma utf8_trim_last: "utf8 (rev s) \<Longrightarrow> utf8 (rev (trim_last s))"
proof (induction s rule: trim_last.induct)
  case (1 s)
  then show ?case
    using utf8_pop [of "rev s"] ws_last_pop [of s]
    by (cases "ws_last s = 0") (simp_all add: trim_last.simps [of s])
qed

lemma utf8_trim: "utf8 s \<Longrightarrow> utf8 (trim s)"
  unfolding trim_def by (rule utf8_trim_last) (simp add: utf8_trim_start)

lemma utf8_show_nat [simp]: "utf8 (show_nat n)"
  using show_nat_digits [of n] by (intro utf8_ascii) (auto simp: list_all_iff is_digit_def)

subsection \<open>\<open>String::from_utf8_lossy\<close>\<close>

definition replacement :: string where
  "replacement = [char_of (239::nat), char_of (191::nat), char_of (189::nat)]"

function from_utf8_lossy :: "string \<Rightarrow> string" where
  "from_utf8_lossy s =
     (if s = [] then []
      else let (n, good) = utf8_next s
           in (if good then take n s else replacement) @ from_utf8_lossy (drop n s))"
  by pat_completeness auto
termination
  by (relation "measure length")
    (simp_all, metis diff_less fst_conv length_greater_0_conv utf8_next_pos)

declare from_utf8_lossy.simps [simp del]

lemma utf8_replacement: "utf8 replacement"
  using utf8_encode_append [of 65533 "[]"]
  by (simp add: replacement_def utf8_encode_def unicode_scalar_def)

lemma utf8_lossy: "utf8 (from_utf8_lossy s)"
proof (induction s rule: from_utf8_lossy.induct)
  case (1 s)
  obtain n good where n: "utf8_next s = (n, good)" by (cases "utf8_next s")
  have "utf8 (if good then take n s else replacement)" if "s \<noteq> []"
    using utf8_next_decodes [OF that, of n] n utf8_replacement
      utf8_encode_append [of _ "[]"] by auto
  then show ?case using "1.IH" n by (auto simp: from_utf8_lossy.simps [of s])
qed

lemma lossy_id: "utf8 s \<Longrightarrow> from_utf8_lossy s = s"
proof (induction s rule: from_utf8_lossy.induct)
  case (1 s)
  then show ?case
    by (cases "s = []")
      (simp add: from_utf8_lossy.simps [of "[]"],
        auto simp: from_utf8_lossy.simps [of s] utf8.simps [of s] split: prod.splits)
qed

end
