(* ===== verification/File_Store.thy ===== *)
theory File_Store
  imports Utf8
begin

section \<open>The file system the program sees\<close>

text \<open>
  The calls of \<open>std::fs\<close> the program makes, over an explicit store: files with contents and
  permission bits, directories with permission bits. The operating system may refuse any call;
  which ones it refuses, and with what message, is the environment \<open>fs_env\<close>, an argument of every
  operation. A refused call changes nothing.
\<close>

record fs_file =
  f_data :: string
  f_mode :: nat

record fs =
  fs_files :: "string \<rightharpoonup> fs_file"
  fs_dirs :: "string \<rightharpoonup> nat"
  fs_new_mode :: nat \<comment> \<open>mode of a newly created file, after the umask\<close>

datatype fs_op =
    Create_Dir_All string
  | Set_Permissions string nat
  | Create_File string
  | Write_All string string
  | Read_File string
  | Remove_File string

type_synonym fs_env = "fs_op \<Rightarrow> string option"

definition enoent :: string where
  "enoent = ''No such file or directory (os error 2)''"

text \<open>The result of a call that returns \<open>io::Result<()>\<close>: the error text or the new store.\<close>

type_synonym fs_result = "string + fs"

text \<open>\<open>create_dir_all\<close> on the empty path succeeds and does nothing.\<close>

definition create_dir_all :: "fs_env \<Rightarrow> string \<Rightarrow> fs \<Rightarrow> fs_result" where
  "create_dir_all env d s =
     (if d = [] then Inr s
      else case env (Create_Dir_All d) of Some e \<Rightarrow> Inl e
      | None \<Rightarrow> Inr (case fs_dirs s d of Some _ \<Rightarrow> s
                     | None \<Rightarrow> s\<lparr>fs_dirs := (fs_dirs s)(d \<mapsto> 493)\<rparr>))"

definition set_permissions :: "fs_env \<Rightarrow> string \<Rightarrow> nat \<Rightarrow> fs \<Rightarrow> fs_result" where
  "set_permissions env p m s =
     (case env (Set_Permissions p m) of Some e \<Rightarrow> Inl e
      | None \<Rightarrow>
         (case fs_files s p of
            Some f \<Rightarrow> Inr (s\<lparr>fs_files := (fs_files s)(p \<mapsto> f\<lparr>f_mode := m\<rparr>)\<rparr>)
          | None \<Rightarrow>
             (case fs_dirs s p of
                Some _ \<Rightarrow> Inr (s\<lparr>fs_dirs := (fs_dirs s)(p \<mapsto> m)\<rparr>)
              | None \<Rightarrow> Inl enoent)))"

text \<open>\<open>File::create\<close> truncates an existing file and keeps its mode.\<close>

definition create_file :: "fs_env \<Rightarrow> string \<Rightarrow> fs \<Rightarrow> fs_result" where
  "create_file env p s =
     (case env (Create_File p) of Some e \<Rightarrow> Inl e
      | None \<Rightarrow> Inr (s\<lparr>fs_files := (fs_files s)(p \<mapsto>
          (case fs_files s p of Some f \<Rightarrow> f\<lparr>f_data := []\<rparr>
           | None \<Rightarrow> \<lparr>f_data = [], f_mode = fs_new_mode s\<rparr>))\<rparr>))"

definition write_all :: "fs_env \<Rightarrow> string \<Rightarrow> string \<Rightarrow> fs \<Rightarrow> fs_result" where
  "write_all env p t s =
     (case env (Write_All p t) of Some e \<Rightarrow> Inl e
      | None \<Rightarrow>
         (case fs_files s p of None \<Rightarrow> Inl enoent
          | Some f \<Rightarrow> Inr (s\<lparr>fs_files := (fs_files s)(p \<mapsto> f\<lparr>f_data := f_data f @ t\<rparr>)\<rparr>)))"

text \<open>\<open>fs::write\<close> is create and write.\<close>

definition fs_write :: "fs_env \<Rightarrow> string \<Rightarrow> string \<Rightarrow> fs \<Rightarrow> fs_result" where
  "fs_write env p t s =
     (case create_file env p s of Inl e \<Rightarrow> Inl e | Inr s' \<Rightarrow> write_all env p t s')"

text \<open>A file that is not UTF-8 is an error of its own.\<close>

definition read_to_string :: "fs_env \<Rightarrow> string \<Rightarrow> fs \<Rightarrow> string + string" where
  "read_to_string env p s =
     (case env (Read_File p) of Some e \<Rightarrow> Inl e
      | None \<Rightarrow>
         (case fs_files s p of None \<Rightarrow> Inl enoent
          | Some f \<Rightarrow> if utf8 (f_data f) then Inr (f_data f)
                      else Inl ''stream did not contain valid UTF-8''))"

text \<open>An operating system that refuses nothing.\<close>

definition willing :: fs_env where
  "willing op = None"

lemmas fs_defs = create_dir_all_def set_permissions_def create_file_def write_all_def
  fs_write_def read_to_string_def

lemma fs_write_ok:
  assumes "fs_write env p t s = Inr s'"
  shows "\<exists>f. fs_files s' p = Some f \<and> f_data f = t"
    and "q \<noteq> p \<Longrightarrow> fs_files s' q = fs_files s q"
    and "fs_dirs s' = fs_dirs s"
  using assms by (auto simp: fs_write_def create_file_def write_all_def
      split: option.splits sum.splits)

text \<open>
  \<open>Path::parent\<close>, for paths without \<open>.\<close> components after the first one: trailing separators are
  ignored, the last component is cut off, the root and the empty path have no parent. A path of
  one component has the empty path as its parent.
\<close>

definition strip_slashes :: "string \<Rightarrow> string" where
  "strip_slashes p = rev (dropWhile (\<lambda>c. c = CHR ''/'') (rev p))"

definition parent :: "string \<Rightarrow> string option" where
  "parent p =
     (let q = strip_slashes p
      in if q = [] then None
         else let up = rev (dropWhile (\<lambda>c. c \<noteq> CHR ''/'') (rev q));
                  d = strip_slashes up
              in Some (if d = [] \<and> up \<noteq> [] then ''/'' else d))"

lemma parent_examples:
  "parent ''identity.key'' = Some []"
  "parent ''/etc/gp/identity.key'' = Some ''/etc/gp''"
  "parent ''/key'' = Some ''/''"
  "parent ''/'' = None"
  by (simp_all add: parent_def strip_slashes_def)

end
