(* ===== verification/Net_Addr.thy ===== *)
theory Net_Addr
  imports Rust_Std
begin

section \<open>Socket addresses of the Rust standard library\<close>

text \<open>
  \<open>std::net::IpAddr\<close> and \<open>std::net::SocketAddr\<close>: the parser behind \<open>str::parse\<close> (config
  validation, the console's address step and the firewall's log extraction all use it) and the
  \<open>Display\<close> the daemon's log lines use. The parser is the one of the standard library: octets
  without leading zeros, at most three digits each; IPv6 groups of at most four hexadecimal
  digits, one \<open>::\<close>, an optional embedded IPv4 tail; a decimal scope id and a decimal port.
  A parser takes the rest of the input and returns what it read with the new rest; \<open>None\<close>
  consumes nothing.
\<close>

datatype ip_addr = V4 u8 u8 u8 u8 | V6 "u16 list"

datatype socket_addr =
    SocketV4 u8 u8 u8 u8 u16
  | SocketV6 "u16 list" u16 u32 \<comment> \<open>segments, port, scope id\<close>

fun ip_of :: "socket_addr \<Rightarrow> ip_addr" where
  "ip_of (SocketV4 a b c d p) = V4 a b c d"
| "ip_of (SocketV6 segs p sc) = V6 segs"

subsection \<open>Parsing\<close>

type_synonym 'a parser = "string \<Rightarrow> ('a \<times> string) option"

definition to_digit :: "nat \<Rightarrow> char \<Rightarrow> nat option" where
  "to_digit radix c =
     (let n = byte c;
          v = (if 48 \<le> n \<and> n \<le> 57 then n - 48
               else if 97 \<le> n \<and> n \<le> 122 then n - 87
               else if 65 \<le> n \<and> n \<le> 90 then n - 55 else radix)
      in if v < radix then Some v else None)"

fun radix_val :: "nat \<Rightarrow> nat \<Rightarrow> string \<Rightarrow> nat" where
  "radix_val radix acc [] = acc"
| "radix_val radix acc (c # s) =
     radix_val radix (radix * acc + (case to_digit radix c of Some v \<Rightarrow> v | None \<Rightarrow> 0)) s"

definition is_radix_digit :: "nat \<Rightarrow> char \<Rightarrow> bool" where
  "is_radix_digit radix c \<longleftrightarrow> to_digit radix c \<noteq> None"

text \<open>
  \<open>read_number radix max_digits allow_zero_prefix\<close> for a target type below \<open>bound\<close>. Without
  \<open>max_digits\<close> the code multiplies and adds with overflow checks in the target type; the value
  only grows, so a check fails exactly when the final value is out of range.
\<close>

definition read_number :: "nat \<Rightarrow> nat option \<Rightarrow> bool \<Rightarrow> nat \<Rightarrow> nat parser" where
  "read_number radix max_digits allow_zero bound s =
     (let ds = takeWhile (is_radix_digit radix) s; v = radix_val radix 0 ds
      in if (case max_digits of Some m \<Rightarrow> m < length ds | None \<Rightarrow> False) then None
         else if ds = [] then None
         else if \<not> allow_zero \<and> hd ds = CHR ''0'' \<and> 1 < length ds then None
         else if v < bound then Some (v, drop (length ds) s)
         else None)"

fun read_given_char :: "char \<Rightarrow> unit parser" where
  "read_given_char c [] = None"
| "read_given_char c (x # s) = (if x = c then Some ((), s) else None)"

definition read_separator :: "char \<Rightarrow> nat \<Rightarrow> 'a parser \<Rightarrow> 'a parser" where
  "read_separator sep i inner s =
     (if 0 < i then Option.bind (read_given_char sep s) (\<lambda>(_, r). inner r) else inner s)"

definition read_octet :: "nat \<Rightarrow> u8 parser" where
  "read_octet i = read_separator CHR ''.'' i
     (\<lambda>s. map_option (\<lambda>(n, r). (of_nat n, r)) (read_number 10 (Some 3) False 256 s))"

definition read_ipv4 :: "(u8 \<times> u8 \<times> u8 \<times> u8) parser" where
  "read_ipv4 s =
     (case read_octet 0 s of None \<Rightarrow> None | Some (a, r) \<Rightarrow>
     (case read_octet 1 r of None \<Rightarrow> None | Some (b, r) \<Rightarrow>
     (case read_octet 2 r of None \<Rightarrow> None | Some (c, r) \<Rightarrow>
     (case read_octet 3 r of None \<Rightarrow> None | Some (d, r) \<Rightarrow> Some ((a, b, c, d), r)))))"

definition from_be_bytes :: "u8 \<Rightarrow> u8 \<Rightarrow> u16" where
  "from_be_bytes hi lo = of_nat (256 * unat hi + unat lo)"

function read_groups :: "nat \<Rightarrow> nat \<Rightarrow> u16 list \<Rightarrow> string \<Rightarrow> u16 list \<times> bool \<times> string" where
  "read_groups limit i acc s =
     (if limit \<le> i then (acc, False, s)
      else case (if Suc i < limit then read_separator CHR '':'' i read_ipv4 s else None) of
        Some ((a, b, c, d), r) \<Rightarrow> (acc @ [from_be_bytes a b, from_be_bytes c d], True, r)
      | None \<Rightarrow>
          (case read_separator CHR '':'' i (read_number 16 (Some 4) True 65536) s of
             Some (g, r) \<Rightarrow> read_groups limit (Suc i) (acc @ [of_nat g]) r
           | None \<Rightarrow> (acc, False, s)))"
  by pat_completeness auto
termination
  by (relation "measure (\<lambda>(limit, i, acc, s). limit - i)") auto

declare read_groups.simps [simp del]

definition read_ipv6 :: "u16 list parser" where
  "read_ipv6 s =
     (case read_groups 8 0 [] s of (head, v4, r) \<Rightarrow>
        if length head = 8 then Some (head, r)
        else if v4 then None
        else (case read_given_char CHR '':'' r of None \<Rightarrow> None | Some (_, r) \<Rightarrow>
             (case read_given_char CHR '':'' r of None \<Rightarrow> None | Some (_, r) \<Rightarrow>
             (case read_groups (8 - (length head + 1)) 0 [] r of (tail, _, r) \<Rightarrow>
                Some (head @ replicate (8 - length head - length tail) 0 @ tail, r)))))"

definition read_ip :: "ip_addr parser" where
  "read_ip s =
     (case read_ipv4 s of Some ((a, b, c, d), r) \<Rightarrow> Some (V4 a b c d, r)
      | None \<Rightarrow> map_option (\<lambda>(segs, r). (V6 segs, r)) (read_ipv6 s))"

definition read_port :: "u16 parser" where
  "read_port s =
     (case read_given_char CHR '':'' s of None \<Rightarrow> None
      | Some (_, r) \<Rightarrow> map_option (\<lambda>(n, r). (of_nat n, r)) (read_number 10 None True 65536 r))"

definition read_scope_id :: "u32 parser" where
  "read_scope_id s =
     (case read_given_char CHR ''%'' s of None \<Rightarrow> None
      | Some (_, r) \<Rightarrow> map_option (\<lambda>(n, r). (of_nat n, r)) (read_number 10 None True (2 ^ 32) r))"

definition read_socket_v4 :: "socket_addr parser" where
  "read_socket_v4 s =
     (case read_ipv4 s of None \<Rightarrow> None
      | Some ((a, b, c, d), r) \<Rightarrow>
          (case read_port r of None \<Rightarrow> None | Some (p, r) \<Rightarrow> Some (SocketV4 a b c d p, r)))"

definition read_socket_v6 :: "socket_addr parser" where
  "read_socket_v6 s =
     (case read_given_char CHR ''['' s of None \<Rightarrow> None | Some (_, r) \<Rightarrow>
     (case read_ipv6 r of None \<Rightarrow> None | Some (segs, r) \<Rightarrow>
     (case (case read_scope_id r of Some (sc, r') \<Rightarrow> (sc, r') | None \<Rightarrow> (0, r)) of (sc, r) \<Rightarrow>
     (case read_given_char CHR '']'' r of None \<Rightarrow> None | Some (_, r) \<Rightarrow>
     (case read_port r of None \<Rightarrow> None | Some (p, r) \<Rightarrow> Some (SocketV6 segs p sc, r))))))"

definition read_socket_addr :: "socket_addr parser" where
  "read_socket_addr s =
     (case read_socket_v4 s of Some x \<Rightarrow> Some x | None \<Rightarrow> read_socket_v6 s)"

text \<open>\<open>str::parse\<close> succeeds only when the whole input was consumed.\<close>

definition parse_all :: "'a parser \<Rightarrow> string \<Rightarrow> 'a option" where
  "parse_all p s = (case p s of Some (x, []) \<Rightarrow> Some x | _ \<Rightarrow> None)"

definition parse_socket_addr :: "string \<Rightarrow> socket_addr option" where
  "parse_socket_addr = parse_all read_socket_addr"

definition parse_ip_addr :: "string \<Rightarrow> ip_addr option" where
  "parse_ip_addr = parse_all read_ip"

subsection \<open>Display\<close>

definition show_v4 :: "u8 \<Rightarrow> u8 \<Rightarrow> u8 \<Rightarrow> u8 \<Rightarrow> string" where
  "show_v4 a b c d =
     show_word a @ ''.'' @ show_word b @ ''.'' @ show_word c @ ''.'' @ show_word d"

fun show_hex :: "nat \<Rightarrow> string" where
  "show_hex n =
     (let digit = (\<lambda>d. if d < 10 then char_of (48 + d) else char_of (87 + d :: nat))
      in if n < 16 then [digit n] else show_hex (n div 16) @ [digit (n mod 16)])"

declare show_hex.simps [simp del]

fun join :: "string \<Rightarrow> string list \<Rightarrow> string" where
  "join sep [] = []"
| "join sep [x] = x"
| "join sep (x # xs) = x @ sep @ join sep xs"

definition show_groups :: "u16 list \<Rightarrow> string" where
  "show_groups gs = join '':'' (map (\<lambda>g. show_hex (unat g)) gs)"

text \<open>The longest run of zero groups, the first one among equals, as (start, length).\<close>

fun zero_span :: "nat \<Rightarrow> nat \<times> nat \<Rightarrow> nat \<times> nat \<Rightarrow> u16 list \<Rightarrow> nat \<times> nat" where
  "zero_span i longest current [] = longest"
| "zero_span i longest current (g # gs) =
     (if g = 0 then
        let current = (if snd current = 0 then i else fst current, snd current + 1);
            longest = (if snd longest < snd current then current else longest)
        in zero_span (Suc i) longest current gs
      else zero_span (Suc i) longest (0, 0) gs)"

definition show_v6 :: "u16 list \<Rightarrow> string" where
  "show_v6 segs =
     (if take 6 segs = [0, 0, 0, 0, 0, 65535] \<and> length segs = 8 then
        ''::ffff:'' @ show_v4 (of_nat (unat (segs ! 6) div 256)) (of_nat (unat (segs ! 6) mod 256))
                              (of_nat (unat (segs ! 7) div 256)) (of_nat (unat (segs ! 7) mod 256))
      else case zero_span 0 (0, 0) (0, 0) segs of (start, len) \<Rightarrow>
        if 1 < len then show_groups (take start segs) @ ''::'' @ show_groups (drop (start + len) segs)
        else show_groups segs)"

fun show_ip :: "ip_addr \<Rightarrow> string" where
  "show_ip (V4 a b c d) = show_v4 a b c d"
| "show_ip (V6 segs) = show_v6 segs"

fun show_socket_addr :: "socket_addr \<Rightarrow> string" where
  "show_socket_addr (SocketV4 a b c d p) = show_v4 a b c d @ '':'' @ show_word p"
| "show_socket_addr (SocketV6 segs p sc) =
     ''['' @ show_v6 segs @ (if sc = 0 then [] else ''%'' @ show_word sc) @ '']:'' @ show_word p"

subsection \<open>Reading back what was printed\<close>

lemma to_digit_10: "to_digit 10 c = (if is_digit c then Some (byte c - 48) else None)"
  by (auto simp: to_digit_def is_digit_def Let_def)

lemma radix_val_10: "\<forall>c \<in> set s. is_digit c \<Longrightarrow> radix_val 10 acc s = digits_val acc s"
  by (induction s arbitrary: acc) (auto simp: to_digit_10)

definition ends_number :: "string \<Rightarrow> bool" where
  "ends_number r \<longleftrightarrow> r = [] \<or> \<not> is_digit (hd r)"

lemma takeWhile_show_nat:
  "ends_number r \<Longrightarrow> takeWhile (is_radix_digit 10) (show_nat n @ r) = show_nat n"
  using show_nat_digits [of n]
  by (cases r) (auto simp: is_radix_digit_def to_digit_10 ends_number_def takeWhile_append)

lemma length_show_nat: "n < 1000 \<Longrightarrow> length (show_nat n) \<le> 3"
  by (simp add: show_nat.simps [of n] show_nat.simps [of "n div 10"]
      show_nat.simps [of "n div 10 div 10"])

lemma length_show_nat_1: "n < 10 \<Longrightarrow> length (show_nat n) = 1"
  by (simp add: show_nat.simps [of n])

lemma read_number_show_nat:
  assumes "ends_number r" and "n < bound" and "maxd = None \<or> maxd = Some 3 \<and> n < 1000"
  shows "read_number 10 maxd allow bound (show_nat n @ r) = Some (n, r)"
proof -
  have v: "radix_val 10 0 (show_nat n) = n"
    using show_nat_digits [of n] by (simp add: radix_val_10 digits_val_show_nat)
  have z: "\<not> (hd (show_nat n) = CHR ''0'' \<and> 1 < length (show_nat n))"
    using hd_show_nat [of n] length_show_nat_1 [of n]
    by (cases "n < 10") (auto simp: byte_def)
  have m: "\<not> (case maxd of Some m \<Rightarrow> m < length (show_nat n) | None \<Rightarrow> False)"
    using assms(3) length_show_nat [of n] by auto
  show ?thesis
    using z m assms(2) by (auto simp: read_number_def takeWhile_show_nat [OF assms(1)] v Let_def)
qed

lemma ends_number_simps [simp]:
  "ends_number []" "ends_number (CHR ''.'' # s)" "ends_number (CHR '':'' # s)"
  by (simp_all add: ends_number_def is_digit_def byte_def)

lemma unat_u8: "unat (w :: u8) < 256"
  by (rule order_less_le_trans [OF unsigned_less]) simp

lemma unat_u16: "unat (w :: u16) < 65536"
  by (rule order_less_le_trans [OF unsigned_less]) simp

lemma read_octet_show:
  assumes "ends_number r"
  shows "read_octet 0 (show_word a @ r) = Some (a, r)"
    and "0 < i \<Longrightarrow> read_octet i (CHR ''.'' # show_word a @ r) = Some (a, r)"
proof -
  have "read_number 10 (Some 3) False 256 (show_word a @ r) = Some (unat a, r)"
    unfolding show_word_def by (rule read_number_show_nat [OF assms unat_u8])
      (use unat_u8 [of a] in simp)
  then show "read_octet 0 (show_word a @ r) = Some (a, r)"
    and "0 < i \<Longrightarrow> read_octet i (CHR ''.'' # show_word a @ r) = Some (a, r)"
    by (simp_all add: read_octet_def read_separator_def)
qed

lemma read_ipv4_show:
  assumes "ends_number r"
  shows "read_ipv4 (show_v4 a b c d @ r) = Some ((a, b, c, d), r)"
  using read_octet_show(2) [OF assms, of 3 d]
  by (simp add: read_ipv4_def show_v4_def read_octet_show)

lemma parse_ip_show_v4: "parse_ip_addr (show_v4 a b c d) = Some (V4 a b c d)"
  using read_ipv4_show [of "[]" a b c d] by (simp add: parse_ip_addr_def parse_all_def read_ip_def)

lemma read_port_show:
  assumes "ends_number r"
  shows "read_port (CHR '':'' # show_word p @ r) = Some (p, r)"
proof -
  have "read_number 10 None True 65536 (show_word p @ r) = Some (unat p, r)"
    unfolding show_word_def by (rule read_number_show_nat [OF assms unat_u16]) simp
  then show ?thesis by (simp add: read_port_def)
qed

lemma parse_show_socket_v4:
  "parse_socket_addr (show_socket_addr (SocketV4 a b c d p)) = Some (SocketV4 a b c d p)"
  using read_ipv4_show [of "CHR '':'' # show_word p" a b c d] read_port_show [of "[]" p]
  by (simp add: parse_socket_addr_def parse_all_def read_socket_addr_def read_socket_v4_def)

lemma digit_chars:
  "char_of (48::nat) = CHR ''0''" "char_of (49::nat) = CHR ''1''" "char_of (50::nat) = CHR ''2''"
  "char_of (51::nat) = CHR ''3''" "char_of (52::nat) = CHR ''4''" "char_of (53::nat) = CHR ''5''"
  "char_of (54::nat) = CHR ''6''" "char_of (55::nat) = CHR ''7''" "char_of (56::nat) = CHR ''8''"
  "char_of (57::nat) = CHR ''9''"
  by (simp_all add: char_of_def bit_iff_odd)

lemma read_groups_length:
  "read_groups limit i acc s = (gs, v4, r) \<Longrightarrow> length acc = i \<Longrightarrow> i \<le> limit \<Longrightarrow>
     length gs \<le> limit"
proof (induction "limit - i" arbitrary: i acc s)
  case 0
  then show ?case by (subst (asm) read_groups.simps) auto
next
  case (Suc n)
  have IH: "length gs \<le> limit"
    if "read_groups limit (Suc i) (acc @ [g]) q = (gs, v4, r)" for g q
    using Suc.hyps(1) [OF _ that] Suc.hyps(2) Suc.prems by simp
  show ?case using Suc.prems Suc.hyps(2)
    by (subst (asm) read_groups.simps)
      (auto split: if_splits option.splits prod.splits intro: IH)
qed

lemma read_ipv6_length:
  assumes "read_ipv6 s = Some (segs, r)"
  shows "length segs = 8"
proof -
  obtain head v4 r1 where h: "read_groups 8 0 [] s = (head, v4, r1)"
    by (cases "read_groups 8 0 [] s")
  then have len: "length head \<le> 8" using read_groups_length by force
  have tail: "length gs \<le> 7 - length head"
    if "read_groups (7 - length head) 0 [] q = (gs, v, r2)" for q gs v r2
    using read_groups_length [OF that] by simp
  show ?thesis using assms h len
    by (auto simp: read_ipv6_def dest!: tail split: if_splits option.splits prod.splits)
qed

end
