(* ===== verification/Keys.thy ===== *)
theory Keys
  imports File_Store Net_Addr
begin

section \<open>Static keys (\<open>keys.rs\<close>)\<close>

text \<open>
  Saving, loading, decoding and fingerprinting Noise keys. The base64 engine and SHA-256 come
  from crates outside the repository: \<open>b64_enc\<close>, \<open>b64_dec\<close> (with the error's text on the left) and
  \<open>sha256\<close> are arguments. The only law assumed of the engine, where a round trip needs it, is that
  decoding undoes encoding and that the text it produces has no white space at its ends.
\<close>

type_synonym bytes = "u8 list"
type_synonym b64_decoder = "string \<Rightarrow> string + bytes"
type_synonym b64_encoder = "bytes \<Rightarrow> string"

record keypair =
  kp_private :: bytes
  kp_public :: bytes

definition public_key_path :: "string \<Rightarrow> string" where
  "public_key_path private_key_path = private_key_path @ ''.pub''"

definition write_base64_line ::
  "b64_encoder \<Rightarrow> fs_env \<Rightarrow> string \<Rightarrow> bytes \<Rightarrow> fs \<Rightarrow> fs_result" where
  "write_base64_line b64_enc env path bs s =
     (case create_file env path s of Inl e \<Rightarrow> Inl e | Inr s \<Rightarrow>
     (case write_all env path (b64_enc bs) s of Inl e \<Rightarrow> Inl e | Inr s \<Rightarrow>
      write_all env path [CHR 10] s))"

definition save_private_key ::
  "b64_encoder \<Rightarrow> fs_env \<Rightarrow> string \<Rightarrow> bytes \<Rightarrow> fs \<Rightarrow> fs_result" where
  "save_private_key b64_enc env path private s =
     (case (case parent path of None \<Rightarrow> Inr s
            | Some d \<Rightarrow>
               (case create_dir_all env d s of Inl e \<Rightarrow> Inl e
                | Inr s \<Rightarrow> set_permissions env d 448 s)) of
        Inl e \<Rightarrow> Inl e
      | Inr s \<Rightarrow>
         (case write_base64_line b64_enc env path private s of Inl e \<Rightarrow> Inl e
          | Inr s \<Rightarrow> set_permissions env path 384 s))"

definition save_public_key ::
  "b64_encoder \<Rightarrow> fs_env \<Rightarrow> string \<Rightarrow> bytes \<Rightarrow> fs \<Rightarrow> fs_result" where
  "save_public_key b64_enc env path public s =
     (case (case parent path of None \<Rightarrow> Inr s | Some d \<Rightarrow> create_dir_all env d s) of
        Inl e \<Rightarrow> Inl e
      | Inr s \<Rightarrow> write_base64_line b64_enc env path public s)"

definition encode_public_key :: "b64_encoder \<Rightarrow> bytes \<Rightarrow> string" where
  "encode_public_key b64_enc public = b64_enc public"

definition decode_public_key :: "b64_decoder \<Rightarrow> string \<Rightarrow> string + bytes" where
  "decode_public_key b64_dec s =
     (case b64_dec (trim s) of
        Inl e \<Rightarrow> Inl (''invalid base64 key: '' @ e)
      | Inr key \<Rightarrow>
          if length key \<noteq> 32 then Inl (''key must be 32 bytes, got '' @ show_nat (length key))
          else Inr key)"

definition load_private_key :: "b64_decoder \<Rightarrow> fs_env \<Rightarrow> string \<Rightarrow> fs \<Rightarrow> string + bytes" where
  "load_private_key b64_dec env path s =
     (case read_to_string env path s of
        Inl e \<Rightarrow> Inl (''failed to read '' @ path @ '': '' @ e)
      | Inr text \<Rightarrow>
         (case decode_public_key b64_dec (trim text) of
            Inl e \<Rightarrow> Inl (path @ '' does not contain a valid key: '' @ e)
          | Inr key \<Rightarrow> Inr key))"

text \<open>\<open>{b:02x}\<close>\<close>

definition show_hex2 :: "u8 \<Rightarrow> string" where
  "show_hex2 b = (if unat b < 16 then ''0'' else []) @ show_hex (unat b)"

definition fingerprint :: "(bytes \<Rightarrow> bytes) \<Rightarrow> bytes \<Rightarrow> string" where
  "fingerprint sha256 public_key = join '':'' (map show_hex2 (sha256 public_key))"

lemmas [op_defs] = write_base64_line_def save_private_key_def save_public_key_def
  decode_public_key_def load_private_key_def

subsection \<open>Decoding\<close>

lemma decode_public_key_length: "decode_public_key b64_dec s = Inr k \<Longrightarrow> length k = 32"
  by (auto simp: decode_public_key_def split: sum.splits if_splits)

lemma decode_public_key_trim [simp]:
  "decode_public_key b64_dec (trim s) = decode_public_key b64_dec s"
  by (simp add: decode_public_key_def)

text \<open>What the code relies on in the base64 engine.\<close>

definition b64_lawful :: "b64_encoder \<Rightarrow> b64_decoder \<Rightarrow> bool" where
  "b64_lawful b64_enc b64_dec \<longleftrightarrow>
     (\<forall>bs. b64_dec (b64_enc bs) = Inr bs \<and> trim (b64_enc bs @ [CHR 10]) = b64_enc bs \<and>
        utf8 (b64_enc bs))"

lemma b64_lawful_trim:
  assumes "b64_lawful b64_enc b64_dec"
  shows "trim (b64_enc bs) = b64_enc bs"
proof -
  have "trim (b64_enc bs @ [CHR 10]) = b64_enc bs" using assms by (simp add: b64_lawful_def)
  then show ?thesis using trim_trim by metis
qed

lemma decode_encode:
  "b64_lawful b64_enc b64_dec \<Longrightarrow> length k = 32 \<Longrightarrow>
     decode_public_key b64_dec (encode_public_key b64_enc k) = Inr k"
  by (simp add: decode_public_key_def encode_public_key_def b64_lawful_trim)
    (simp add: b64_lawful_def)

subsection \<open>The private key file\<close>

lemma write_base64_line_ok:
  assumes "write_base64_line b64_enc env path bs s = Inr s'"
  shows "\<exists>f. fs_files s' path = Some f \<and> f_data f = b64_enc bs @ [CHR 10]"
  using assms by (auto simp: write_base64_line_def create_file_def write_all_def
      split: sum.splits option.splits)

lemma save_private_key_ok:
  assumes "save_private_key b64_enc env path private s = Inr s'"
  shows "fs_files s' path = Some \<lparr>f_data = b64_enc private @ [CHR 10], f_mode = 384\<rparr>"
proof -
  obtain s1 s2 where w: "write_base64_line b64_enc env path private s1 = Inr s2"
    and p: "set_permissions env path 384 s2 = Inr s'"
    using assms by (auto simp: save_private_key_def split: sum.splits)
  obtain f where "fs_files s2 path = Some f" "f_data f = b64_enc private @ [CHR 10]"
    using write_base64_line_ok [OF w] by blast
  with p show ?thesis by (auto simp: set_permissions_def split: option.splits)
qed

lemma save_load_private_key:
  assumes "b64_lawful b64_enc b64_dec" and "length private = 32"
    and "save_private_key b64_enc env path private s = Inr s'"
    and "env (Read_File path) = None"
  shows "load_private_key b64_dec env path s' = Inr private"
proof -
  have "trim (b64_enc private @ [CHR 10]) = b64_enc private" "utf8 (b64_enc private)"
    using assms(1) by (simp_all add: b64_lawful_def)
  then show ?thesis
    using decode_encode [OF assms(1,2)] assms(4) save_private_key_ok [OF assms(3)]
    by (simp add: load_private_key_def read_to_string_def encode_public_key_def)
qed

text \<open>A path of one component has the empty path as parent, which no directory call accepts.\<close>

lemma save_private_key_bare_name:
  assumes "parent path = Some []" and "fs_files s [] = None" and "fs_dirs s [] = None"
  shows "\<exists>e. save_private_key b64_enc env path private s = Inl e"
  using assms by (auto simp: save_private_key_def create_dir_all_def set_permissions_def
      split: option.splits)

subsection \<open>Fingerprints\<close>

lemma length_show_hex_small: "n < 16 \<Longrightarrow> length (show_hex n) = 1"
  by (simp add: show_hex.simps [of n] Let_def)

lemma length_show_hex_byte: "16 \<le> n \<Longrightarrow> n < 256 \<Longrightarrow> length (show_hex n) = 2"
  by (simp add: show_hex.simps [of n] Let_def length_show_hex_small)

lemma length_show_hex2: "length (show_hex2 b) = 2"
  using unat_u8 [of b]
  by (auto simp: show_hex2_def length_show_hex_small length_show_hex_byte not_less)

lemma length_join:
  "\<forall>x \<in> set xs. length x = n \<Longrightarrow>
     length (join sep xs) = length xs * n + (length xs - 1) * length sep"
proof (induction sep xs rule: join.induct)
  case (3 sep x y xs)
  then show ?case by simp
qed auto

lemma fingerprint_length:
  "length (sha256 k) = 32 \<Longrightarrow> length (fingerprint sha256 k) = 95"
  by (simp add: fingerprint_def length_show_hex2 length_join [where n = 2])

end
