(* ===== verification/Config.thy ===== *)
theory Config
  imports Keys
begin

section \<open>The configuration and its validation (\<open>config.rs\<close>)\<close>

text \<open>
  The TOML schema as records, \<open>Config::validate\<close> with every message it can produce, and
  \<open>load\<close>/\<open>save\<close>. The TOML reader and writer are a crate outside the repository and are arguments.
  The Rust code pushes messages on one vector; here each check returns the messages it pushes and
  the checks are concatenated in the code's order. \<open>valid_config\<close> says without messages what a
  valid config is, and \<open>validate_Nil_iff\<close> shows that \<open>validate\<close> reports nothing exactly for those.
\<close>

subsection \<open>The schema\<close>

datatype role = Server | Client

datatype link_mode = Forward | Reverse

datatype transport = Tcp | Udp

record peer_config =
  peer_name :: string
  peer_key :: string
  peer_links :: "string list"

record link_config =
  link_id :: string
  link_mode :: link_mode
  link_transport :: transport
  link_listen :: "string option"
  link_target :: "string option"

record config =
  cfg_role :: role
  private_key_path :: string
  peer_public_key :: "string option"
  cfg_peers :: "peer_config list"
  listen_control :: "string option"
  listen_data :: "string option"
  listen_udp :: "string option"
  server_control_addr :: "string option"
  server_data_addr :: "string option"
  server_udp_addr :: "string option"
  cfg_links :: "link_config list"

subsection \<open>Text of the messages\<close>

definition quoted :: "string \<Rightarrow> string" where
  "quoted s = [CHR 0x22] @ s @ [CHR 0x22]"

text \<open>The derived \<open>Debug\<close> texts, and their lower case.\<close>

fun debug_role :: "role \<Rightarrow> string" where
  "debug_role Server = ''Server''"
| "debug_role Client = ''Client''"

fun debug_mode :: "link_mode \<Rightarrow> string" where
  "debug_mode Forward = ''Forward''"
| "debug_mode Reverse = ''Reverse''"

definition to_lowercase :: "string \<Rightarrow> string" where
  "to_lowercase s =
     map (\<lambda>c. if 65 \<le> byte c \<and> byte c \<le> 90 then char_of (byte c + 32) else c) s"

definition require_present :: "string \<Rightarrow> string option \<Rightarrow> string \<Rightarrow> string list" where
  "require_present field v because =
     (if v = None then [''`'' @ field @ ''` is required when '' @ because] else [])"

definition require_absent :: "string \<Rightarrow> string option \<Rightarrow> string \<Rightarrow> string list" where
  "require_absent field v because =
     (if v \<noteq> None then [''`'' @ field @ ''` must not be set when '' @ because] else [])"

subsection \<open>Validation\<close>

definition link_needs_listen :: "role \<Rightarrow> link_mode \<Rightarrow> bool" where
  "link_needs_listen r m \<longleftrightarrow> (r = Client \<and> m = Forward) \<or> (r = Server \<and> m = Reverse)"

definition validate_link :: "role \<Rightarrow> link_config \<Rightarrow> string list" where
  "validate_link r l =
     (let needs_listen = link_needs_listen r (link_mode l);
          required_field = (if needs_listen then ''listen'' else ''target'');
          forbidden_field = (if needs_listen then ''target'' else ''listen'');
          required_value = (if needs_listen then link_listen l else link_target l);
          forbidden_value = (if needs_listen then link_target l else link_listen l);
          head = ''link '' @ quoted (link_id l) @ '': '';
          side = debug_mode (link_mode l) @ '' on this side ('' @ debug_role r @ '') ''
      in (if required_value = None
          then [head @ side @ ''requires `'' @ required_field @ ''`''] else []) @
         (if forbidden_value \<noteq> None
          then [head @ side @ ''must not set `'' @ forbidden_field
                @ ''` (that belongs on the peer's config)''] else []) @
         (case required_value of None \<Rightarrow> []
          | Some addr \<Rightarrow>
              if parse_socket_addr addr = None
              then [head @ ''`'' @ required_field @ ''` = '' @ quoted addr
                    @ '' is not a valid host:port address''] else []))"

text \<open>The loop over the links, with the set of ids seen so far.\<close>

fun validate_links :: "role \<Rightarrow> string set \<Rightarrow> link_config list \<Rightarrow> string list" where
  "validate_links r seen [] = []"
| "validate_links r seen (l # ls) =
     (if link_id l \<in> seen then [''link '' @ quoted (link_id l) @ '': duplicate id''] else []) @
     validate_link r l @ validate_links r (insert (link_id l) seen) ls"

definition reverse_udp_error :: "link_config \<Rightarrow> string list" where
  "reverse_udp_error l =
     (if link_transport l = Udp \<and> link_mode l = Reverse
      then [''link '' @ quoted (link_id l) @ '': reverse-mode UDP links aren't supported yet'']
      else [])"

definition validate_udp :: "config \<Rightarrow> string list" where
  "validate_udp cfg =
     concat (map reverse_udp_error (cfg_links cfg)) @
     (let any_udp_link = list_ex (\<lambda>l. link_transport l = Udp) (cfg_links cfg);
          used = ''a link uses transport = '' @ quoted ''udp'';
          unused = ''no link uses transport = '' @ quoted ''udp''
      in case cfg_role cfg of
           Server \<Rightarrow> if any_udp_link then require_present ''listen_udp'' (listen_udp cfg) used
                     else require_absent ''listen_udp'' (listen_udp cfg) unused
         | Client \<Rightarrow> if any_udp_link
                     then require_present ''server_udp_addr'' (server_udp_addr cfg) used
                     else require_absent ''server_udp_addr'' (server_udp_addr cfg) unused)"

text \<open>The loop over the peers, with the names and the decoded keys seen so far.\<close>

fun validate_peers_loop ::
  "b64_decoder \<Rightarrow> string set \<Rightarrow> string set \<Rightarrow> bytes set \<Rightarrow> peer_config list \<Rightarrow> string list" where
  "validate_peers_loop b64_dec link_ids seen_names seen_keys [] = []"
| "validate_peers_loop b64_dec link_ids seen_names seen_keys (p # ps) =
     (let head = ''peer '' @ quoted (peer_name p) @ '': '' in
      (if peer_name p \<in> seen_names then [head @ ''duplicate name''] else []) @
      (case decode_public_key b64_dec (peer_key p) of
         Inr k \<Rightarrow> if k \<in> seen_keys
                  then [head @ ''public_key is already used by another peer''] else []
       | Inl _ \<Rightarrow> [head @ ''public_key is not a valid base64-encoded 32-byte key'']) @
      concat (map (\<lambda>i. if i \<notin> link_ids
                       then [head @ ''link id '' @ quoted i
                             @ '' is not defined in this config's `links`''] else [])
                  (peer_links p)) @
      validate_peers_loop b64_dec link_ids (insert (peer_name p) seen_names)
        (case decode_public_key b64_dec (peer_key p) of Inr k \<Rightarrow> insert k seen_keys
         | Inl _ \<Rightarrow> seen_keys) ps)"

definition validate_peers :: "b64_decoder \<Rightarrow> config \<Rightarrow> string list" where
  "validate_peers b64_dec cfg =
     validate_peers_loop b64_dec (set (map link_id (cfg_links cfg))) {} {} (cfg_peers cfg)"

definition validate_role :: "b64_decoder \<Rightarrow> config \<Rightarrow> string list" where
  "validate_role b64_dec cfg =
     (case cfg_role cfg of
        Server \<Rightarrow>
          let because = ''role = '' @ quoted ''server'' in
          require_present ''listen_control'' (listen_control cfg) because @
          require_present ''listen_data'' (listen_data cfg) because @
          require_absent ''server_control_addr'' (server_control_addr cfg) because @
          require_absent ''server_data_addr'' (server_data_addr cfg) because @
          (if peer_public_key cfg \<noteq> None
           then [''`peer_public_key` must not be set when role = '' @ quoted ''server''
                 @ '' (use `peers` instead)''] else []) @
          (if cfg_peers cfg = []
           then [''`peers` must have at least one entry when role = '' @ quoted ''server'']
           else []) @
          validate_peers b64_dec cfg
      | Client \<Rightarrow>
          let because = ''role = '' @ quoted ''client'' in
          require_present ''server_control_addr'' (server_control_addr cfg) because @
          require_present ''server_data_addr'' (server_data_addr cfg) because @
          require_absent ''listen_control'' (listen_control cfg) because @
          require_absent ''listen_data'' (listen_data cfg) because @
          (case peer_public_key cfg of
             None \<Rightarrow> [''`peer_public_key` is required when role = '' @ quoted ''client'']
           | Some key \<Rightarrow>
               (case decode_public_key b64_dec key of Inr _ \<Rightarrow> []
                | Inl _ \<Rightarrow>
                    [''peer_public_key is not a valid base64-encoded 32-byte key''])) @
          (if cfg_peers cfg \<noteq> []
           then [''`peers` must not be set when role = '' @ quoted ''client''
                 @ '' (use `peer_public_key` instead)''] else []))"

definition validate :: "b64_decoder \<Rightarrow> config \<Rightarrow> string list" where
  "validate b64_dec cfg =
     validate_role b64_dec cfg @
     validate_links (cfg_role cfg) {} (cfg_links cfg) @
     validate_udp cfg"

subsection \<open>Load and save\<close>

definition load :: "(string \<Rightarrow> string + config) \<Rightarrow> fs_env \<Rightarrow> string \<Rightarrow> fs \<Rightarrow> string + config" where
  "load toml_from env path s =
     (case read_to_string env path s of
        Inl e \<Rightarrow> Inl (''failed to read '' @ path @ '': '' @ e)
      | Inr text \<Rightarrow>
         (case toml_from text of Inl e \<Rightarrow> Inl (''failed to parse '' @ path @ '': '' @ e)
          | Inr cfg \<Rightarrow> Inr cfg))"

text \<open>The store after \<open>save\<close>, with the list of errors or nothing.\<close>

definition save ::
  "b64_decoder \<Rightarrow> (config \<Rightarrow> string + string) \<Rightarrow> fs_env \<Rightarrow> config \<Rightarrow> string \<Rightarrow> fs
     \<Rightarrow> string list + fs" where
  "save b64_dec toml_to env cfg path s =
     (let errors = validate b64_dec cfg in
      if errors \<noteq> [] then Inl errors
      else case toml_to cfg of Inl e \<Rightarrow> Inl [e]
      | Inr text \<Rightarrow>
         (case fs_write env path text s of
            Inl e \<Rightarrow> Inl [''failed to write '' @ path @ '': '' @ e]
          | Inr s' \<Rightarrow> Inr s'))"

text \<open>
  The store \<open>save\<close> leaves behind, also when it fails: \<open>fs::write\<close> truncates the file before it
  writes, so a refused write after a successful create leaves it empty.
\<close>

definition store_after_save ::
  "b64_decoder \<Rightarrow> (config \<Rightarrow> string + string) \<Rightarrow> fs_env \<Rightarrow> config \<Rightarrow> string \<Rightarrow> fs \<Rightarrow> fs" where
  "store_after_save b64_dec toml_to env cfg path s =
     (if validate b64_dec cfg \<noteq> [] then s
      else case toml_to cfg of Inl e \<Rightarrow> s
      | Inr out \<Rightarrow>
         (case create_file env path s of Inl e \<Rightarrow> s
          | Inr s1 \<Rightarrow> (case write_all env path out s1 of Inl e \<Rightarrow> s1 | Inr s2 \<Rightarrow> s2)))"

lemma store_after_save_ok:
  "save b64_dec toml_to env cfg path s = Inr s' \<Longrightarrow> store_after_save b64_dec toml_to env cfg path s = s'"
  by (auto simp: save_def store_after_save_def fs_write_def Let_def split: if_splits sum.splits)

lemma store_after_save_others:
  "q \<noteq> path \<Longrightarrow> fs_files (store_after_save b64_dec toml_to env cfg path s) q = fs_files s q"
  by (auto simp: store_after_save_def create_file_def write_all_def split: sum.split option.splits)

subsection \<open>What a valid config is\<close>

definition valid_addr :: "string option \<Rightarrow> bool" where
  "valid_addr a \<longleftrightarrow> (case a of None \<Rightarrow> False | Some s \<Rightarrow> parse_socket_addr s \<noteq> None)"

definition valid_link :: "role \<Rightarrow> link_config \<Rightarrow> bool" where
  "valid_link r l \<longleftrightarrow>
     (if link_needs_listen r (link_mode l)
      then valid_addr (link_listen l) \<and> link_target l = None
      else valid_addr (link_target l) \<and> link_listen l = None)"

definition valid_udp :: "config \<Rightarrow> bool" where
  "valid_udp cfg \<longleftrightarrow>
     (\<forall>l \<in> set (cfg_links cfg). link_transport l = Udp \<longrightarrow> link_mode l = Forward) \<and>
     ((case cfg_role cfg of Server \<Rightarrow> listen_udp cfg | Client \<Rightarrow> server_udp_addr cfg) \<noteq> None \<longleftrightarrow>
        (\<exists>l \<in> set (cfg_links cfg). link_transport l = Udp))"

definition decoded_keys :: "b64_decoder \<Rightarrow> config \<Rightarrow> (string + bytes) list" where
  "decoded_keys b64_dec cfg = map (\<lambda>p. decode_public_key b64_dec (peer_key p)) (cfg_peers cfg)"

definition valid_peers :: "b64_decoder \<Rightarrow> config \<Rightarrow> bool" where
  "valid_peers b64_dec cfg \<longleftrightarrow>
     distinct (map peer_name (cfg_peers cfg)) \<and>
     (\<forall>k \<in> set (decoded_keys b64_dec cfg). \<not> isl k) \<and>
     distinct (decoded_keys b64_dec cfg) \<and>
     (\<forall>p \<in> set (cfg_peers cfg). set (peer_links p) \<subseteq> link_id ` set (cfg_links cfg))"

definition valid_role :: "b64_decoder \<Rightarrow> config \<Rightarrow> bool" where
  "valid_role b64_dec cfg \<longleftrightarrow>
     (case cfg_role cfg of
        Server \<Rightarrow> listen_control cfg \<noteq> None \<and> listen_data cfg \<noteq> None \<and>
          server_control_addr cfg = None \<and> server_data_addr cfg = None \<and>
          peer_public_key cfg = None \<and> cfg_peers cfg \<noteq> [] \<and> valid_peers b64_dec cfg
      | Client \<Rightarrow> server_control_addr cfg \<noteq> None \<and> server_data_addr cfg \<noteq> None \<and>
          listen_control cfg = None \<and> listen_data cfg = None \<and> cfg_peers cfg = [] \<and>
          (\<exists>key k. peer_public_key cfg = Some key \<and> decode_public_key b64_dec key = Inr k))"

definition valid_config :: "b64_decoder \<Rightarrow> config \<Rightarrow> bool" where
  "valid_config b64_dec cfg \<longleftrightarrow>
     valid_role b64_dec cfg \<and>
     distinct (map link_id (cfg_links cfg)) \<and>
     (\<forall>l \<in> set (cfg_links cfg). valid_link (cfg_role cfg) l) \<and>
     valid_udp cfg"

lemmas require_defs = require_present_def require_absent_def

lemma validate_link_Nil: "validate_link r l = [] \<longleftrightarrow> valid_link r l"
  by (auto simp: validate_link_def valid_link_def valid_addr_def Let_def split: option.splits)

lemma validate_links_Nil:
  "validate_links r seen ls = [] \<longleftrightarrow>
     distinct (map link_id ls) \<and> link_id ` set ls \<inter> seen = {} \<and> (\<forall>l \<in> set ls. valid_link r l)"
  by (induction ls arbitrary: seen) (auto simp: validate_link_Nil)

lemma reverse_udp_error_Nil:
  "reverse_udp_error l = [] \<longleftrightarrow> (link_transport l = Udp \<longrightarrow> link_mode l = Forward)"
  by (cases "link_mode l") (simp_all add: reverse_udp_error_def)

lemma validate_udp_Nil: "validate_udp cfg = [] \<longleftrightarrow> valid_udp cfg"
  by (cases "cfg_role cfg"; cases "\<exists>l \<in> set (cfg_links cfg). link_transport l = Udp")
    (simp_all add: validate_udp_def valid_udp_def require_defs list_ex_iff Let_def
      reverse_udp_error_Nil)

lemma validate_peers_loop_Nil:
  "validate_peers_loop b64_dec ids names keys ps = [] \<longleftrightarrow>
     distinct (map peer_name ps) \<and> peer_name ` set ps \<inter> names = {} \<and>
     (\<forall>p \<in> set ps. \<not> isl (decode_public_key b64_dec (peer_key p))) \<and>
     distinct (map (\<lambda>p. decode_public_key b64_dec (peer_key p)) ps) \<and>
     (\<lambda>p. decode_public_key b64_dec (peer_key p)) ` set ps \<inter> Inr ` keys = {} \<and>
     (\<forall>p \<in> set ps. set (peer_links p) \<subseteq> ids)"
proof (induction ps arbitrary: names keys)
  case (Cons p ps)
  then show ?case
    by (cases "decode_public_key b64_dec (peer_key p)") (auto simp: Let_def)
qed simp

lemma validate_peers_Nil: "validate_peers b64_dec cfg = [] \<longleftrightarrow> valid_peers b64_dec cfg"
  by (auto simp: validate_peers_def validate_peers_loop_Nil valid_peers_def decoded_keys_def)

lemma validate_role_Nil: "validate_role b64_dec cfg = [] \<longleftrightarrow> valid_role b64_dec cfg"
  by (auto simp: validate_role_def valid_role_def require_defs validate_peers_Nil Let_def
      split: role.splits option.splits sum.splits)

lemma validate_Nil_iff: "validate b64_dec cfg = [] \<longleftrightarrow> valid_config b64_dec cfg"
  by (simp add: validate_def valid_config_def validate_role_Nil validate_links_Nil
      validate_udp_Nil)

end
