(* ===== verification/Stats.thy ===== *)
theory Stats
  imports Config "HOL-Library.Multiset"
begin

section \<open>Live state and the byte relay (\<open>stats.rs\<close>, \<open>relay.rs\<close>)\<close>

text \<open>
  The counters of a link are four independent 64-bit atomics, updated with relaxed ordering by
  every relay task; the daemon's state keeps one such record per configured link and the status
  of the control connection. An atomic update is one \<open>counter_op\<close>; a relay is the sequence of
  operations \<open>relay_ops\<close> around the copy loop, whose outcome (the bytes copied each way or an
  error) is the environment's. Wall-clock seconds are arguments.
\<close>

subsection \<open>Counters\<close>

record link_stats =
  active_streams :: u64
  total_streams :: u64
  bytes_forward :: u64
  bytes_back :: u64

definition zero_stats :: link_stats where
  "zero_stats = \<lparr>active_streams = 0, total_streams = 0, bytes_forward = 0, bytes_back = 0\<rparr>"

datatype counter_op =
    Active_Add
  | Total_Add
  | Active_Sub
  | Forward_Add u64
  | Back_Add u64

fun apply_op :: "counter_op \<Rightarrow> link_stats \<Rightarrow> link_stats" where
  "apply_op Active_Add s = s\<lparr>active_streams := active_streams s + 1\<rparr>"
| "apply_op Total_Add s = s\<lparr>total_streams := total_streams s + 1\<rparr>"
| "apply_op Active_Sub s = s\<lparr>active_streams := active_streams s - 1\<rparr>"
| "apply_op (Forward_Add n) s = s\<lparr>bytes_forward := bytes_forward s + n\<rparr>"
| "apply_op (Back_Add n) s = s\<lparr>bytes_back := bytes_back s + n\<rparr>"

text \<open>\<open>relay\<close>: two increments, the copy, one decrement, and the byte counts of a copy that ended
  without an error.\<close>

definition relay_ops :: "string + u64 \<times> u64 \<Rightarrow> counter_op list" where
  "relay_ops result =
     [Active_Add, Total_Add] @ [Active_Sub] @
     (case result of Inr (a_to_b, b_to_a) \<Rightarrow> [Forward_Add a_to_b, Back_Add b_to_a]
      | Inl _ \<Rightarrow> [])"

definition relay :: "string + u64 \<times> u64 \<Rightarrow> link_stats \<Rightarrow> link_stats" where
  "relay result = fold apply_op (relay_ops result)"

subsection \<open>The control connection's status\<close>

record control_status =
  connected :: bool
  connected_since :: "u64 option"
  control_peer_addr :: "string option"
  control_peer_name :: "string option"

definition set_connected ::
  "u64 \<Rightarrow> string \<Rightarrow> string option \<Rightarrow> control_status \<Rightarrow> control_status" where
  "set_connected now_unix addr name c =
     c\<lparr>connected := True, connected_since := Some now_unix,
       control_peer_addr := Some addr, control_peer_name := name\<rparr>"

definition set_disconnected :: "control_status \<Rightarrow> control_status" where
  "set_disconnected c = c\<lparr>connected := False\<rparr>"

subsection \<open>The shared state and its snapshot\<close>

record shared_state =
  st_role :: role
  started_at :: u64
  st_control :: control_status
  st_links :: "string \<rightharpoonup> link_stats"

definition new_state :: "u64 \<Rightarrow> config \<Rightarrow> shared_state" where
  "new_state now_unix cfg =
     \<lparr>st_role = cfg_role cfg, started_at = now_unix,
      st_control = \<lparr>connected = False, connected_since = None,
                    control_peer_addr = None, control_peer_name = None\<rparr>,
      st_links = map_of (map (\<lambda>l. (link_id l, zero_stats)) (cfg_links cfg))\<rparr>"

record link_snapshot =
  snap_id :: string
  snap_mode :: string
  snap_active :: u64
  snap_total :: u64
  snap_forward :: u64
  snap_back :: u64

record status_snapshot =
  snap_role :: string
  uptime_secs :: u64
  snap_connected :: bool
  connected_since_secs_ago :: "u64 option"
  snap_peer_addr :: "string option"
  snap_peer_name :: "string option"
  snap_links :: "link_snapshot list"

definition link_snapshot_of :: "string \<Rightarrow> string \<Rightarrow> link_stats \<Rightarrow> link_snapshot" where
  "link_snapshot_of i mode s =
     \<lparr>snap_id = i, snap_mode = mode, snap_active = active_streams s,
      snap_total = total_streams s, snap_forward = bytes_forward s, snap_back = bytes_back s\<rparr>"

definition snapshot :: "u64 \<Rightarrow> config \<Rightarrow> shared_state \<Rightarrow> status_snapshot" where
  "snapshot now_unix cfg st =
     \<lparr>snap_role = to_lowercase (debug_role (st_role st)),
      uptime_secs = saturating_sub now_unix (started_at st),
      snap_connected = connected (st_control st),
      connected_since_secs_ago =
        (if connected (st_control st)
         then map_option (saturating_sub now_unix) (connected_since (st_control st)) else None),
      snap_peer_addr = control_peer_addr (st_control st),
      snap_peer_name = control_peer_name (st_control st),
      snap_links = List.map_filter
        (\<lambda>l. map_option (link_snapshot_of (link_id l) (to_lowercase (debug_mode (link_mode l))))
               (st_links st (link_id l)))
        (cfg_links cfg)\<rparr>"

text \<open>A relay on one link of the shared state; the map itself never changes shape.\<close>

definition relay_on :: "string \<Rightarrow> string + u64 \<times> u64 \<Rightarrow> shared_state \<Rightarrow> shared_state" where
  "relay_on l result st =
     st\<lparr>st_links := (st_links st)(l := map_option (relay result) (st_links st l))\<rparr>"

lemmas [op_defs] = set_connected_def set_disconnected_def new_state_def snapshot_def

subsection \<open>Any interleaving of relays counts the same\<close>

lemma apply_op_commute: "apply_op a \<circ> apply_op b = apply_op b \<circ> apply_op a"
  by (rule ext; cases a; cases b) (simp_all add: algebra_simps)

lemma interleaving_irrelevant:
  "mset ops = mset ops' \<Longrightarrow> fold apply_op ops = fold apply_op ops'"
  by (rule fold_multiset_equiv) (simp_all add: apply_op_commute)

definition forwarded :: "string + u64 \<times> u64 \<Rightarrow> u64" where
  "forwarded r = (case r of Inr (f, b) \<Rightarrow> f | Inl _ \<Rightarrow> 0)"

definition returned :: "string + u64 \<times> u64 \<Rightarrow> u64" where
  "returned r = (case r of Inr (f, b) \<Rightarrow> b | Inl _ \<Rightarrow> 0)"

definition account :: "(string + u64 \<times> u64) list \<Rightarrow> link_stats \<Rightarrow> link_stats" where
  "account results s =
     s\<lparr>total_streams := total_streams s + of_nat (length results),
       bytes_forward := bytes_forward s + sum_list (map forwarded results),
       bytes_back := bytes_back s + sum_list (map returned results)\<rparr>"

lemma relay_account: "relay r s = account [r] s"
  by (cases r) (auto simp: relay_def relay_ops_def account_def forwarded_def returned_def)

lemma account_append: "account rs (account [r] s) = account (r # rs) s"
  by (simp add: account_def algebra_simps)

lemma relays_sequential: "fold apply_op (concat (map relay_ops results)) s = account results s"
proof (induction results arbitrary: s)
  case Nil
  then show ?case by (simp add: account_def)
next
  case (Cons r rs)
  then show ?case
    by (simp add: relay_account [unfolded relay_def] account_append)
qed

lemma relays_interleaved:
  "mset ops = mset (concat (map relay_ops results)) \<Longrightarrow>
     fold apply_op ops s = account results s"
  using interleaving_irrelevant relays_sequential by metis

text \<open>At any moment, the active count is the number of relays begun minus those ended.\<close>

lemma active_count:
  "active_streams (fold apply_op ops s) =
     active_streams s + of_nat (count_list ops Active_Add) - of_nat (count_list ops Active_Sub)"
proof (induction ops arbitrary: s)
  case (Cons a ops)
  then show ?case by (cases a) (simp_all add: algebra_simps)
qed simp

subsection \<open>Snapshots\<close>

lemma new_state_links:
  "st_links (new_state now cfg) i =
     (if i \<in> link_id ` set (cfg_links cfg) then Some zero_stats else None)"
  by (simp add: new_state_def map_of_const)

lemma map_filter_all_Some:
  "\<forall>x \<in> set xs. f x \<noteq> None \<Longrightarrow> List.map_filter f xs = map (\<lambda>x. the (f x)) xs"
  by (induction xs) (auto simp: map_filter_simps)

definition has_links :: "config \<Rightarrow> shared_state \<Rightarrow> bool" where
  "has_links cfg st \<longleftrightarrow> (\<forall>l \<in> set (cfg_links cfg). st_links st (link_id l) \<noteq> None)"

lemma has_links_new: "has_links cfg (new_state now cfg)"
  by (simp add: has_links_def new_state_links)

lemma has_links_relay_on: "has_links cfg st \<Longrightarrow> has_links cfg (relay_on i r st)"
  by (auto simp: has_links_def relay_on_def)

lemma snapshot_links:
  "has_links cfg st \<Longrightarrow> snap_links (snapshot now cfg st) =
     map (\<lambda>l. link_snapshot_of (link_id l) (to_lowercase (debug_mode (link_mode l)))
       (the (st_links st (link_id l)))) (cfg_links cfg)"
  by (simp add: has_links_def snapshot_def map_filter_all_Some) auto

lemma snapshot_ids:
  "has_links cfg st \<Longrightarrow> map snap_id (snap_links (snapshot now cfg st)) = map link_id (cfg_links cfg)"
  by (simp add: snapshot_links link_snapshot_of_def)

lemma snapshot_since:
  "connected_since_secs_ago (snapshot now cfg st) \<noteq> None \<Longrightarrow> snap_connected (snapshot now cfg st)"
  by (simp add: snapshot_def split: if_splits)

end
