(* ===== verification/Wire.thy ===== *)
theory Wire
  imports Config
begin

section \<open>Messages and their framing (\<open>protocol.rs\<close>, \<open>framing.rs\<close>)\<close>

text \<open>
  Control messages and stream hellos travel as a little-endian \<open>u32\<close> length and that many bytes
  of JSON inside the encrypted stream. The JSON reader and writer are a crate outside the
  repository: \<open>to_json\<close> and \<open>from_json\<close> are arguments. A stream is the bytes still to be read.
  \<open>recv_json\<close> is the whole operation on a stream that ends; \<open>poll_recv\<close> is the same operation the
  way the runtime drives it, resumed with the bytes that have arrived, holding what it has read
  so far in the future's own state.
\<close>

subsection \<open>Messages\<close>

datatype control_message = Ping | Pong | OpenStream string u64

record stream_hello =
  hello_link_id :: string
  hello_stream_id :: "u64 option"

datatype io_error = Unexpected_Eof | Invalid_Data | Timed_Out string | Other string

type_synonym 'm writer = "'m \<Rightarrow> string + string"
type_synonym 'm reader = "string \<Rightarrow> string + 'm"

subsection \<open>Framing\<close>

definition max_message_len :: nat where
  "max_message_len = 64 * 1024"

definition u32_le :: "u32 \<Rightarrow> string" where
  "u32_le n = [char_of (unat n mod 256), char_of (unat n div 256 mod 256),
               char_of (unat n div 65536 mod 256), char_of (unat n div 16777216 mod 256)]"

fun le_val :: "string \<Rightarrow> nat" where
  "le_val [] = 0"
| "le_val (c # s) = byte c + 256 * le_val s"

text \<open>\<open>send_json\<close>: what it writes. The length is cast to \<open>u32\<close> and not checked.\<close>

definition send_json :: "'m writer \<Rightarrow> 'm \<Rightarrow> io_error + string" where
  "send_json to_json msg =
     (case to_json msg of Inl e \<Rightarrow> Inl Invalid_Data
      | Inr bs \<Rightarrow> Inr (u32_le (of_nat (length bs)) @ bs))"

definition parse_body :: "'m reader \<Rightarrow> string \<Rightarrow> io_error + 'm" where
  "parse_body from_json buf =
     (case from_json buf of Inl e \<Rightarrow> Inl Invalid_Data | Inr m \<Rightarrow> Inr m)"

definition recv_json :: "'m reader \<Rightarrow> string \<Rightarrow> io_error + 'm \<times> string" where
  "recv_json from_json s =
     (if length s < 4 then Inl Unexpected_Eof
      else let len = le_val (take 4 s); rest = drop 4 s in
        if max_message_len < len then Inl Invalid_Data
        else if length rest < len then Inl Unexpected_Eof
        else case parse_body from_json (take len rest) of
          Inl e \<Rightarrow> Inl e
        | Inr m \<Rightarrow> Inr (m, drop len rest))"

subsection \<open>The receive future\<close>

datatype recv_phase = Read_Len string | Read_Body nat string

text \<open>
  One poll with the bytes that have arrived: the phase to resume from, the bytes not consumed,
  and the result once there is one.
\<close>

definition poll_body ::
  "'m reader \<Rightarrow> nat \<Rightarrow> string \<Rightarrow> string \<Rightarrow> recv_phase \<times> string \<times> (io_error + 'm) option" where
  "poll_body from_json len got avail =
     (let need = len - length got; got' = got @ take need avail; rest = drop need avail
      in (Read_Body len got', rest,
          if length got' < len then None else Some (parse_body from_json got')))"

fun poll_recv ::
  "'m reader \<Rightarrow> recv_phase \<Rightarrow> string \<Rightarrow> recv_phase \<times> string \<times> (io_error + 'm) option" where
  "poll_recv from_json (Read_Len got) avail =
     (let need = 4 - length got; got' = got @ take need avail; rest = drop need avail
      in if length got' < 4 then (Read_Len got', rest, None)
         else if max_message_len < le_val got'
         then (Read_Len got', rest, Some (Inl Invalid_Data))
         else poll_body from_json (le_val got') [] rest)"
| "poll_recv from_json (Read_Body len got) avail = poll_body from_json len got avail"

text \<open>A new receive future has read nothing.\<close>

definition fresh_recv :: recv_phase where
  "fresh_recv = Read_Len []"

text \<open>One receive future driven to its result by chunks of bytes as they arrive.\<close>

fun drive ::
  "'m reader \<Rightarrow> recv_phase \<Rightarrow> string list \<Rightarrow> (io_error + 'm) option \<times> string" where
  "drive from_json ph [] = (None, [])"
| "drive from_json ph (c # cs) =
     (case poll_recv from_json ph c of
        (ph', rest, None) \<Rightarrow> drive from_json ph' cs
      | (ph', rest, Some r) \<Rightarrow> (Some r, rest @ concat cs))"

lemmas [op_defs] = send_json_def recv_json_def parse_body_def poll_body_def fresh_recv_def

subsection \<open>Round trip\<close>

lemma length_u32_le [simp]: "length (u32_le n) = 4"
  by (simp add: u32_le_def)

lemma le_val_u32_le: "le_val (u32_le n) = unat n"
proof -
  have "unat n < 2 ^ 32" by (rule order_less_le_trans [OF unsigned_less]) simp
  then have "unat n div 16777216 mod 256 = unat n div 16777216" by simp
  then show ?thesis using base256_sum [of "unat n"] by (simp add: u32_le_def byte_char_of_mod)
qed

lemma recv_frame:
  assumes "length bs < 2 ^ 32"
  shows "recv_json from_json (u32_le (of_nat (length bs)) @ bs @ rest) =
     (if max_message_len < length bs then Inl Invalid_Data
      else case parse_body from_json bs of Inl e \<Rightarrow> Inl e | Inr m \<Rightarrow> Inr (m, rest))"
proof -
  have "unat (of_nat (length bs) :: u32) = length bs"
    using assms by (simp add: unat_of_nat_less)
  then show ?thesis by (simp add: recv_json_def le_val_u32_le Let_def split: sum.split)
qed

text \<open>The law of the JSON crate the code relies on, for one message.\<close>

definition json_reads_back :: "'m writer \<Rightarrow> 'm reader \<Rightarrow> 'm \<Rightarrow> bool" where
  "json_reads_back to_json from_json m \<longleftrightarrow>
     (\<exists>bs. to_json m = Inr bs \<and> from_json bs = Inr m \<and> length bs \<le> max_message_len)"

lemma send_recv:
  assumes "json_reads_back to_json from_json m"
  obtains fr where "send_json to_json m = Inr fr"
    and "\<And>rest. recv_json from_json (fr @ rest) = Inr (m, rest)"
proof -
  obtain bs where bs: "to_json m = Inr bs" "from_json bs = Inr m" "length bs \<le> max_message_len"
    using assms by (auto simp: json_reads_back_def)
  have "recv_json from_json ((u32_le (of_nat (length bs)) @ bs) @ rest) = Inr (m, rest)" for rest
    using bs recv_frame [of bs from_json rest]
    by (simp add: parse_body_def max_message_len_def)
  then show ?thesis using that bs by (simp add: send_json_def)
qed

text \<open>A sequence of messages on one stream.\<close>

fun send_all :: "'m writer \<Rightarrow> 'm list \<Rightarrow> io_error + string" where
  "send_all to_json [] = Inr []"
| "send_all to_json (m # ms) =
     (case send_json to_json m of Inl e \<Rightarrow> Inl e
      | Inr fr \<Rightarrow> (case send_all to_json ms of Inl e \<Rightarrow> Inl e | Inr s \<Rightarrow> Inr (fr @ s)))"

fun recv_n :: "'m reader \<Rightarrow> nat \<Rightarrow> string \<Rightarrow> io_error + 'm list \<times> string" where
  "recv_n from_json 0 s = Inr ([], s)"
| "recv_n from_json (Suc n) s =
     (case recv_json from_json s of Inl e \<Rightarrow> Inl e
      | Inr (m, r) \<Rightarrow>
         (case recv_n from_json n r of Inl e \<Rightarrow> Inl e | Inr (ms, r') \<Rightarrow> Inr (m # ms, r')))"

lemma send_all_recv_n:
  assumes "\<forall>m \<in> set ms. json_reads_back to_json from_json m"
  shows "\<exists>s. send_all to_json ms = Inr s \<and>
           (\<forall>rest. recv_n from_json (length ms) (s @ rest) = Inr (ms, rest))"
  using assms
proof (induction ms)
  case (Cons m ms)
  then obtain s where s: "send_all to_json ms = Inr s"
    "\<And>rest. recv_n from_json (length ms) (s @ rest) = Inr (ms, rest)" by auto
  obtain fr where "send_json to_json m = Inr fr"
    and "\<And>rest. recv_json from_json (fr @ rest) = Inr (m, rest)"
    using send_recv [of to_json from_json m] Cons.prems by auto
  then show ?case using s by simp
qed simp

subsection \<open>Chunking does not matter to one receive future\<close>

text \<open>The bytes a phase has consumed, and the phases that can occur.\<close>

fun consumed :: "recv_phase \<Rightarrow> string" where
  "consumed (Read_Len got) = got"
| "consumed (Read_Body len got) = u32_le (of_nat len) @ got"

fun phase_ok :: "recv_phase \<Rightarrow> bool" where
  "phase_ok (Read_Len got) = (length got < 4)"
| "phase_ok (Read_Body len got) = (len \<le> max_message_len \<and> length got < len)"

lemma u32_le_le_val:
  assumes "length s = 4"
  shows "u32_le (of_nat (le_val s)) = s"
proof -
  obtain a b c d where s: "s = [a, b, c, d]"
    using assms by (auto simp: numeral_eq_Suc length_Suc_conv)
  have lt: "byte a < 256" "byte b < 256" "byte c < 256" "byte d < 256" by (simp_all add: byte_less)
  define n where "n = byte a + 256 * (byte b + 256 * (byte c + 256 * byte d))"
  have "n < 2 ^ 32" using lt by (simp add: n_def)
  then have u: "unat (of_nat n :: u32) = n" by (simp add: unat_of_nat_less)
  have le: "le_val s = n" by (simp add: s n_def)
  have "n mod 256 = byte a" "n div 256 mod 256 = byte b" "n div 65536 mod 256 = byte c"
    "n div 16777216 mod 256 = byte d"
    using lt base256_digits [OF lt(1,2,3), of "byte d"] unfolding n_def by simp_all
  then show ?thesis unfolding le unfolding u32_le_def u s by (simp only: char_of_byte)
qed

definition whole_recv :: "'m reader \<Rightarrow> string \<Rightarrow> (io_error + 'm) option \<times> string" where
  "whole_recv from_json s =
     (if length s < 4 then (None, [])
      else let len = le_val (take 4 s); rest = drop 4 s in
        if max_message_len < len then (Some (Inl Invalid_Data), rest)
        else if length rest < len then (None, [])
        else (Some (parse_body from_json (take len rest)), drop len rest))"

lemma whole_recv_result:
  "whole_recv from_json s = (Some (Inr m), rest) \<longleftrightarrow> recv_json from_json s = Inr (m, rest)"
  by (auto simp: whole_recv_def recv_json_def Let_def split: if_splits sum.splits)

lemma poll_body_whole:
  assumes "len \<le> max_message_len" and "length got \<le> len"
  shows "(case poll_body from_json len got avail of
      (ph, rest, None) \<Rightarrow> phase_ok ph \<and> consumed ph = u32_le (of_nat len) @ got @ avail \<and>
         (\<forall>more. whole_recv from_json (u32_le (of_nat len) @ got @ avail) = (None, []))
    | (ph, rest, Some r) \<Rightarrow> (\<forall>more. whole_recv from_json (u32_le (of_nat len) @ got @ avail @ more) =
         (Some r, rest @ more)))"
proof -
  have "len < 2 ^ 32" using assms(1) by (simp add: max_message_len_def)
  then have u: "unat (of_nat len :: u32) = len" by (simp add: unat_of_nat_less)
  show ?thesis
  proof (cases "length got + length avail < len")
    case True
    then show ?thesis using assms
      by (simp add: poll_body_def whole_recv_def Let_def le_val_u32_le u)
  next
    case False
    then have "take len (got @ avail @ more) = got @ take (len - length got) avail"
      and "drop len (got @ avail @ more) = drop (len - length got) avail @ more" for more
      using assms(2) by simp_all
    then show ?thesis using assms False
      by (simp add: poll_body_def whole_recv_def Let_def le_val_u32_le u)
  qed
qed

lemma poll_recv_whole:
  assumes "phase_ok ph"
  shows "(case poll_recv from_json ph avail of
      (ph', rest, None) \<Rightarrow> phase_ok ph' \<and> consumed ph' = consumed ph @ avail \<and>
         whole_recv from_json (consumed ph @ avail) = (None, [])
    | (ph', rest, Some r) \<Rightarrow>
         (\<forall>more. whole_recv from_json (consumed ph @ avail @ more) = (Some r, rest @ more)))"
proof (cases ph)
  case (Read_Body len got)
  then show ?thesis using assms poll_body_whole [where len = len and got = got and from_json = from_json and avail = avail]
    by (auto split: prod.splits option.splits)
next
  case (Read_Len got)
  let ?g = "got @ take (4 - length got) avail"
  show ?thesis
  proof (cases "length got + length avail < 4")
    case True
    then show ?thesis using Read_Len assms by (simp add: whole_recv_def)
  next
    case False
    then have len4: "length ?g = 4" using Read_Len assms by simp
    have app: "got @ avail @ more = ?g @ drop (4 - length got) avail @ more" for more by simp
    show ?thesis
    proof (cases "max_message_len < le_val ?g")
      case True
      then show ?thesis using Read_Len False len4
        by (simp add: whole_recv_def Let_def app del: append_assoc)
    next
      case ok: False
      have "u32_le (of_nat (le_val ?g)) = ?g" by (rule u32_le_le_val [OF len4])
      then show ?thesis
        using poll_body_whole [where len = "le_val ?g" and got = "[]" and from_json = from_json
            and avail = "drop (4 - length got) avail"]
          Read_Len False ok len4 by (simp add: app split: prod.splits option.splits)
    qed
  qed
qed

lemma drive_whole:
  "phase_ok ph \<Longrightarrow> cs \<noteq> [] \<Longrightarrow>
     drive from_json ph cs = whole_recv from_json (consumed ph @ concat cs)"
proof (induction cs arbitrary: ph)
  case (Cons c cs)
  obtain ph' rest res where p: "poll_recv from_json ph c = (ph', rest, res)"
    by (cases "poll_recv from_json ph c")
  show ?case
  proof (cases res)
    case None
    then have ok: "phase_ok ph'" "consumed ph' = consumed ph @ c"
      "whole_recv from_json (consumed ph @ c) = (None, [])"
      using poll_recv_whole [OF Cons.prems(1), where from_json = from_json and avail = c] p by auto
    then show ?thesis using None p Cons.IH [OF ok(1)] by (cases "cs = []") auto
  next
    case (Some r)
    then show ?thesis using poll_recv_whole [OF Cons.prems(1), where from_json = from_json and avail = c] p by auto
  qed
qed simp

lemma chunking_irrelevant:
  assumes "recv_json from_json (concat cs) = Inr (m, rest)"
  shows "drive from_json fresh_recv cs = (Some (Inr m), rest)"
proof -
  have "cs \<noteq> []" using assms by (auto simp: recv_json_def)
  then show ?thesis
    using assms drive_whole [of fresh_recv cs from_json] whole_recv_result [of from_json "concat cs"]
    by (simp add: fresh_recv_def)
qed

subsection \<open>Dropping the future loses the bytes it has read\<close>

text \<open>
  A \<open>select!\<close> that takes another branch drops the receive future. A frame whose length prefix has
  been read by then is lost: the next future reads the body's first bytes as a length.
\<close>

lemma dropped_future_misreads:
  assumes "4 \<le> length body" and "max_message_len < le_val (take 4 body)"
  shows "\<exists>rest. drive from_json fresh_recv [body] = (Some (Inl Invalid_Data), rest)"
  using assms by (simp add: fresh_recv_def)

end
