(* ===== verification/Session.thy ===== *)
theory Session
  imports Wire
begin

section \<open>The control session's event loop and the runtime's channels\<close>

text \<open>
  Both roles run the same loop on the control connection: a \<open>tokio::select!\<close> between the receive
  future \<open>recv_json\<close> and one other branch (the client's ping timer, the server's queue of
  \<open>OpenStream\<close> messages). \<open>select!\<close> drops the branches that did not complete, so after the other
  branch has run the next receive starts afresh on the bytes still unread. A session is a list of
  events: the bytes that arrive, and the other branch completing with a message to send. What a
  received message causes is the role's reaction. \<open>timed\<close> is the result of \<open>tokio::time::timeout\<close>,
  \<open>chan\<close> a bounded \<open>mpsc\<close> channel.
\<close>

datatype 'a timed = In_Time 'a | Elapsed

subsection \<open>Bounded channels\<close>

record 'm chan =
  capacity :: nat
  queued :: "'m list"
  receiver_gone :: bool

definition channel :: "nat \<Rightarrow> 'm chan" where
  "channel n = \<lparr>capacity = n, queued = [], receiver_gone = False\<rparr>"

datatype send_result = Sent | Full | Closed

definition try_send :: "'m \<Rightarrow> 'm chan \<Rightarrow> send_result \<times> 'm chan" where
  "try_send m c =
     (if receiver_gone c then (Closed, c)
      else if length (queued c) < capacity c then (Sent, c\<lparr>queued := queued c @ [m]\<rparr>)
      else (Full, c))"

fun recv_chan :: "'m chan \<Rightarrow> 'm option \<times> 'm chan" where
  "recv_chan c = (case queued c of [] \<Rightarrow> (None, c) | m # ms \<Rightarrow> (Some m, c\<lparr>queued := ms\<rparr>))"

lemma try_send_bounded:
  "length (queued c) \<le> capacity c \<Longrightarrow> length (queued (snd (try_send m c))) \<le> capacity (snd (try_send m c))"
  by (simp add: try_send_def)

subsection \<open>The session\<close>

datatype reaction =
    Reply control_message
  | Ignore
  | Refuse string
  | Spawn string u64
  | Hang_Up

record session =
  recv_ph :: recv_phase
  outgoing :: "control_message list"
  spawned :: "(string \<times> u64) list"
  refused :: "string list" \<comment> \<open>the links of announcements that were ignored with a warning\<close>
  alive :: bool

definition new_session :: session where
  "new_session = \<lparr>recv_ph = fresh_recv, outgoing = [], spawned = [], refused = [], alive = True\<rparr>"

datatype session_event =
    Arrive string
  | Other_Branch control_message

text \<open>\<open>send_ok\<close> says whether writes to the connection still succeed.\<close>

definition send_on :: "bool \<Rightarrow> control_message \<Rightarrow> session \<Rightarrow> session" where
  "send_on send_ok m s =
     (if send_ok then s\<lparr>outgoing := outgoing s @ [m]\<rparr> else s\<lparr>alive := False\<rparr>)"

fun react :: "bool \<Rightarrow> reaction \<Rightarrow> session \<Rightarrow> session" where
  "react send_ok (Reply m) s = send_on send_ok m s"
| "react send_ok Ignore s = s"
| "react send_ok (Refuse i) s = s\<lparr>refused := refused s @ [i]\<rparr>"
| "react send_ok (Spawn l i) s = s\<lparr>spawned := spawned s @ [(l, i)]\<rparr>"
| "react send_ok Hang_Up s = s\<lparr>alive := False\<rparr>"

type_synonym handler = "io_error + control_message \<Rightarrow> reaction"

text \<open>
  \<open>drain\<close>: the loop of fresh receives over the bytes that are there; the last one stays pending.
\<close>

lemma poll_fresh_shorter:
  "poll_recv from_json fresh_recv avail = (ph, rest, Some r) \<Longrightarrow> length rest < length avail"
  by (auto simp: fresh_recv_def poll_body_def Let_def split: if_splits)

function drain ::
  "control_message reader \<Rightarrow> bool \<Rightarrow> handler \<Rightarrow> string \<Rightarrow> session \<Rightarrow> session" where
  "drain from_json send_ok on_incoming avail s =
     (if \<not> alive s then s
      else case poll_recv from_json fresh_recv avail of
        (ph, rest, None) \<Rightarrow> s\<lparr>recv_ph := ph\<rparr>
      | (ph, rest, Some r) \<Rightarrow>
          drain from_json send_ok on_incoming rest
            (react send_ok (on_incoming r) (s\<lparr>recv_ph := fresh_recv\<rparr>)))"
  by pat_completeness auto
termination
  by (relation "measure (\<lambda>(_, _, _, avail, _). length avail)")
    (auto dest: poll_fresh_shorter [OF sym])

declare drain.simps [simp del]

fun session_step ::
  "control_message reader \<Rightarrow> bool \<Rightarrow> handler \<Rightarrow> session_event \<Rightarrow> session \<Rightarrow> session" where
  "session_step from_json send_ok on_incoming (Arrive bs) s =
     (if \<not> alive s then s
      else case poll_recv from_json (recv_ph s) bs of
        (ph, rest, None) \<Rightarrow> s\<lparr>recv_ph := ph\<rparr>
      | (ph, rest, Some r) \<Rightarrow>
          drain from_json send_ok on_incoming rest
            (react send_ok (on_incoming r) (s\<lparr>recv_ph := fresh_recv\<rparr>)))"
| "session_step from_json send_ok on_incoming (Other_Branch m) s =
     (if \<not> alive s then s else send_on send_ok m (s\<lparr>recv_ph := fresh_recv\<rparr>))"

definition session_run ::
  "control_message reader \<Rightarrow> bool \<Rightarrow> handler \<Rightarrow> session_event list \<Rightarrow> session" where
  "session_run from_json send_ok on_incoming es =
     fold (session_step from_json send_ok on_incoming) es new_session"

lemmas [op_defs] = channel_def try_send_def new_session_def send_on_def session_run_def

subsection \<open>A closed session stays closed\<close>

lemma react_fields [simp]:
  "recv_ph (react ok r s) = recv_ph s"
  "recv_ph (send_on ok m s) = recv_ph s"
  by (cases r; simp add: send_on_def)+

lemma dead_step: "\<not> alive s \<Longrightarrow> session_step from_json ok h e s = s"
  by (cases e) simp_all

lemma dead_fold: "\<not> alive s \<Longrightarrow> fold (session_step from_json ok h) es s = s"
  by (induction es) (simp_all add: dead_step)

subsection \<open>Between frames nothing is lost\<close>

text \<open>What a list of messages, handled one after another, does to a session.\<close>

definition handle_all :: "bool \<Rightarrow> handler \<Rightarrow> control_message list \<Rightarrow> session \<Rightarrow> session" where
  "handle_all ok h ms = fold (\<lambda>m. react ok (h (Inr m))) ms"

definition never_hangs_up :: "handler \<Rightarrow> bool" where
  "never_hangs_up h \<longleftrightarrow> (\<forall>m. h (Inr m) \<noteq> Hang_Up)"

lemma react_alive: "alive s \<Longrightarrow> r \<noteq> Hang_Up \<Longrightarrow> alive (react True r s)"
  by (cases r) (simp_all add: send_on_def)

lemma handle_all_alive: "alive s \<Longrightarrow> never_hangs_up h \<Longrightarrow> alive (handle_all True h ms s)"
  by (induction ms arbitrary: s) (simp_all add: handle_all_def never_hangs_up_def react_alive)

lemma react_recv_ph: "(react ok r s)\<lparr>recv_ph := ph\<rparr> = react ok r (s\<lparr>recv_ph := ph\<rparr>)"
  by (cases r) (simp_all add: send_on_def)

lemma poll_fresh_frame:
  assumes "send_json to_json m = Inr fr" and "json_reads_back to_json from_json m"
  shows "\<exists>ph. poll_recv from_json fresh_recv (fr @ rest) = (ph, rest, Some (Inr m))"
proof -
  obtain fr' where fr': "send_json to_json m = Inr fr'"
    and "\<And>rest. recv_json from_json (fr' @ rest) = Inr (m, rest)"
    using send_recv [OF assms(2)] by blast
  then have "recv_json from_json (concat [fr @ rest]) = Inr (m, rest)" using assms(1) by simp
  from chunking_irrelevant [OF this]
  have d: "drive from_json fresh_recv [fr @ rest] = (Some (Inr m), rest)" .
  obtain ph r' res where p: "poll_recv from_json fresh_recv (fr @ rest) = (ph, r', res)"
    by (cases "poll_recv from_json fresh_recv (fr @ rest)")
  show ?thesis using d p by (cases res) (simp_all)
qed

lemma poll_fresh_Nil: "poll_recv from_json fresh_recv [] = (fresh_recv, [], None)"
  by (simp add: fresh_recv_def)

lemma drain_frames:
  assumes "send_all to_json ms = Inr bs" and "\<forall>m \<in> set ms. json_reads_back to_json from_json m"
    and "never_hangs_up h" and "alive s" and "recv_ph s = fresh_recv"
  shows "drain from_json True h bs s = handle_all True h ms s"
  using assms
proof (induction ms arbitrary: bs s)
  case Nil
  then show ?case by (subst drain.simps) (simp add: poll_fresh_Nil handle_all_def)
next
  case (Cons m ms)
  obtain fr bs' where fr: "send_json to_json m = Inr fr" "send_all to_json ms = Inr bs'"
    "bs = fr @ bs'" using Cons.prems(1) by (auto split: sum.splits)
  obtain ph where ph: "poll_recv from_json fresh_recv (fr @ bs') = (ph, bs', Some (Inr m))"
    using poll_fresh_frame [OF fr(1), where from_json = from_json and rest = bs'] Cons.prems(2)
    by auto
  have s: "s\<lparr>recv_ph := fresh_recv\<rparr> = s" using Cons.prems(5) by simp
  have "alive (react True (h (Inr m)) s)"
    using Cons.prems(3,4) by (simp add: never_hangs_up_def react_alive)
  then have "drain from_json True h bs' (react True (h (Inr m)) s) =
      handle_all True h ms (react True (h (Inr m)) s)"
    using Cons.prems fr(2) by (intro Cons.IH) simp_all
  then show ?case
    by (subst drain.simps) (use Cons.prems(4) fr(3) ph s in \<open>simp add: handle_all_def\<close>)
qed

text \<open>
  Whole frames in one chunk, with the other branch running only between them: every message is
  handled, in order.
\<close>

lemma whole_frames_step:
  assumes "send_all to_json ms = Inr bs" and "\<forall>m \<in> set ms. json_reads_back to_json from_json m"
    and "never_hangs_up h" and "alive s" and "recv_ph s = fresh_recv"
  shows "session_step from_json True h (Arrive bs) s = handle_all True h ms s"
proof -
  have s: "s\<lparr>recv_ph := fresh_recv\<rparr> = s" using assms(5) by simp
  have "session_step from_json True h (Arrive bs) s = drain from_json True h bs s"
    by (subst drain.simps) (use assms(4,5) s in simp)
  then show ?thesis using drain_frames [OF assms] by simp
qed

lemma handle_all_phase [simp]: "recv_ph (handle_all ok h ms s) = recv_ph s"
  by (induction ms arbitrary: s) (simp_all add: handle_all_def)

datatype traffic = Frames "control_message list" | Interrupt control_message

fun traffic_event :: "control_message writer \<Rightarrow> traffic \<Rightarrow> session_event option" where
  "traffic_event to_json (Frames ms) =
     (case send_all to_json ms of Inr bs \<Rightarrow> Some (Arrive bs) | Inl _ \<Rightarrow> None)"
| "traffic_event to_json (Interrupt m) = Some (Other_Branch m)"

fun traffic_effect :: "handler \<Rightarrow> traffic \<Rightarrow> session \<Rightarrow> session" where
  "traffic_effect h (Frames ms) s = handle_all True h ms s"
| "traffic_effect h (Interrupt m) s = send_on True m s"

fun received :: "traffic \<Rightarrow> control_message list" where
  "received (Frames ms) = ms"
| "received (Interrupt m) = []"

lemma frame_aligned_run:
  assumes "\<forall>t \<in> set ts. \<forall>m \<in> set (received t). json_reads_back to_json from_json m"
    and "never_hangs_up h" and "alive s" and "recv_ph s = fresh_recv"
  shows "fold (session_step from_json True h) (map (\<lambda>t. the (traffic_event to_json t)) ts) s =
     fold (traffic_effect h) ts s"
  using assms(1,3,4)
proof (induction ts arbitrary: s)
  case (Cons t ts)
  have "session_step from_json True h (the (traffic_event to_json t)) s = traffic_effect h t s \<and>
      alive (traffic_effect h t s) \<and> recv_ph (traffic_effect h t s) = fresh_recv"
  proof (cases t)
    case (Frames ms)
    have good: "\<forall>m \<in> set ms. json_reads_back to_json from_json m" using Cons.prems(1) Frames by simp
    obtain bs where "send_all to_json ms = Inr bs"
      using send_all_recv_n [OF good] by auto
    then show ?thesis
      using Frames Cons.prems(2,3) good assms(2) whole_frames_step [of to_json ms bs from_json h s]
      by (simp add: handle_all_alive del: session_step.simps)
  next
    case (Interrupt m)
    have "s\<lparr>recv_ph := fresh_recv\<rparr> = s" using Cons.prems(3) by simp
    then show ?thesis using Interrupt Cons.prems by (simp add: send_on_def)
  qed
  then show ?case using Cons.IH Cons.prems(1) by simp
qed simp

subsection \<open>Inside a frame the session is lost\<close>

text \<open>
  The length of a frame has arrived, the other branch runs, and then the body arrives. The body's
  first four bytes are read as a length; when they exceed 64 KiB the receive fails.
\<close>

lemma interrupted_frame:
  assumes "send_json to_json m = Inr fr" and "length (drop 4 fr) \<le> max_message_len"
    and "4 \<le> length (drop 4 fr)" and "max_message_len < le_val (take 4 (drop 4 fr))"
    and "\<And>e. h (Inl e) = Hang_Up"
  shows "\<not> alive (session_run from_json ok h
           [Arrive (take 4 fr), Other_Branch other, Arrive (drop 4 fr)])"
proof -
  obtain bs where bs: "fr = u32_le (of_nat (length bs)) @ bs"
    using assms(1) by (auto simp: send_json_def split: sum.splits)
  then have d: "drop 4 fr = bs" "take 4 fr = u32_le (of_nat (length bs))" by simp_all
  have len: "le_val (u32_le (of_nat (length bs))) = length bs"
    using assms(2) d by (simp add: le_val_u32_le unat_of_nat_less max_message_len_def)
  let ?s1 = "session_step from_json ok h (Arrive (take 4 fr)) new_session"
  let ?s2 = "session_step from_json ok h (Other_Branch other) ?s1"
  have "0 < length bs" using assms(3) unfolding d by linarith
  then have "poll_recv from_json fresh_recv (u32_le (of_nat (length bs))) =
      (Read_Body (length bs) [], [], None)"
    using assms(2) d by (simp add: fresh_recv_def len poll_body_def)
  then have "alive ?s1" by (simp add: new_session_def d del: poll_recv.simps)
  then have "recv_ph ?s2 = fresh_recv" by simp
  then have "\<not> alive (session_step from_json ok h (Arrive (drop 4 fr)) ?s2)"
  proof (cases "alive ?s2")
    case True
    have "poll_recv from_json fresh_recv bs = (Read_Len (take 4 bs), drop 4 bs, Some (Inl Invalid_Data))"
      using assms(3,4) d by (simp add: fresh_recv_def)
    then show ?thesis
      using True \<open>recv_ph ?s2 = fresh_recv\<close> assms(5) d
      by (simp add: drain.simps [of _ _ _ "drop 4 bs"] del: poll_recv.simps session_step.simps(2)
          session_step.simps(1)) (simp add: drain.simps [of _ _ _ "drop 4 bs"])
  next
    case False
    then show ?thesis by (simp add: dead_step del: session_step.simps)
  qed
  then show ?thesis by (simp add: session_run_def del: session_step.simps)
qed

subsection \<open>What a session can spawn, whatever the bytes\<close>

definition spawns_only :: "(string \<Rightarrow> bool) \<Rightarrow> handler \<Rightarrow> bool" where
  "spawns_only P h \<longleftrightarrow> (\<forall>r l i. h r = Spawn l i \<longrightarrow> P l)"

lemma react_spawned:
  "spawns_only P h \<Longrightarrow> \<forall>(l, i) \<in> set (spawned s). P l \<Longrightarrow>
     \<forall>(l, i) \<in> set (spawned (react ok (h r) s)). P l"
  by (cases "h r") (auto simp: spawns_only_def send_on_def)

lemma drain_spawned:
  "spawns_only P h \<Longrightarrow> \<forall>(l, i) \<in> set (spawned s). P l \<Longrightarrow>
     \<forall>(l, i) \<in> set (spawned (drain from_json ok h avail s)). P l"
proof (induction avail arbitrary: s rule: length_induct)
  case (1 avail)
  obtain ph rest res where p: "poll_recv from_json fresh_recv avail = (ph, rest, res)"
    by (cases "poll_recv from_json fresh_recv avail")
  show ?case
  proof (cases "alive s \<and> res \<noteq> None")
    case True
    then obtain r where r: "res = Some r" by auto
    let ?s = "react ok (h r) (s\<lparr>recv_ph := fresh_recv\<rparr>)"
    have "\<forall>(l, i) \<in> set (spawned ?s). P l" using 1 by (intro react_spawned) simp_all
    moreover have "length rest < length avail" using p r by (simp add: poll_fresh_shorter)
    ultimately have "\<forall>(l, i) \<in> set (spawned (drain from_json ok h rest ?s)). P l"
      using 1 by blast
    then show ?thesis using True p r by (simp add: drain.simps [of _ _ _ avail])
  next
    case False
    then show ?thesis using 1 p by (auto simp: drain.simps [of _ _ _ avail])
  qed
qed

lemma step_spawned:
  assumes "spawns_only P h" and "\<forall>(l, i) \<in> set (spawned s). P l"
  shows "\<forall>(l, i) \<in> set (spawned (session_step from_json ok h e s)). P l"
proof (cases e)
  case (Arrive bs)
  obtain ph rest res where p: "poll_recv from_json (recv_ph s) bs = (ph, rest, res)"
    by (cases "poll_recv from_json (recv_ph s) bs")
  show ?thesis
  proof (cases res)
    case (Some r)
    have "\<forall>(l, i) \<in> set (spawned (react ok (h r) (s\<lparr>recv_ph := fresh_recv\<rparr>))). P l"
      using assms by (intro react_spawned) simp_all
    then show ?thesis using Arrive p Some assms drain_spawned [OF assms(1)] by simp
  qed (use Arrive p assms in simp)
next
  case (Other_Branch m)
  then show ?thesis using assms by (simp add: send_on_def)
qed

lemma run_spawned:
  assumes "spawns_only P h"
  shows "\<forall>(l, i) \<in> set (spawned (session_run from_json ok h es)). P l"
proof -
  have "\<forall>(l, i) \<in> set (spawned (fold (session_step from_json ok h) es s)). P l"
    if "\<forall>(l, i) \<in> set (spawned s). P l" for s
    using that
  proof (induction es arbitrary: s)
    case (Cons e es)
    from Cons.IH [OF step_spawned [OF assms Cons.prems]] show ?case by simp
  qed simp
  from this [of new_session] show ?thesis by (simp add: session_run_def new_session_def)
qed

text \<open>What has been spawned stays.\<close>

lemma react_appends: "\<exists>new. spawned (react ok r s) = spawned s @ new"
  by (cases r) (simp_all add: send_on_def)

lemma drain_appends: "\<exists>new. spawned (drain from_json ok h avail s) = spawned s @ new"
proof (induction avail arbitrary: s rule: length_induct)
  case (1 avail)
  obtain ph rest res where p: "poll_recv from_json fresh_recv avail = (ph, rest, res)"
    by (cases "poll_recv from_json fresh_recv avail")
  show ?case
  proof (cases "alive s \<and> res \<noteq> None")
    case True
    then obtain r where r: "res = Some r" by auto
    let ?s = "react ok (h r) (s\<lparr>recv_ph := fresh_recv\<rparr>)"
    have "length rest < length avail" using p r by (simp add: poll_fresh_shorter)
    then obtain new where "spawned (drain from_json ok h rest ?s) = spawned ?s @ new" using 1 by blast
    moreover obtain new' where "spawned ?s = spawned s @ new'"
      using react_appends [of ok "h r" "s\<lparr>recv_ph := fresh_recv\<rparr>"] by auto
    ultimately show ?thesis using True p r by (simp add: drain.simps [of _ _ _ avail])
  qed (use p in \<open>auto simp: drain.simps [of _ _ _ avail]\<close>)
qed

lemma step_appends: "\<exists>new. spawned (session_step from_json ok h e s) = spawned s @ new"
proof (cases e)
  case (Arrive bs)
  obtain ph rest res where p: "poll_recv from_json (recv_ph s) bs = (ph, rest, res)"
    by (cases "poll_recv from_json (recv_ph s) bs")
  show ?thesis
  proof (cases res)
    case (Some r)
    let ?s = "react ok (h r) (s\<lparr>recv_ph := fresh_recv\<rparr>)"
    obtain new where "spawned (drain from_json ok h rest ?s) = spawned ?s @ new"
      using drain_appends by blast
    moreover obtain new' where "spawned ?s = spawned s @ new'"
      using react_appends [of ok "h r" "s\<lparr>recv_ph := fresh_recv\<rparr>"] by auto
    ultimately show ?thesis using Arrive p Some by simp
  qed (use Arrive p in simp)
qed (simp add: send_on_def)

end
