(* ===== verification/Reverse_Streams.thy ===== *)
theory Reverse_Streams
  imports Session
begin

section \<open>Reverse streams: accepted, signalled, claimed or expired (\<open>server.rs\<close>)\<close>

text \<open>
  Each reverse link has a listener task, \<open>spawn_reverse_listener\<close>. A connection it accepts gets a
  stream id from one shared atomic counter, goes into the shared map \<open>pending\<close> under its mutex, and
  is announced by an \<open>OpenStream\<close> message on a channel of 32; then a timer of ten seconds is armed
  that removes it if nobody claimed it. A data connection claims a stream by its id. Every await
  point and every access to shared memory is a separate step, so the tasks of all links, the
  timers, the claims and the control session interleave freely. \<open>accepted\<close>, \<open>signalled\<close> and
  \<open>claimed\<close> are histories that no step reads.
\<close>

subsection \<open>State and operations\<close>

datatype 'c listener = Accepting | Accepted u64 'c | Sending u64

record 'c streams =
  clock :: instant
  next_stream_id :: u64
  pending :: "u64 \<rightharpoonup> 'c"
  listeners :: "string \<Rightarrow> 'c listener"
  open_stream :: "control_message chan"
  timers :: "(u64 \<times> instant) list"
  accepted :: "(u64 \<times> string \<times> 'c) list"
  signalled :: "control_message list"
  claimed :: "(u64 \<times> 'c) list"

definition claim_timeout :: duration where
  "claim_timeout = secs 10"

definition start_streams :: "instant \<Rightarrow> 'c streams" where
  "start_streams now =
     \<lparr>clock = now, next_stream_id = 1, pending = Map.empty, listeners = (\<lambda>_. Accepting),
      open_stream = channel 32, timers = [], accepted = [], signalled = [], claimed = []\<rparr>"

text \<open>\<open>accept\<close> and \<open>fetch_add\<close>, which wraps at 2 ^ 64.\<close>

definition accept_conn :: "string \<Rightarrow> 'c \<Rightarrow> 'c streams \<Rightarrow> 'c streams" where
  "accept_conn l c s =
     s\<lparr>next_stream_id := next_stream_id s + 1,
       listeners := (listeners s)(l := Accepted (next_stream_id s) c),
       accepted := accepted s @ [(next_stream_id s, l, c)]\<rparr>"

definition insert_pending :: "string \<Rightarrow> u64 \<Rightarrow> 'c \<Rightarrow> 'c streams \<Rightarrow> 'c streams" where
  "insert_pending l i c s =
     s\<lparr>pending := (pending s)(i \<mapsto> c), listeners := (listeners s)(l := Sending i)\<rparr>"

text \<open>\<open>send\<close>: it waits while the channel is full; on a closed channel the stream is dropped.\<close>

definition send_open :: "string \<Rightarrow> u64 \<Rightarrow> 'c streams \<Rightarrow> 'c streams" where
  "send_open l i s =
     (case try_send (OpenStream l i) (open_stream s) of
        (Sent, ch) \<Rightarrow> s\<lparr>open_stream := ch, timers := timers s @ [(i, clock s + int claim_timeout)],
                        listeners := (listeners s)(l := Accepting)\<rparr>
      | (Closed, ch) \<Rightarrow> s\<lparr>pending := (pending s)(i := None),
                          listeners := (listeners s)(l := Accepting)\<rparr>
      | (Full, ch) \<Rightarrow> s)"

text \<open>The control session takes the next message to write.\<close>

definition take_signal :: "'c streams \<Rightarrow> 'c streams" where
  "take_signal s =
     (case recv_chan (open_stream s) of
        (Some m, ch) \<Rightarrow> s\<lparr>open_stream := ch, signalled := signalled s @ [m]\<rparr>
      | (None, ch) \<Rightarrow> s)"

text \<open>\<open>pending.lock().await.remove(&stream_id)\<close> of a data connection.\<close>

definition claim_stream :: "u64 \<Rightarrow> 'c streams \<Rightarrow> 'c option \<times> 'c streams" where
  "claim_stream i s =
     (case pending s i of None \<Rightarrow> (None, s)
      | Some c \<Rightarrow> (Some c, s\<lparr>pending := (pending s)(i := None), claimed := claimed s @ [(i, c)]\<rparr>))"

definition expire :: "u64 \<times> instant \<Rightarrow> 'c streams \<Rightarrow> 'c streams" where
  "expire t s = s\<lparr>timers := remove1 t (timers s), pending := (pending s)(fst t := None)\<rparr>"

lemmas streams_defs = start_streams_def accept_conn_def insert_pending_def send_open_def
  take_signal_def claim_stream_def expire_def

subsection \<open>The step relation\<close>

inductive streams_step :: "'c streams \<Rightarrow> 'c streams \<Rightarrow> bool" where
  Accept: "listeners s l = Accepting \<Longrightarrow> streams_step s (accept_conn l c s)"
| Insert: "listeners s l = Accepted i c \<Longrightarrow> streams_step s (insert_pending l i c s)"
| Send: "listeners s l = Sending i \<Longrightarrow> streams_step s (send_open l i s)"
| Signal: "streams_step s (take_signal s)"
| Claim: "streams_step s (snd (claim_stream i s))"
| Expire: "(i, d) \<in> set (timers s) \<Longrightarrow> d \<le> clock s \<Longrightarrow> streams_step s (expire (i, d) s)"
| Tick: "clock s \<le> now \<Longrightarrow> streams_step s (s\<lparr>clock := now\<rparr>)"
| Receiver_Gone:
    "streams_step s (s\<lparr>open_stream := (open_stream s)\<lparr>receiver_gone := True\<rparr>\<rparr>)"

inductive_cases streams_stepE: "streams_step s s'"

inductive reachable :: "'c streams \<Rightarrow> bool" where
  Start: "reachable (start_streams now)"
| Step: "reachable s \<Longrightarrow> streams_step s s' \<Longrightarrow> reachable s'"

text \<open>Which fields an operation leaves alone.\<close>

lemma frame_ids [simp]:
  "accepted (insert_pending l i c s) = accepted s"
  "next_stream_id (insert_pending l i c s) = next_stream_id s"
  "accepted (send_open l i s) = accepted s"
  "next_stream_id (send_open l i s) = next_stream_id s"
  "accepted (take_signal s) = accepted s"
  "next_stream_id (take_signal s) = next_stream_id s"
  "accepted (snd (claim_stream i s)) = accepted s"
  "next_stream_id (snd (claim_stream i s)) = next_stream_id s"
  "accepted (expire t s) = accepted s"
  "next_stream_id (expire t s) = next_stream_id s"
  by (simp_all add: streams_defs split: prod.split send_result.split option.split)

lemma frame_signal [simp]:
  "pending (take_signal s) = pending s"
  "listeners (take_signal s) = listeners s"
  "timers (take_signal s) = timers s"
  "claimed (take_signal s) = claimed s"
  by (simp_all add: streams_defs split: prod.split option.split)

text \<open>The three ways an announcement ends.\<close>

lemma send_open_cases:
  obtains
    (sent) ch where "send_open l i s = s\<lparr>open_stream := ch,
      timers := timers s @ [(i, clock s + int claim_timeout)],
      listeners := (listeners s)(l := Accepting)\<rparr>"
  | (gone) "send_open l i s = s\<lparr>pending := (pending s)(i := None),
      listeners := (listeners s)(l := Accepting)\<rparr>"
  | (waits) "send_open l i s = s"
  by (cases "try_send (OpenStream l i) (open_stream s)"; cases "fst (try_send (OpenStream l i) (open_stream s))")
    (auto simp: send_open_def)

text \<open>No step takes an accepted connection out of the history.\<close>

lemma step_accepted:
  "streams_step s s' \<Longrightarrow> length (accepted s) \<le> length (accepted s')"
  by (erule streams_stepE) (simp_all add: accept_conn_def)

subsection \<open>Stream ids are fresh\<close>

definition ids_ok :: "'c streams \<Rightarrow> bool" where
  "ids_ok s \<longleftrightarrow>
     map fst (accepted s) = map (\<lambda>k. of_nat (Suc k)) [0..<length (accepted s)] \<and>
     next_stream_id s = of_nat (Suc (length (accepted s)))"

lemma step_ids: "streams_step s s' \<Longrightarrow> ids_ok s \<Longrightarrow> ids_ok s'"
  by (erule streams_stepE) (simp_all add: ids_ok_def accept_conn_def)

definition id_space :: nat where
  "id_space = 2 ^ 64"

lemma unat_id: "k < id_space \<Longrightarrow> unat (of_nat k :: u64) = k"
  by (rule unat_of_nat_less) (simp add: id_space_def)

lemma ids_inj:
  assumes "n < id_space"
  shows "inj_on (\<lambda>k. of_nat (Suc k) :: u64) {..<n}"
proof (rule inj_onI)
  fix j k assume "j \<in> {..<n}" "k \<in> {..<n}" and eq: "(of_nat (Suc j) :: u64) = of_nat (Suc k)"
  then have "Suc j \<le> n" "Suc k \<le> n" by auto
  then have "unat (of_nat (Suc j) :: u64) = Suc j" "unat (of_nat (Suc k) :: u64) = Suc k"
    using assms by (meson le_less_trans unat_id)+
  then show "j = k" unfolding eq by (metis nat.inject)
qed

lemma accepted_distinct:
  "ids_ok s \<Longrightarrow> length (accepted s) < id_space \<Longrightarrow> distinct (map fst (accepted s))"
  using ids_inj [of "length (accepted s)"] by (simp add: ids_ok_def distinct_map atLeast0LessThan)

lemma next_fresh:
  assumes "ids_ok s" and "Suc (length (accepted s)) < id_space"
  shows "next_stream_id s \<notin> fst ` set (accepted s)"
proof -
  let ?n = "length (accepted s)"
  have "set (map fst (accepted s)) = (\<lambda>k. of_nat (Suc k)) ` {..<?n}"
    using assms(1) by (simp add: ids_ok_def atLeast0LessThan)
  moreover have "(of_nat (Suc ?n) :: u64) \<notin> (\<lambda>k. of_nat (Suc k)) ` {..<?n}"
    using inj_on_image_mem_iff [OF ids_inj [OF assms(2)], of ?n "{..<?n}"] by simp
  ultimately show ?thesis using assms(1) by (simp add: ids_ok_def)
qed

subsection \<open>Who holds a stream\<close>

text \<open>
  The owner of a stream id is the link and the connection it was given to; an id that was given
  out is with its listener, among the pending streams, or claimed, and has at most one timer.
\<close>

definition owner :: "'c streams \<Rightarrow> u64 \<rightharpoonup> string \<times> 'c" where
  "owner s = map_of (accepted s)"

definition claim_ids :: "'c streams \<Rightarrow> u64 set" where
  "claim_ids s = fst ` set (claimed s)"

definition timer_ids :: "'c streams \<Rightarrow> u64 set" where
  "timer_ids s = fst ` set (timers s)"

definition pending_owned :: "'c streams \<Rightarrow> bool" where
  "pending_owned s \<longleftrightarrow> (\<forall>i c. pending s i = Some c \<longrightarrow> (\<exists>l. owner s i = Some (l, c)))"

definition accepted_owned :: "'c streams \<Rightarrow> bool" where
  "accepted_owned s \<longleftrightarrow> (\<forall>l i c. listeners s l = Accepted i c \<longrightarrow>
     owner s i = Some (l, c) \<and> pending s i = None \<and> i \<notin> claim_ids s \<and> i \<notin> timer_ids s)"

definition sending_owned :: "'c streams \<Rightarrow> bool" where
  "sending_owned s \<longleftrightarrow> (\<forall>l i. listeners s l = Sending i \<longrightarrow>
     (\<exists>c. owner s i = Some (l, c)) \<and> i \<notin> timer_ids s \<and> (pending s i \<noteq> None \<or> i \<in> claim_ids s))"

definition claims_ok :: "'c streams \<Rightarrow> bool" where
  "claims_ok s \<longleftrightarrow> (\<forall>i \<in> claim_ids s. pending s i = None \<and> owner s i \<noteq> None) \<and>
     (\<forall>(i, c) \<in> set (claimed s). \<exists>l. owner s i = Some (l, c)) \<and> distinct (map fst (claimed s))"

definition timers_ok :: "'c streams \<Rightarrow> bool" where
  "timers_ok s \<longleftrightarrow> distinct (map fst (timers s)) \<and>
     (\<forall>i \<in> timer_ids s. owner s i \<noteq> None \<and> (pending s i \<noteq> None \<or> i \<in> claim_ids s))"

text \<open>No leak: a pending stream has a timer, or its listener is still announcing it.\<close>

definition guarded :: "'c streams \<Rightarrow> bool" where
  "guarded s \<longleftrightarrow>
     (\<forall>i. pending s i \<noteq> None \<longrightarrow> i \<in> timer_ids s \<or> (\<exists>l. listeners s l = Sending i))"

definition owned :: "'c streams \<Rightarrow> bool" where
  "owned s \<longleftrightarrow> pending_owned s \<and> accepted_owned s \<and> sending_owned s \<and> claims_ok s \<and>
     timers_ok s \<and> guarded s"

lemmas owned_defs = pending_owned_def accepted_owned_def sending_owned_def claims_ok_def
  timers_ok_def guarded_def

lemma owner_accept:
  "owner s (next_stream_id s) = None \<Longrightarrow>
     owner (accept_conn l c s) = (owner s)(next_stream_id s \<mapsto> (l, c))"
  by (simp add: owner_def accept_conn_def map_of_append map_add_def fun_eq_iff split: option.split)

lemma frame_owner [simp]:
  "owner (insert_pending l i c s) = owner s" "owner (send_open l i s) = owner s"
  "owner (snd (claim_stream i s)) = owner s" "owner (expire t s) = owner s"
  "owner (take_signal s) = owner s"
  by (simp_all add: owner_def)

lemma owner_fresh:
  "ids_ok s \<Longrightarrow> Suc (length (accepted s)) < id_space \<Longrightarrow> owner s (next_stream_id s) = None"
  by (simp add: owner_def next_fresh map_of_eq_None_iff)

lemma unowned:
  assumes "owned s" and "owner s i = None"
  shows "pending s i = None \<and> i \<notin> claim_ids s \<and> i \<notin> timer_ids s"
proof -
  have "pending_owned s" "claims_ok s" "timers_ok s" using assms(1) by (simp_all add: owned_def)
  then show ?thesis
    using assms(2) unfolding owned_defs by (metis not_None_eq option.distinct(1))
qed

lemma owned_accept:
  assumes "owned s" and "owner s (next_stream_id s) = None" and "listeners s l = Accepting"
  shows "owned (accept_conn l c s)"
proof -
  let ?i = "next_stream_id s" and ?s = "accept_conn l c s"
  have u: "pending s ?i = None" "?i \<notin> claim_ids s" "?i \<notin> timer_ids s"
    using unowned [OF assms(1,2)] by simp_all
  have f: "pending ?s = pending s" "claim_ids ?s = claim_ids s" "timer_ids ?s = timer_ids s"
    "listeners ?s = (listeners s)(l := Accepted ?i c)" "claimed ?s = claimed s" "timers ?s = timers s"
    by (simp_all add: accept_conn_def claim_ids_def timer_ids_def)
  note simps = owner_accept [OF assms(2)] f
  have "pending_owned ?s" using assms(1) u by (auto simp: owned_def pending_owned_def simps)
  moreover have "accepted_owned ?s"
    using assms(1,2) u by (auto simp: owned_def accepted_owned_def simps)
  moreover have "sending_owned ?s"
    using assms(1,2) u by (fastforce simp: owned_def sending_owned_def simps)
  moreover have "claims_ok ?s"
    using assms(1,2) u
    by (auto simp: owned_def claims_ok_def simps) (force simp: claim_ids_def, fastforce)
  moreover have "timers_ok ?s"
    using assms(1,2) u by (auto simp: owned_def timers_ok_def simps)
  moreover have "guarded ?s"
    using assms(1,3) by (auto simp: owned_def guarded_def simps) (metis listener.distinct(3))
  ultimately show ?thesis by (simp add: owned_def)
qed

text \<open>Two listeners never hold the same id.\<close>

lemma other_listener:
  assumes "owned s" and "owner s i = Some (l, c)" and "l' \<noteq> l"
  shows "listeners s l' \<noteq> Accepted i c'" and "listeners s l' \<noteq> Sending i"
  using assms by (fastforce simp: owned_def accepted_owned_def sending_owned_def)+

lemma key_mem: "(i, b) \<in> set xs \<Longrightarrow> i \<in> fst ` set xs"
  by force

lemma owned_insert:
  assumes "owned s" and "listeners s l = Accepted i c"
  shows "owned (insert_pending l i c s)"
proof -
  let ?s = "insert_pending l i c s"
  have o: "owner s i = Some (l, c)" "pending s i = None" "i \<notin> claim_ids s" "i \<notin> timer_ids s"
    using assms by (simp_all add: owned_def accepted_owned_def)
  have f: "pending ?s = (pending s)(i \<mapsto> c)" "claim_ids ?s = claim_ids s"
    "timer_ids ?s = timer_ids s" "listeners ?s = (listeners s)(l := Sending i)"
    "claimed ?s = claimed s" "timers ?s = timers s"
    by (simp_all add: insert_pending_def claim_ids_def timer_ids_def)
  note other = other_listener [OF assms(1) o(1)]
  have "pending_owned ?s" using assms(1) o by (auto simp: owned_def pending_owned_def f)
  moreover have "accepted_owned ?s"
    using assms(1) other by (auto simp: owned_def accepted_owned_def f)
  moreover have "sending_owned ?s"
    using assms(1) o by (auto simp: owned_def sending_owned_def f)
  moreover have "claims_ok ?s" using assms(1) o by (auto simp: owned_def claims_ok_def f)
  moreover have "timers_ok ?s" using assms(1) o by (auto simp: owned_def timers_ok_def f)
  moreover have "guarded ?s"
    using assms by (auto simp: owned_def guarded_def f) (metis listener.distinct(5))+
  ultimately show ?thesis by (simp add: owned_def)
qed

lemma owned_send:
  assumes "owned s" and "listeners s l = Sending i"
  shows "owned (send_open l i s)"
proof -
  obtain c where o: "owner s i = Some (l, c)" "i \<notin> timer_ids s"
    "pending s i \<noteq> None \<or> i \<in> claim_ids s"
    using assms by (auto simp: owned_def sending_owned_def)
  note other = other_listener [OF assms(1) o(1)]
  show ?thesis
  proof (cases l i s rule: send_open_cases)
    case (sent ch)
    let ?s = "send_open l i s"
    have f: "pending ?s = pending s" "claim_ids ?s = claim_ids s"
      "timer_ids ?s = insert i (timer_ids s)" "listeners ?s = (listeners s)(l := Accepting)"
      "claimed ?s = claimed s" "timers ?s = timers s @ [(i, clock s + int claim_timeout)]"
      by (simp_all add: sent claim_ids_def timer_ids_def)
    have "pending_owned ?s" using assms(1) by (simp add: owned_def pending_owned_def f)
    moreover have "accepted_owned ?s"
      using assms(1) other by (auto simp: owned_def accepted_owned_def f)
    moreover have "sending_owned ?s"
      using assms(1) other by (auto simp: owned_def sending_owned_def f)
    moreover have "claims_ok ?s" using assms(1) by (simp add: owned_def claims_ok_def f)
    moreover have "timers_ok ?s"
      using assms(1) o by (auto simp: owned_def timers_ok_def f) (simp_all add: timer_ids_def key_mem)
    moreover have "guarded ?s"
      using assms by (auto simp: owned_def guarded_def f) (metis listener.inject(2))
    ultimately show ?thesis by (simp add: owned_def)
  next
    case gone
    let ?s = "send_open l i s"
    have f: "pending ?s = (pending s)(i := None)" "claim_ids ?s = claim_ids s"
      "timer_ids ?s = timer_ids s" "listeners ?s = (listeners s)(l := Accepting)"
      "claimed ?s = claimed s" "timers ?s = timers s"
      by (simp_all add: gone claim_ids_def timer_ids_def)
    have "pending_owned ?s" using assms(1) by (simp add: owned_def pending_owned_def f)
    moreover have "accepted_owned ?s"
      using assms(1) other by (auto simp: owned_def accepted_owned_def f)
    moreover have "sending_owned ?s"
      using assms(1) other by (auto simp: owned_def sending_owned_def f)
    moreover have "claims_ok ?s" using assms(1) by (auto simp: owned_def claims_ok_def f)
    moreover have "timers_ok ?s" using assms(1) o by (auto simp: owned_def timers_ok_def f)
    moreover have "guarded ?s"
      using assms by (auto simp: owned_def guarded_def f) (metis listener.inject(2))
    ultimately show ?thesis by (simp add: owned_def)
  qed (use assms in simp)
qed

lemma owned_claim:
  assumes "owned s"
  shows "owned (snd (claim_stream i s))"
proof (cases "pending s i")
  case (Some c)
  let ?s = "snd (claim_stream i s)"
  obtain l where o: "owner s i = Some (l, c)" "i \<notin> claim_ids s"
    using assms Some by (fastforce simp: owned_def pending_owned_def claims_ok_def)
  have f: "pending ?s = (pending s)(i := None)" "claim_ids ?s = insert i (claim_ids s)"
    "timer_ids ?s = timer_ids s" "listeners ?s = listeners s"
    "claimed ?s = claimed s @ [(i, c)]" "timers ?s = timers s"
    by (simp_all add: Some claim_stream_def claim_ids_def timer_ids_def)
  have "pending_owned ?s" using assms by (simp add: owned_def pending_owned_def f)
  moreover have "accepted_owned ?s"
    using assms Some by (auto simp: owned_def accepted_owned_def f)
  moreover have "sending_owned ?s" using assms by (auto simp: owned_def sending_owned_def f)
  moreover have "claims_ok ?s"
    using assms o by (auto simp: owned_def claims_ok_def f) (simp add: claim_ids_def key_mem)
  moreover have "timers_ok ?s" using assms by (auto simp: owned_def timers_ok_def f)
  moreover have "guarded ?s" using assms by (auto simp: owned_def guarded_def f)
  ultimately show ?thesis by (simp add: owned_def)
qed (use assms in \<open>simp add: claim_stream_def\<close>)

lemma remove1_keys:
  "distinct (map fst ts) \<Longrightarrow> (i, d) \<in> set ts \<Longrightarrow> fst ` set (remove1 (i, d) ts) = fst ` set ts - {i}"
  by (induction ts) (auto simp: image_iff)

lemma distinct_remove1_keys: "distinct (map fst ts) \<Longrightarrow> distinct (map fst (remove1 t ts))"
  by (induction ts) (auto dest: notin_set_remove1 [THEN contrapos_nn] simp: image_iff)

lemma owned_expire:
  assumes "owned s" and "(i, d) \<in> set (timers s)"
  shows "owned (expire (i, d) s)"
proof -
  let ?s = "expire (i, d) s"
  have dist: "distinct (map fst (timers s))" and mem: "i \<in> timer_ids s"
    using assms by (force simp: owned_def timers_ok_def timer_ids_def)+
  have f: "pending ?s = (pending s)(i := None)" "claim_ids ?s = claim_ids s"
    "timer_ids ?s = timer_ids s - {i}" "listeners ?s = listeners s"
    "claimed ?s = claimed s" "distinct (map fst (timers ?s))"
    using remove1_keys [OF dist assms(2)] distinct_remove1_keys [OF dist]
    by (simp_all add: expire_def claim_ids_def timer_ids_def)
  have "pending_owned ?s" using assms by (simp add: owned_def pending_owned_def f)
  moreover have "accepted_owned ?s"
    using assms(1) by (auto simp: owned_def accepted_owned_def f)
  moreover have "sending_owned ?s"
    using assms(1) mem by (auto simp: owned_def sending_owned_def f)
  moreover have "claims_ok ?s" using assms(1) by (auto simp: owned_def claims_ok_def f)
  moreover have "timers_ok ?s" using assms(1) f(6) by (auto simp: owned_def timers_ok_def f)
  moreover have "guarded ?s" using assms(1) by (auto simp: owned_def guarded_def f)
  ultimately show ?thesis by (simp add: owned_def)
qed

subsection \<open>The announcements\<close>

text \<open>What has been announced, in the order of the channel.\<close>

definition announced :: "'c streams \<Rightarrow> control_message list" where
  "announced s = signalled s @ queued (open_stream s)"

definition signals_ok :: "'c streams \<Rightarrow> bool" where
  "signals_ok s \<longleftrightarrow> length (queued (open_stream s)) \<le> 32 \<and> capacity (open_stream s) = 32 \<and>
     (\<forall>m \<in> set (announced s). \<exists>l i. m = OpenStream l i \<and> map_option fst (owner s i) = Some l)"

lemma signals_cong:
  "announced s' = announced s \<Longrightarrow> queued (open_stream s') = queued (open_stream s) \<Longrightarrow>
     capacity (open_stream s') = capacity (open_stream s) \<Longrightarrow> owner s' = owner s \<Longrightarrow>
     signals_ok s' = signals_ok s"
  by (simp add: signals_ok_def)

lemma step_signals:
  assumes "streams_step s s'" and "signals_ok s" and "owned s"
    and "owner s (next_stream_id s) = None"
  shows "signals_ok s'"
  using assms(1)
proof (cases rule: streams_step.cases)
  case (Accept l c)
  then have "announced s' = announced s" "open_stream s' = open_stream s"
    "owner s' = (owner s)(next_stream_id s \<mapsto> (l, c))"
    using owner_accept [OF assms(4), of l c] by (simp_all add: announced_def accept_conn_def)
  then show ?thesis using assms(2,4) unfolding signals_ok_def
    by (metis (no_types, lifting) fun_upd_other option.distinct(1) option.simps(8))
next
  case (Send l i)
  obtain c where o: "owner s i = Some (l, c)"
    using assms(3) Send(2) by (auto simp: owned_def sending_owned_def)
  have "owner s' = owner s" using Send by simp
  then show ?thesis using assms(2) Send o
    by (auto simp: signals_ok_def announced_def send_open_def try_send_def split: if_splits)
next
  case Signal
  have "announced s' = announced s" "length (queued (open_stream s')) \<le> length (queued (open_stream s))"
    "capacity (open_stream s') = capacity (open_stream s)"
    using Signal by (auto simp: announced_def take_signal_def split: list.split)
  then show ?thesis using assms(2) Signal by (simp add: signals_ok_def)
next
  case (Insert l i c)
  then show ?thesis using assms(2)
    by (subst signals_cong [of _ s]) (simp_all add: announced_def insert_pending_def owner_def)
next
  case (Claim i)
  then show ?thesis using assms(2)
    by (subst signals_cong [of _ s])
      (simp_all add: announced_def claim_stream_def owner_def split: option.split)
next
  case (Expire i d)
  then show ?thesis using assms(2)
    by (subst signals_cong [of _ s]) (simp_all add: announced_def expire_def owner_def)
next
  case (Tick now)
  then show ?thesis using assms(2)
    by (subst signals_cong [of _ s]) (simp_all add: announced_def owner_def)
next
  case Receiver_Gone
  then show ?thesis using assms(2)
    by (subst signals_cong [of _ s]) (simp_all add: announced_def owner_def)
qed

subsection \<open>Reachable states\<close>

lemma step_owned:
  assumes "streams_step s s'" and "owned s" and "owner s (next_stream_id s) = None"
  shows "owned s'"
  using assms(1)
proof (cases rule: streams_step.cases)
  case (Accept l c)
  then show ?thesis using assms by (simp add: owned_accept)
next
  case Signal
  have "claim_ids (take_signal s) = claim_ids s" "timer_ids (take_signal s) = timer_ids s"
    by (simp_all add: claim_ids_def timer_ids_def)
  then show ?thesis using assms(2) Signal by (simp add: owned_def owned_defs)
next
  case (Tick now)
  then have "owner s' = owner s" "claim_ids s' = claim_ids s" "timer_ids s' = timer_ids s"
    by (simp_all add: claim_ids_def timer_ids_def owner_def)
  then show ?thesis using assms(2) Tick by (simp add: owned_def owned_defs)
next
  case Receiver_Gone
  then have "owner s' = owner s" "claim_ids s' = claim_ids s" "timer_ids s' = timer_ids s"
    by (simp_all add: claim_ids_def timer_ids_def owner_def)
  then show ?thesis using assms(2) Receiver_Gone by (simp add: owned_def owned_defs)
qed (use assms(2) in \<open>simp_all add: owned_insert owned_send owned_claim owned_expire\<close>)

lemma owned_start: "owned (start_streams now) \<and> signals_ok (start_streams now)"
  by (simp add: owned_def owned_defs start_streams_def claim_ids_def timer_ids_def signals_ok_def
      announced_def channel_def)

lemma reachable_ids: "reachable s \<Longrightarrow> ids_ok s"
proof (induction rule: reachable.induct)
  case (Start now)
  show ?case by (simp add: ids_ok_def start_streams_def)
qed (rule step_ids)

lemma reachable_inv:
  "reachable s \<Longrightarrow> Suc (length (accepted s)) < id_space \<Longrightarrow> owned s \<and> signals_ok s"
proof (induction rule: reachable.induct)
  case (Step s s')
  have small: "Suc (length (accepted s)) < id_space"
    using Step.prems step_accepted [OF Step.hyps(2)] by linarith
  then have fresh: "owner s (next_stream_id s) = None"
    using owner_fresh [OF reachable_ids [OF Step.hyps(1)]] by simp
  have "owned s" "signals_ok s" using Step.IH small by simp_all
  then show ?case
    using step_owned [OF Step.hyps(2)] step_signals [OF Step.hyps(2)] fresh by simp
qed (rule owned_start)

text \<open>A stream can be claimed at most once, and the connection it yields is the accepted one.\<close>

lemma claimed_once:
  assumes "reachable s" and "Suc (length (accepted s)) < id_space"
  shows "distinct (map fst (claimed s)) \<and>
     (\<forall>(i, c) \<in> set (claimed s). (\<exists>l. (i, l, c) \<in> set (accepted s)) \<and> pending s i = None)"
  using reachable_inv [OF assms]
  by (auto simp: owned_def claims_ok_def owner_def key_mem claim_ids_def dest!: map_of_SomeD)

text \<open>While its timer has not expired, an announced stream is pending or was claimed.\<close>

lemma claimable_until_deadline:
  assumes "reachable s" and "Suc (length (accepted s)) < id_space" and "(i, d) \<in> set (timers s)"
  shows "(\<exists>c s'. claim_stream i s = (Some c, s')) \<or> i \<in> fst ` set (claimed s)"
proof -
  have "i \<in> timer_ids s" using assms(3) by (force simp: timer_ids_def)
  then have "pending s i \<noteq> None \<or> i \<in> claim_ids s"
    using reachable_inv [OF assms(1,2)] by (auto simp: owned_def timers_ok_def)
  then show ?thesis by (auto simp: claim_stream_def claim_ids_def)
qed

text \<open>No pending stream is forgotten.\<close>

lemma pending_guarded:
  assumes "reachable s" and "Suc (length (accepted s)) < id_space" and "pending s i = Some c"
  shows "i \<in> fst ` set (timers s) \<or> (\<exists>l. listeners s l = Sending i)"
  using reachable_inv [OF assms(1,2)] assms(3) by (auto simp: owned_def guarded_def timer_ids_def)

end
