(* ===== verification/Rate_Limit.thy ===== *)
theory Rate_Limit
  imports Net_Addr
begin

section \<open>The handshake limiter (\<open>ratelimit.rs\<close>)\<close>

text \<open>
  A semaphore of 64 permits and, per source IP, the queue of the instants of its recent attempts.
  \<open>try_acquire\<close> reads the clock twice: once for the cut-off and once for the instant it records.
  The queue discipline (drop stale entries from the front, push at the back) is the interface
  \<open>sliding_window\<close>; the firewall's failure tracker is its other provider. The run of a limiter is
  a list of events, and \<open>run\<close> keeps beside the limiter the permits held and the full history of
  recorded attempts.
\<close>

subsection \<open>Interface: a sliding window over a queue of instants\<close>

locale sliding_window =
  fixes stale :: "instant \<Rightarrow> instant \<Rightarrow> bool" \<comment> \<open>\<open>stale now t\<close>\<close>
  assumes older_stale: "t \<le> t' \<Longrightarrow> stale now t' \<Longrightarrow> stale now t"
    and later_stale: "now \<le> now' \<Longrightarrow> stale now t \<Longrightarrow> stale now' t"
begin

text \<open>On a queue in time order, popping stale entries from the front removes all of them.\<close>

lemma pop_front_filter:
  "sorted ts \<Longrightarrow> dropWhile (stale now) ts = filter (\<lambda>t. \<not> stale now t) ts"
proof (induction ts)
  case (Cons t ts)
  show ?case
  proof (cases "stale now t")
    case False
    then have "\<forall>u \<in> set ts. \<not> stale now u" using Cons.prems older_stale by auto
    then show ?thesis using False by simp
  qed (use Cons in simp)
qed simp

lemma popped_stale:
  assumes "t \<in> set (takeWhile (stale now) ts)" and "now \<le> now'"
  shows "stale now' t"
proof -
  have "stale now t" using assms(1) by (rule set_takeWhileD [THEN conjunct2])
  then show ?thesis using assms(2) by (rule later_stale [rotated])
qed

lemma push_sorted:
  "sorted ts \<Longrightarrow> \<forall>t \<in> set ts. t \<le> now \<Longrightarrow> sorted (dropWhile (stale now) ts @ [now])"
  by (auto simp: sorted_append sorted_dropWhile dest: set_dropWhileD)

text \<open>Nothing that is in the window now was dropped at an earlier instant.\<close>

lemma pop_earlier:
  "sorted ts \<Longrightarrow> now \<le> now' \<Longrightarrow>
     dropWhile (stale now') (dropWhile (stale now) ts) = dropWhile (stale now') ts"
  by (induction ts) (auto dest: later_stale)

end

subsection \<open>The limiter\<close>

definition max_concurrent_handshakes :: nat where
  "max_concurrent_handshakes = 64"

definition max_attempts_per_window :: nat where
  "max_attempts_per_window = 10"

definition window :: duration where
  "window = secs 60"

record limiter =
  permits :: nat
  per_ip :: "ip_addr \<rightharpoonup> instant list"

definition new_limiter :: limiter where
  "new_limiter = \<lparr>permits = max_concurrent_handshakes, per_ip = Map.empty\<rparr>"

definition limiter_stale :: "instant \<Rightarrow> instant \<Rightarrow> bool" where
  "limiter_stale now t \<longleftrightarrow> t < now - int window"

definition attempts_of :: "limiter \<Rightarrow> ip_addr \<Rightarrow> instant list" where
  "attempts_of lim ip = (case per_ip lim ip of None \<Rightarrow> [] | Some ts \<Rightarrow> ts)"

text \<open>The attempts of the IP that are still in the window, and whether they leave room.\<close>

definition pruned :: "limiter \<Rightarrow> instant \<Rightarrow> ip_addr \<Rightarrow> instant list" where
  "pruned lim now ip = dropWhile (limiter_stale now) (attempts_of lim ip)"

definition under_limit :: "limiter \<Rightarrow> instant \<Rightarrow> ip_addr \<Rightarrow> bool" where
  "under_limit lim now ip \<longleftrightarrow> length (pruned lim now ip) < max_attempts_per_window"

text \<open>\<open>t1\<close> is the clock at the cut-off, \<open>t2\<close> at the push. The result says whether a permit was
  returned.\<close>

definition try_acquire :: "instant \<Rightarrow> instant \<Rightarrow> ip_addr \<Rightarrow> limiter \<Rightarrow> bool \<times> limiter" where
  "try_acquire t1 t2 ip lim =
     (let attempts = pruned lim t1 ip in
      if max_attempts_per_window \<le> length attempts
      then (False, lim\<lparr>per_ip := (per_ip lim)(ip \<mapsto> attempts)\<rparr>)
      else
        let lim = lim\<lparr>per_ip := (per_ip lim)(ip \<mapsto> attempts @ [t2])\<rparr> in
        if 0 < permits lim then (True, lim\<lparr>permits := permits lim - 1\<rparr>) else (False, lim))"

text \<open>Dropping the permit gives it back to the semaphore.\<close>

definition release :: "limiter \<Rightarrow> limiter" where
  "release lim = lim\<lparr>permits := permits lim + 1\<rparr>"

lemmas [op_defs] = new_limiter_def attempts_of_def pruned_def under_limit_def try_acquire_def
  release_def

interpretation limiter: sliding_window limiter_stale
  by unfold_locales (auto simp: limiter_stale_def)

subsection \<open>Runs\<close>

datatype lim_event = Acquire instant instant ip_addr | Release

record lim_run =
  limiter_now :: limiter
  held :: nat
  history :: "ip_addr \<Rightarrow> instant list"

definition start_run :: lim_run where
  "start_run = \<lparr>limiter_now = new_limiter, held = 0, history = (\<lambda>_. [])\<rparr>"

fun run_event :: "lim_event \<Rightarrow> lim_run \<Rightarrow> lim_run" where
  "run_event (Acquire t1 t2 ip) r =
     (let (granted, l) = try_acquire t1 t2 ip (limiter_now r)
      in r\<lparr>limiter_now := l, held := (if granted then held r + 1 else held r),
           history := (if under_limit (limiter_now r) t1 ip
                       then (history r)(ip := history r ip @ [t2]) else history r)\<rparr>)"
| "run_event Release r =
     (if held r = 0 then r else r\<lparr>limiter_now := release (limiter_now r), held := held r - 1\<rparr>)"

definition run :: "lim_event list \<Rightarrow> lim_run" where
  "run es = fold run_event es start_run"

text \<open>The monotonic clock: every reading is at least the one before it.\<close>

fun clocked :: "instant \<Rightarrow> lim_event list \<Rightarrow> bool" where
  "clocked now [] = True"
| "clocked now (Acquire t1 t2 ip # es) = (now \<le> t1 \<and> t1 \<le> t2 \<and> clocked t2 es)"
| "clocked now (Release # es) = clocked now es"

subsection \<open>The concurrency cap\<close>

lemma try_acquire_permits:
  "try_acquire t1 t2 ip l = (g, l') \<Longrightarrow> permits l = permits l' + (if g then 1 else 0)"
  by (auto simp: try_acquire_def Let_def split: if_splits)

lemma run_event_permits:
  "permits (limiter_now (run_event e r)) + held (run_event e r) = permits (limiter_now r) + held r"
  by (cases e) (auto simp: release_def split: prod.splits dest: try_acquire_permits)

lemma fold_permits:
  "permits (limiter_now (fold run_event es r)) + held (fold run_event es r) = permits (limiter_now r) + held r"
  by (induction es arbitrary: r) (simp_all add: run_event_permits)

lemma run_permits: "permits (limiter_now (run es)) + held (run es) = max_concurrent_handshakes"
  using fold_permits [of es start_run] by (simp add: run_def start_run_def new_limiter_def)

subsection \<open>The rate bound\<close>

text \<open>
  In a history, any ten attempts after one another leave the window before an eleventh is
  recorded.
\<close>

definition spaced :: "instant list \<Rightarrow> bool" where
  "spaced h \<longleftrightarrow> (\<forall>i. i + max_attempts_per_window < length h \<longrightarrow>
                  h ! i + int window < h ! (i + max_attempts_per_window))"

definition ip_inv :: "instant \<Rightarrow> lim_run \<Rightarrow> ip_addr \<Rightarrow> bool" where
  "ip_inv now r ip \<longleftrightarrow>
     sorted (history r ip) \<and> (\<forall>t \<in> set (history r ip). t \<le> now) \<and> spaced (history r ip) \<and>
     (\<exists>k. attempts_of (limiter_now r) ip = drop k (history r ip) \<and>
          (\<forall>t \<in> set (take k (history r ip)). limiter_stale now t))"

lemma limiter_stale_later: "limiter_stale now t \<Longrightarrow> now \<le> now' \<Longrightarrow> limiter_stale now' t"
  by (simp add: limiter_stale_def)

lemma run_event_Acquire [simp]:
  "limiter_now (run_event (Acquire t1 t2 ip) r) = snd (try_acquire t1 t2 ip (limiter_now r))"
  "history (run_event (Acquire t1 t2 ip) r) =
     (if under_limit (limiter_now r) t1 ip then (history r)(ip := history r ip @ [t2]) else history r)"
  by (simp_all split: prod.splits)

lemma ip_inv_cong:
  "history r' ip = history r ip \<Longrightarrow> attempts_of (limiter_now r') ip = attempts_of (limiter_now r) ip \<Longrightarrow>
     ip_inv now r' ip = ip_inv now r ip"
  by (simp add: ip_inv_def)

lemma ip_inv_later: "ip_inv now r ip \<Longrightarrow> now \<le> now' \<Longrightarrow> ip_inv now' r ip"
  unfolding ip_inv_def by (meson limiter_stale_later order_trans)

lemma spaced_append:
  assumes "spaced h" and "\<forall>i. i + max_attempts_per_window = length h \<longrightarrow> h ! i + int window < t"
  shows "spaced (h @ [t])"
  using assms unfolding spaced_def
  by (auto simp: nth_append less_Suc_eq max_attempts_per_window_def)

lemma pruned_drop:
  assumes "ip_inv now r ip" and "now \<le> t1"
  shows "\<exists>k. pruned (limiter_now r) t1 ip = drop k (history r ip) \<and>
             (\<forall>t \<in> set (take k (history r ip)). limiter_stale t1 t)"
proof -
  obtain k where k: "attempts_of (limiter_now r) ip = drop k (history r ip)"
    "\<forall>t \<in> set (take k (history r ip)). limiter_stale now t"
    using assms(1) by (auto simp: ip_inv_def)
  let ?w = "takeWhile (limiter_stale t1) (drop k (history r ip))"
  have "pruned (limiter_now r) t1 ip = drop (length ?w) (drop k (history r ip))"
    by (simp add: pruned_def k(1) dropWhile_eq_drop)
  moreover have "take (k + length ?w) (history r ip) = take k (history r ip) @ ?w"
    by (simp add: take_add takeWhile_eq_take [symmetric])
  moreover have "\<forall>t \<in> set ?w. limiter_stale t1 t" by (auto dest: set_takeWhileD)
  ultimately show ?thesis
    using k(2) limiter_stale_later [OF _ assms(2)]
    by (intro exI [of _ "k + length ?w"]) (auto simp: add.commute)
qed

lemma acquire_ip_inv:
  assumes inv: "ip_inv now r ip" and t: "now \<le> t1" "t1 \<le> t2"
  shows "ip_inv t2 (run_event (Acquire t1 t2 ip') r) ip"
proof (cases "ip' = ip")
  case False
  then have "attempts_of (snd (try_acquire t1 t2 ip' (limiter_now r))) ip = attempts_of (limiter_now r) ip"
    by (simp add: try_acquire_def attempts_of_def Let_def)
  then have "ip_inv t2 (run_event (Acquire t1 t2 ip') r) ip = ip_inv t2 r ip"
    using False by (intro ip_inv_cong) (simp_all del: run_event.simps)
  then show ?thesis using ip_inv_later [OF inv, of t2] t by simp
next
  case True
  let ?h = "history r ip"
  obtain k where k: "pruned (limiter_now r) t1 ip = drop k ?h"
    "\<forall>t \<in> set (take k ?h). limiter_stale t1 t"
    using pruned_drop [OF inv t(1)] by blast
  have old: "sorted ?h" "\<forall>u \<in> set ?h. u \<le> t2" "spaced ?h"
    "\<forall>u \<in> set (take k ?h). limiter_stale t2 u"
    using inv t k(2) by (auto simp: ip_inv_def intro: limiter_stale_later order_trans)
  show ?thesis
  proof (cases "under_limit (limiter_now r) t1 ip")
    case full: False
    then have "attempts_of (snd (try_acquire t1 t2 ip (limiter_now r))) ip = drop k ?h"
      by (simp add: try_acquire_def under_limit_def attempts_of_def k(1) Let_def)
    then show ?thesis using full True old by (auto simp: ip_inv_def simp del: run_event.simps)
  next
    case room: True
    then have q: "attempts_of (snd (try_acquire t1 t2 ip (limiter_now r))) ip = drop k ?h @ [t2]"
      by (simp add: try_acquire_def under_limit_def attempts_of_def k(1) Let_def)
    have len: "length ?h - k < max_attempts_per_window"
      using room by (simp add: under_limit_def k(1))
    have "?h ! i + int window < t2" if "i + max_attempts_per_window = length ?h" for i
    proof -
      have "i < k" "i < length ?h" using that len by (simp_all add: max_attempts_per_window_def)
      then have "?h ! i \<in> set (take k ?h)" by (auto simp: in_set_conv_nth)
      then show ?thesis using k(2) t(2) by (auto simp: limiter_stale_def)
    qed
    then have "spaced (?h @ [t2])" using old(3) by (intro spaced_append) auto
    moreover have "\<exists>j. drop k ?h @ [t2] = drop j (?h @ [t2]) \<and>
        (\<forall>t \<in> set (take j (?h @ [t2])). limiter_stale t2 t)"
      by (intro exI [of _ "min k (length ?h)"]) (use old(4) in \<open>simp add: min_def\<close>)
    ultimately show ?thesis using True room q old
      by (simp add: ip_inv_def sorted_append del: drop_append take_append run_event.simps)
  qed
qed

lemma fold_spaced:
  "\<forall>ip. ip_inv now r ip \<Longrightarrow> clocked now es \<Longrightarrow> spaced (history (fold run_event es r) ip)"
proof (induction now es arbitrary: r rule: clocked.induct)
  case (1 now)
  then show ?case by (simp add: ip_inv_def)
next
  case (2 now t1 t2 ip' es)
  have "ip_inv t2 (run_event (Acquire t1 t2 ip') r) ip" for ip
    by (rule acquire_ip_inv [where now = now]) (use "2.prems" in simp_all)
  then show ?case using "2.IH" "2.prems"(2) by (simp del: run_event.simps)
next
  case (3 now es)
  have "ip_inv now (run_event Release r) ip = ip_inv now r ip" for ip
    by (simp add: ip_inv_def release_def attempts_of_def)
  then show ?case using "3.IH" "3.prems" by simp
qed

lemma run_spaced: "clocked now es \<Longrightarrow> spaced (history (run es) ip)"
  unfolding run_def
  by (rule fold_spaced)
    (auto simp: ip_inv_def start_run_def new_limiter_def attempts_of_def spaced_def)

subsection \<open>Independence and recovery\<close>

lemma try_acquire_other_ip:
  "ip' \<noteq> ip \<Longrightarrow> attempts_of (snd (try_acquire t1 t2 ip' l)) ip = attempts_of l ip"
  by (simp add: try_acquire_def attempts_of_def Let_def)

lemma try_acquire_granted:
  "fst (try_acquire t1 t2 ip l) \<longleftrightarrow> under_limit l t1 ip \<and> 0 < permits l"
  by (simp add: try_acquire_def under_limit_def Let_def not_less)

lemma recovers:
  assumes "\<forall>t \<in> set (attempts_of l ip). limiter_stale t1 t" and "0 < permits l"
  shows "fst (try_acquire t1 t2 ip l)"
proof -
  have "pruned l t1 ip = []" using assms(1) by (simp add: pruned_def dropWhile_eq_Nil_conv)
  then show ?thesis
    using assms(2) by (simp add: try_acquire_granted under_limit_def max_attempts_per_window_def)
qed

end
