(* ===== verification/Peer_Match.thy ===== *)
theory Peer_Match
  imports Wire
begin

section \<open>Which peer is calling (\<open>noise.rs\<close>, \<open>peermatch.rs\<close>)\<close>

text \<open>
  The Noise state machine is the \<open>snow\<close> crate: building a handshake state and reading the first
  message are the fields of a record \<open>snow\<close>, an argument of every definition that handshakes.
  \<open>match_peer_bytes\<close> tries the configured keys in order; \<open>match_peer\<close> first reads the message off
  a stream, with its two-byte length.
\<close>

record 'hs snow =
  build_initiator :: "bytes \<Rightarrow> bytes \<Rightarrow> string + 'hs"
  build_responder :: "bytes \<Rightarrow> bytes \<Rightarrow> string + 'hs"
  read_message :: "'hs \<Rightarrow> string \<Rightarrow> 'hs option"

definition initiator :: "'hs snow \<Rightarrow> bytes \<Rightarrow> bytes \<Rightarrow> string + 'hs" where
  "initiator sn local_private remote_public =
     (case build_initiator sn local_private remote_public of
        Inl e \<Rightarrow> Inl (''failed to build Noise initiator: '' @ e) | Inr h \<Rightarrow> Inr h)"

definition responder :: "'hs snow \<Rightarrow> bytes \<Rightarrow> bytes \<Rightarrow> string + 'hs" where
  "responder sn local_private remote_public =
     (case build_responder sn local_private remote_public of
        Inl e \<Rightarrow> Inl (''failed to build Noise responder: '' @ e) | Inr h \<Rightarrow> Inr h)"

record resolved_peer =
  rp_name :: string
  rp_public_key :: bytes
  rp_links :: "string set"

datatype match_error = Io io_error | NoMatch

fun match_loop ::
  "'hs snow \<Rightarrow> string \<Rightarrow> bytes \<Rightarrow> nat \<Rightarrow> resolved_peer list \<Rightarrow> match_error + nat \<times> 'hs" where
  "match_loop sn message private_key index [] = Inl NoMatch"
| "match_loop sn message private_key index (peer # peers) =
     (case responder sn private_key (rp_public_key peer) of
        Inl _ \<Rightarrow> match_loop sn message private_key (Suc index) peers
      | Inr state \<Rightarrow>
         (case read_message sn state message of
            Some state' \<Rightarrow> Inr (index, state')
          | None \<Rightarrow> match_loop sn message private_key (Suc index) peers))"

definition match_peer_bytes ::
  "'hs snow \<Rightarrow> string \<Rightarrow> bytes \<Rightarrow> resolved_peer list \<Rightarrow> match_error + nat \<times> 'hs" where
  "match_peer_bytes sn message private_key peers = match_loop sn message private_key 0 peers"

text \<open>\<open>match_peer\<close> on the bytes of a connection that then ends: the result and the bytes left.\<close>

definition match_peer ::
  "'hs snow \<Rightarrow> string \<Rightarrow> bytes \<Rightarrow> resolved_peer list \<Rightarrow> (match_error + nat \<times> 'hs) \<times> string" where
  "match_peer sn tcp private_key peers =
     (if length tcp < 2 then (Inl (Io Unexpected_Eof), [])
      else let len = le_val (take 2 tcp); rest = drop 2 tcp in
        if length rest < len then (Inl (Io Unexpected_Eof), [])
        else (match_peer_bytes sn (take len rest) private_key peers, drop len rest))"

lemmas [op_defs] = responder_def initiator_def match_peer_bytes_def match_peer_def

subsection \<open>The first key that accepts\<close>

definition accepts :: "'hs snow \<Rightarrow> string \<Rightarrow> bytes \<Rightarrow> resolved_peer \<Rightarrow> bool" where
  "accepts sn message private_key peer \<longleftrightarrow>
     (case responder sn private_key (rp_public_key peer) of Inl _ \<Rightarrow> False
      | Inr state \<Rightarrow> read_message sn state message \<noteq> None)"

lemma match_loop_position:
  "map_option fst (case match_loop sn m k i ps of Inr x \<Rightarrow> Some x | Inl _ \<Rightarrow> None) =
     map_option ((+) i) (position (accepts sn m k) ps)"
proof (induction ps arbitrary: i)
  case (Cons p ps)
  then show ?case
    by (auto simp: accepts_def option.map_comp comp_def Cons.IH split: sum.splits option.splits)
qed simp

lemma match_loop_error: "match_loop sn m k i ps = Inl e \<Longrightarrow> e = NoMatch"
  by (induction ps arbitrary: i) (auto split: sum.splits option.splits)

lemma match_peer_bytes_first:
  "match_peer_bytes sn m k ps = Inr (i, st) \<Longrightarrow> position (accepts sn m k) ps = Some i"
  using match_loop_position [of sn m k 0 ps]
  by (cases "position (accepts sn m k) ps") (auto simp: match_peer_bytes_def)

lemma match_peer_bytes_none:
  "match_peer_bytes sn m k ps = Inl NoMatch \<longleftrightarrow> (\<forall>p \<in> set ps. \<not> accepts sn m k p)"
proof (cases "match_loop sn m k 0 ps")
  case (Inl e)
  then show ?thesis
    using match_loop_error [OF Inl] match_loop_position [of sn m k 0 ps]
      position_None [of "accepts sn m k" ps] by (simp add: match_peer_bytes_def)
next
  case (Inr x)
  then show ?thesis
    using match_loop_position [of sn m k 0 ps] position_None [of "accepts sn m k" ps]
    by (auto simp: match_peer_bytes_def)
qed

text \<open>
  What the code relies on in \<open>Noise_KK\<close>: the first message is accepted only under the static key
  of the party that wrote it.
\<close>

definition kk_authentic :: "'hs snow \<Rightarrow> (string \<Rightarrow> bytes option) \<Rightarrow> bool" where
  "kk_authentic sn writer \<longleftrightarrow>
     (\<forall>k pub st m. build_responder sn k pub = Inr st \<longrightarrow> read_message sn st m \<noteq> None \<longrightarrow>
        writer m = Some pub)"

lemma accepts_writer:
  "kk_authentic sn writer \<Longrightarrow> accepts sn m k p \<Longrightarrow> writer m = Some (rp_public_key p)"
  by (auto simp: kk_authentic_def accepts_def responder_def split: sum.splits)

lemma matched_peer_wrote:
  assumes "kk_authentic sn writer" and "match_peer_bytes sn m k ps = Inr (i, st)"
  shows "i < length ps \<and> writer m = Some (rp_public_key (ps ! i))"
  using position_Some [OF match_peer_bytes_first [OF assms(2)]] accepts_writer [OF assms(1)]
  by blast

lemma match_unique:
  assumes "kk_authentic sn writer" and "distinct (map rp_public_key ps)"
    and "match_peer_bytes sn m k ps = Inr (i, st)" and "j < length ps"
    and "accepts sn m k (ps ! j)"
  shows "j = i"
  using matched_peer_wrote [OF assms(1,3)] accepts_writer [OF assms(1,5)] assms(2,4)
  by (auto simp: distinct_conv_nth)

end
