(* ===== verification/Theme.thy ===== *)
theory Theme
  imports Net_Addr
begin

section \<open>Colours of the log lines (\<open>theme.rs\<close>)\<close>

text \<open>
  The escape sequences come from the palette of another crate: they are the fields of a record.
  A line of the daemon's log is the tag \<open>ghostport: \<close> and a coloured message.
\<close>

record palette =
  acid_green :: string
  orange :: string
  red :: string
  cyan :: string
  reset :: string
  bold :: string

definition ok :: "palette \<Rightarrow> string \<Rightarrow> string" where
  "ok pal s = acid_green pal @ s @ reset pal"

definition warn :: "palette \<Rightarrow> string \<Rightarrow> string" where
  "warn pal s = orange pal @ s @ reset pal"

definition err :: "palette \<Rightarrow> string \<Rightarrow> string" where
  "err pal s = red pal @ s @ reset pal"

definition accent :: "palette \<Rightarrow> string \<Rightarrow> string" where
  "accent pal s = cyan pal @ s @ reset pal"

definition emphasis :: "palette \<Rightarrow> string \<Rightarrow> string" where
  "emphasis pal s = bold pal @ acid_green pal @ s @ reset pal"

definition tagged :: "string \<Rightarrow> string" where
  "tagged msg = ''ghostport: '' @ msg"

definition link_line :: "palette \<Rightarrow> string \<Rightarrow> string \<Rightarrow> string" where
  "link_line pal i msg = ''ghostport: ['' @ accent pal i @ ''] '' @ msg"

lemmas theme_defs = ok_def warn_def err_def accent_def emphasis_def tagged_def link_line_def

end
