(* ===== verification/Server_Role.thy ===== *)
theory Server_Role
  imports Stats Reverse_Streams Rate_Limit Peer_Match Theme
begin

section \<open>The server role (\<open>server.rs\<close>)\<close>

text \<open>
  The accept loops of the control and the data channel, the handling of one data connection, and
  the control session. What the outside world does while one connection is handled is a record
  \<open>conn_env\<close>: the bytes it sends before the tunnel is up, whether the two timeouts are met, what
  dialling a target gives and how the copy loop ends. \<open>finish\<close> completes the Noise handshake and
  gives the plaintext of the tunnel (the \<open>snowstorm\<close> crate). An \<open>expect\<close> that fails is \<open>Panicked\<close>.
\<close>

subsection \<open>State\<close>

record server_ctx =
  sctx_config :: config
  sctx_private_key :: bytes
  sctx_peers :: "resolved_peer list"

record 'c server =
  srv_limiter :: limiter
  srv_streams :: "'c streams"
  srv_state :: shared_state

record 'c conn_env =
  env_bytes :: string
  handshake_in_time :: bool
  hello_in_time :: bool
  env_dial :: "string \<Rightarrow> io_error + 'c"
  env_copied :: "string + u64 \<times> u64"

datatype 'c outcome = Relayed string 'c | Failed io_error | Panicked string

subsection \<open>Startup\<close>

text \<open>\<open>run\<close>: a listener for every reverse TCP link; \<open>None\<close> is the panic of an \<open>expect\<close>.\<close>

fun reverse_listeners :: "link_config list \<Rightarrow> (string \<times> string) list option" where
  "reverse_listeners [] = Some []"
| "reverse_listeners (l # ls) =
     (if link_transport l \<noteq> Tcp then reverse_listeners ls
      else if link_mode l = Reverse
      then (case link_listen l of None \<Rightarrow> None
            | Some addr \<Rightarrow> map_option ((#) (link_id l, addr)) (reverse_listeners ls))
      else reverse_listeners ls)"

record server_plan =
  plan_control :: string
  plan_data :: string
  plan_reverse :: "(string \<times> string) list"

definition run_server :: "config \<Rightarrow> server_plan option" where
  "run_server cfg =
     (case listen_control cfg of None \<Rightarrow> None
      | Some c \<Rightarrow> (case listen_data cfg of None \<Rightarrow> None
      | Some d \<Rightarrow> (case reverse_listeners (cfg_links cfg) of None \<Rightarrow> None
      | Some ls \<Rightarrow> Some \<lparr>plan_control = c, plan_data = d, plan_reverse = ls\<rparr>)))"

subsection \<open>Handshake\<close>

fun match_text :: "(io_error \<Rightarrow> string) \<Rightarrow> match_error \<Rightarrow> string" where
  "match_text io_text (Io e) = io_text e"
| "match_text io_text NoMatch = ''no configured peer matched''"

type_synonym 'hs finisher = "'hs \<Rightarrow> string \<Rightarrow> string + string"

definition server_handshake ::
  "'hs snow \<Rightarrow> 'hs finisher \<Rightarrow> (io_error \<Rightarrow> string) \<Rightarrow> server_ctx \<Rightarrow> string
     \<Rightarrow> string + nat \<times> string" where
  "server_handshake sn finish io_text ctx tcp =
     (case match_peer sn tcp (sctx_private_key ctx) (sctx_peers ctx) of
        (Inl e, rest) \<Rightarrow> Inl (match_text io_text e)
      | (Inr (peer_index, state), rest) \<Rightarrow>
         (case finish state rest of Inl e \<Rightarrow> Inl e | Inr plain \<Rightarrow> Inr (peer_index, plain)))"

definition data_handshake ::
  "'hs snow \<Rightarrow> 'hs finisher \<Rightarrow> (io_error \<Rightarrow> string) \<Rightarrow> server_ctx \<Rightarrow> bool \<Rightarrow> string
     \<Rightarrow> io_error + nat \<times> string" where
  "data_handshake sn finish io_text ctx in_time tcp =
     (if \<not> in_time then Inl (Timed_Out ''handshake timed out'')
      else case server_handshake sn finish io_text ctx tcp of
        Inl e \<Rightarrow> Inl (Other e) | Inr v \<Rightarrow> Inr v)"

subsection \<open>One data connection\<close>

definition not_authorized :: "string \<Rightarrow> string \<Rightarrow> io_error" where
  "not_authorized name i =
     Other (''peer '' @ quoted name @ '' is not authorized for link '' @ quoted i)"

definition unknown_link :: "string \<Rightarrow> io_error" where
  "unknown_link i = Other (''unknown link id '' @ quoted i)"

definition not_a_tcp_link :: "string \<Rightarrow> io_error" where
  "not_a_tcp_link i = Other (''link '' @ quoted i @
     '' isn't a TCP link (nothing should ever dial the TCP data channel for it)'')"

definition unknown_stream :: "u64 \<Rightarrow> string \<Rightarrow> io_error" where
  "unknown_stream n i = Other (''stream '' @ show_word n @ '' for link '' @ quoted i @
     '' is unknown or already timed out'')"

definition protocol_mismatch :: "string \<Rightarrow> io_error" where
  "protocol_mismatch i = Other (''link '' @ quoted i @ '' mode/stream_id mismatch (protocol error)'')"

definition count_relay :: "string \<Rightarrow> 'c conn_env \<Rightarrow> 'c server \<Rightarrow> 'c server" where
  "count_relay i env srv = srv\<lparr>srv_state := relay_on i (env_copied env) (srv_state srv)\<rparr>"

definition serve_forward ::
  "link_config \<Rightarrow> 'c conn_env \<Rightarrow> 'c server \<Rightarrow> 'c outcome \<times> 'c server" where
  "serve_forward link env srv =
     (case link_target link of
        None \<Rightarrow> (Panicked ''validated: forward link on server has target'', srv)
      | Some target \<Rightarrow>
         (case env_dial env target of
            Inl e \<Rightarrow> (Failed e, srv)
          | Inr conn \<Rightarrow> (Relayed (link_id link) conn, count_relay (link_id link) env srv)))"

definition serve_reverse ::
  "link_config \<Rightarrow> u64 \<Rightarrow> 'c conn_env \<Rightarrow> 'c server \<Rightarrow> 'c outcome \<times> 'c server" where
  "serve_reverse link stream_id env srv =
     (case claim_stream stream_id (srv_streams srv) of
        (None, sts) \<Rightarrow> (Failed (unknown_stream stream_id (link_id link)), srv)
      | (Some conn, sts) \<Rightarrow>
          (Relayed (link_id link) conn,
           count_relay (link_id link) env (srv\<lparr>srv_streams := sts\<rparr>)))"

definition handle_hello ::
  "config \<Rightarrow> resolved_peer \<Rightarrow> stream_hello \<Rightarrow> 'c conn_env \<Rightarrow> 'c server \<Rightarrow> 'c outcome \<times> 'c server" where
  "handle_hello cfg peer hello env srv =
     (if hello_link_id hello \<notin> rp_links peer
      then (Failed (not_authorized (rp_name peer) (hello_link_id hello)), srv)
      else case find (\<lambda>l. link_id l = hello_link_id hello) (cfg_links cfg) of
        None \<Rightarrow> (Failed (unknown_link (hello_link_id hello)), srv)
      | Some link \<Rightarrow>
          if link_transport link \<noteq> Tcp then (Failed (not_a_tcp_link (link_id link)), srv)
          else if st_links (srv_state srv) (link_id link) = None
          then (Panicked ''state's link map is built from this same config'', srv)
          else case (link_mode link, hello_stream_id hello) of
            (Forward, None) \<Rightarrow> serve_forward link env srv
          | (Reverse, Some stream_id) \<Rightarrow> serve_reverse link stream_id env srv
          | _ \<Rightarrow> (Failed (protocol_mismatch (link_id link)), srv))"

definition drop_permit :: "'c server \<Rightarrow> 'c server" where
  "drop_permit srv = srv\<lparr>srv_limiter := release (srv_limiter srv)\<rparr>"

definition handle_data_connection ::
  "'hs snow \<Rightarrow> 'hs finisher \<Rightarrow> (io_error \<Rightarrow> string) \<Rightarrow> stream_hello reader \<Rightarrow> server_ctx \<Rightarrow>
     'c conn_env \<Rightarrow> 'c server \<Rightarrow> 'c outcome \<times> 'c server" where
  "handle_data_connection sn finish io_text hello_reader ctx env srv =
     (case data_handshake sn finish io_text ctx (handshake_in_time env) (env_bytes env) of
        Inl e \<Rightarrow> (Failed e, drop_permit srv)
      | Inr (peer_index, plain) \<Rightarrow>
          let srv = drop_permit srv in
          if \<not> hello_in_time env
          then (Failed (Timed_Out
                  ''peer completed the handshake but never sent a StreamHello''), srv)
          else case recv_json hello_reader plain of
            Inl e \<Rightarrow> (Failed e, srv)
          | Inr (hello, rest) \<Rightarrow>
              handle_hello (sctx_config ctx) (sctx_peers ctx ! peer_index) hello env srv)"

subsection \<open>The accept loops\<close>

definition rejected_line :: "palette \<Rightarrow> string \<Rightarrow> socket_addr \<Rightarrow> string" where
  "rejected_line pal chan_name addr =
     tagged (warn pal (chan_name @ '': rejected '' @ show_socket_addr addr @
       '' (too many recent handshake attempts)''))"

fun data_log :: "palette \<Rightarrow> (io_error \<Rightarrow> string) \<Rightarrow> socket_addr \<Rightarrow> 'c outcome \<Rightarrow> string list" where
  "data_log pal io_text addr (Failed e) =
     [tagged (err pal (''data connection from '' @ show_socket_addr addr @ '': '' @ io_text e))]"
| "data_log pal io_text addr _ = []"

text \<open>One accepted connection of the data channel, from the limiter to the end of its task.\<close>

definition data_accept ::
  "palette \<Rightarrow> 'hs snow \<Rightarrow> 'hs finisher \<Rightarrow> (io_error \<Rightarrow> string) \<Rightarrow> stream_hello reader \<Rightarrow> server_ctx \<Rightarrow>
     instant \<Rightarrow> instant \<Rightarrow> socket_addr \<Rightarrow> 'c conn_env \<Rightarrow> 'c server
     \<Rightarrow> 'c outcome option \<times> string list \<times> 'c server" where
  "data_accept pal sn finish io_text hello_reader ctx t1 t2 addr env srv =
     (let (granted, lim) = try_acquire t1 t2 (ip_of addr) (srv_limiter srv);
          srv = srv\<lparr>srv_limiter := lim\<rparr>
      in if \<not> granted then (None, [rejected_line pal ''data'' addr], srv)
         else let (out, srv) = handle_data_connection sn finish io_text hello_reader ctx env srv
              in (Some out, data_log pal io_text addr out, srv))"

text \<open>
  One accepted connection of the control channel: on success it is queued for the session loop
  with the peer's name.
\<close>

definition control_accept ::
  "palette \<Rightarrow> 'hs snow \<Rightarrow> 'hs finisher \<Rightarrow> (io_error \<Rightarrow> string) \<Rightarrow> server_ctx \<Rightarrow>
     instant \<Rightarrow> instant \<Rightarrow> socket_addr \<Rightarrow> 'c conn_env \<Rightarrow> 'c server
     \<Rightarrow> (socket_addr \<times> string) option \<times> string list \<times> 'c server" where
  "control_accept pal sn finish io_text ctx t1 t2 addr env srv =
     (let (granted, lim) = try_acquire t1 t2 (ip_of addr) (srv_limiter srv);
          srv = srv\<lparr>srv_limiter := lim\<rparr>
      in if \<not> granted then (None, [rejected_line pal ''control'' addr], srv)
         else let srv = drop_permit srv;
                  head = ''control: handshake with '' @ show_socket_addr addr
              in if \<not> handshake_in_time env
                 then (None, [tagged (warn pal (head @ '' timed out''))], srv)
                 else case server_handshake sn finish io_text ctx (env_bytes env) of
                   Inl e \<Rightarrow> (None, [tagged (err pal (head @ '' failed: '' @ e))], srv)
                 | Inr (peer_index, plain) \<Rightarrow>
                     (Some (addr, rp_name (sctx_peers ctx ! peer_index)), [], srv))"

subsection \<open>The control session\<close>

fun server_on_incoming :: handler where
  "server_on_incoming (Inr Ping) = Reply Pong"
| "server_on_incoming (Inr _) = Ignore"
| "server_on_incoming (Inl _) = Hang_Up"

definition server_session :: "control_message reader \<Rightarrow> bool \<Rightarrow> session_event list \<Rightarrow> session" where
  "server_session from_json send_ok es = session_run from_json send_ok server_on_incoming es"

text \<open>
  The loop over the authenticated connections, one session at a time: the status while the session
  runs and after it. \<open>now_unix\<close> is the wall clock when the session begins.
\<close>

definition session_status ::
  "u64 \<Rightarrow> socket_addr \<Rightarrow> string \<Rightarrow> control_status \<Rightarrow> control_status \<times> control_status" where
  "session_status now_unix addr name c =
     (let during = set_connected now_unix (show_socket_addr addr) (Some name) c
      in (during, set_disconnected during))"

fun serve_sessions ::
  "(u64 \<times> socket_addr \<times> string) list \<Rightarrow> control_status \<Rightarrow> control_status list" where
  "serve_sessions [] c = [c]"
| "serve_sessions ((now_unix, addr, name) # conns) c =
     (let (during, after) = session_status now_unix addr name c
      in c # during # serve_sessions conns after)"

lemmas server_defs = server_handshake_def data_handshake_def handle_hello_def serve_forward_def
  serve_reverse_def handle_data_connection_def drop_permit_def count_relay_def

subsection \<open>What a relayed connection was allowed to be\<close>

text \<open>The end of the pipeline, read backwards from a relay.\<close>

definition relay_allowed ::
  "config \<Rightarrow> resolved_peer \<Rightarrow> stream_hello \<Rightarrow> 'c conn_env \<Rightarrow> 'c server \<Rightarrow> string \<Rightarrow> 'c \<Rightarrow> bool" where
  "relay_allowed cfg peer hello env srv i conn \<longleftrightarrow>
     i = hello_link_id hello \<and> i \<in> rp_links peer \<and>
     (\<exists>link. find (\<lambda>l. link_id l = i) (cfg_links cfg) = Some link \<and> link_transport link = Tcp \<and>
        (link_mode link = Forward \<and> hello_stream_id hello = None \<and>
           (\<exists>target. link_target link = Some target \<and> env_dial env target = Inr conn) \<or>
         link_mode link = Reverse \<and>
           (\<exists>n. hello_stream_id hello = Some n \<and> pending (srv_streams srv) n = Some conn)))"

lemma serve_forward_relayed:
  "serve_forward link env srv = (Relayed i conn, srv') \<Longrightarrow>
     i = link_id link \<and> (\<exists>target. link_target link = Some target \<and> env_dial env target = Inr conn) \<and>
     srv_streams srv' = srv_streams srv \<and>
     srv_state srv' = relay_on i (env_copied env) (srv_state srv)"
  by (auto simp: serve_forward_def count_relay_def split: option.splits sum.splits)

lemma serve_reverse_relayed:
  "serve_reverse link n env srv = (Relayed i conn, srv') \<Longrightarrow>
     i = link_id link \<and> pending (srv_streams srv) n = Some conn \<and>
     srv_streams srv' = snd (claim_stream n (srv_streams srv)) \<and>
     srv_state srv' = relay_on i (env_copied env) (srv_state srv)"
  by (auto simp: serve_reverse_def claim_stream_def count_relay_def split: option.splits)

lemma handle_hello_relayed:
  assumes "handle_hello cfg peer hello env srv = (Relayed i conn, srv')"
  shows "relay_allowed cfg peer hello env srv i conn"
proof -
  obtain link where link: "find (\<lambda>l. link_id l = hello_link_id hello) (cfg_links cfg) = Some link"
    and auth: "hello_link_id hello \<in> rp_links peer" and tcp: "link_transport link = Tcp"
    using assms by (auto simp: handle_hello_def split: if_splits option.splits)
  have same: "link_id link = hello_link_id hello" using find_SomeD [OF link] by simp
  show ?thesis
  proof (cases "link_mode link"; cases "hello_stream_id hello")
    assume c: "link_mode link = Forward" "hello_stream_id hello = None"
    then have "serve_forward link env srv = (Relayed i conn, srv')"
      using assms link auth tcp by (simp add: handle_hello_def split: if_splits)
    from serve_forward_relayed [OF this] show ?thesis
      using link auth tcp c same by (auto simp: relay_allowed_def)
  next
    fix n assume c: "link_mode link = Reverse" "hello_stream_id hello = Some n"
    then have "serve_reverse link n env srv = (Relayed i conn, srv')"
      using assms link auth tcp by (simp add: handle_hello_def split: if_splits)
    from serve_reverse_relayed [OF this] show ?thesis
      using link auth tcp c same by (auto simp: relay_allowed_def)
  qed (use assms link auth tcp in \<open>simp_all add: handle_hello_def split: if_splits\<close>)
qed

lemma match_peer_in_range:
  assumes "match_peer sn tcp k ps = (Inr (i, st), rest)"
  shows "i < length ps"
proof -
  have "match_peer_bytes sn (take (le_val (take 2 tcp)) (drop 2 tcp)) k ps = Inr (i, st)"
    using assms by (auto simp: match_peer_def Let_def split: if_splits)
  from position_Some [OF match_peer_bytes_first [OF this]] show ?thesis by simp
qed

lemma data_handshake_peer:
  assumes "data_handshake sn finish io_text ctx in_time tcp = Inr (i, plain)"
  obtains st rest where "match_peer sn tcp (sctx_private_key ctx) (sctx_peers ctx) = (Inr (i, st), rest)"
    and "finish st rest = Inr plain" and "i < length (sctx_peers ctx)" and "in_time"
  using assms
  by (auto simp: data_handshake_def server_handshake_def dest: match_peer_in_range
      split: if_splits sum.splits prod.splits)

lemma drop_permit_streams: "srv_streams (drop_permit srv) = srv_streams srv"
  by (simp add: drop_permit_def)

lemma relayed_pipeline:
  assumes "handle_data_connection sn finish io_text hello_reader ctx env srv = (Relayed i conn, srv')"
  obtains peer_index plain hello rest where
    "data_handshake sn finish io_text ctx (handshake_in_time env) (env_bytes env) = Inr (peer_index, plain)"
    and "hello_in_time env" and "recv_json hello_reader plain = Inr (hello, rest)"
    and "relay_allowed (sctx_config ctx) (sctx_peers ctx ! peer_index) hello env srv i conn"
proof -
  obtain peer_index plain hello rest where
    h: "data_handshake sn finish io_text ctx (handshake_in_time env) (env_bytes env) =
        Inr (peer_index, plain)" "hello_in_time env"
       "recv_json hello_reader plain = Inr (hello, rest)"
       "handle_hello (sctx_config ctx) (sctx_peers ctx ! peer_index) hello env (drop_permit srv) =
        (Relayed i conn, srv')"
    using assms by (auto simp: handle_data_connection_def Let_def split: sum.splits if_splits)
  have "relay_allowed (sctx_config ctx) (sctx_peers ctx ! peer_index) hello env srv i conn"
    using handle_hello_relayed [OF h(4)] unfolding relay_allowed_def drop_permit_streams .
  then show ?thesis using that h(1-3) by blast
qed

subsection \<open>Panics, permits and failures\<close>

lemma find_valid_link:
  assumes "\<forall>l \<in> set ls. valid_link Server l" and "find p ls = Some l"
  shows "valid_link Server l" and "l \<in> set ls"
  using assms find_SomeD [OF assms(2)] by auto

lemma forward_target: "valid_link Server l \<Longrightarrow> link_mode l = Forward \<Longrightarrow> link_target l \<noteq> None"
  by (auto simp: valid_link_def link_needs_listen_def valid_addr_def split: option.splits)

lemma reverse_listen: "valid_link Server l \<Longrightarrow> link_mode l = Reverse \<Longrightarrow> link_listen l \<noteq> None"
  by (auto simp: valid_link_def link_needs_listen_def valid_addr_def split: option.splits)

lemma handle_hello_no_panic:
  assumes "\<forall>l \<in> set (cfg_links cfg). valid_link Server l" and "has_links cfg (srv_state srv)"
  shows "fst (handle_hello cfg peer hello env srv) \<noteq> Panicked msg"
proof (cases "find (\<lambda>l. link_id l = hello_link_id hello) (cfg_links cfg)")
  case (Some link)
  note v = find_valid_link [OF assms(1) Some]
  have "st_links (srv_state srv) (link_id link) \<noteq> None"
    using assms(2) v(2) by (auto simp: has_links_def)
  then show ?thesis
    using Some forward_target [OF v(1)]
    by (cases "link_mode link"; cases "hello_stream_id hello")
      (auto simp: handle_hello_def serve_forward_def serve_reverse_def
        split: sum.split option.split prod.split)
qed (simp add: handle_hello_def)

lemma no_panic:
  assumes "\<forall>l \<in> set (cfg_links (sctx_config ctx)). valid_link Server l"
    and "has_links (sctx_config ctx) (srv_state srv)"
  shows "fst (handle_data_connection sn finish io_text hello_reader ctx env srv) \<noteq> Panicked msg"
proof -
  have "has_links (sctx_config ctx) (srv_state (drop_permit srv))"
    using assms(2) by (simp add: drop_permit_def)
  note quiet = handle_hello_no_panic [OF assms(1) this]
  show ?thesis by (auto simp: handle_data_connection_def Let_def quiet split: sum.split)
qed

lemma handle_hello_limiter: "srv_limiter (snd (handle_hello cfg peer hello env srv)) = srv_limiter srv"
  by (simp add: handle_hello_def serve_forward_def serve_reverse_def count_relay_def
      split: option.split sum.split link_mode.split prod.split)

lemma permit_returned:
  "srv_limiter (snd (handle_data_connection sn finish io_text hello_reader ctx env srv)) =
     release (srv_limiter srv)"
  by (simp add: handle_data_connection_def Let_def handle_hello_limiter drop_permit_def
      split: sum.split)

lemma handle_hello_failed:
  "handle_hello cfg peer hello env srv = (Failed e, srv') \<Longrightarrow> srv' = srv"
  by (auto simp: handle_hello_def serve_forward_def serve_reverse_def
      split: if_splits option.splits sum.splits link_mode.splits prod.splits)

lemma failed_no_effect:
  "handle_data_connection sn finish io_text hello_reader ctx env srv = (Failed e, srv') \<Longrightarrow>
     srv' = drop_permit srv"
  by (auto simp: handle_data_connection_def Let_def dest: handle_hello_failed
      split: sum.splits if_splits)

text \<open>A connection that was accepted and has ended left the permits of the limiter as they were.\<close>

lemma permits_balanced:
  "permits (srv_limiter (snd (snd
     (data_accept pal sn finish io_text hello_reader ctx t1 t2 addr env srv)))) =
   permits (srv_limiter srv)"
proof -
  obtain g lim where a: "try_acquire t1 t2 (ip_of addr) (srv_limiter srv) = (g, lim)"
    by (cases "try_acquire t1 t2 (ip_of addr) (srv_limiter srv)")
  let ?srv = "srv\<lparr>srv_limiter := lim\<rparr>"
  obtain out srv' where
    h: "handle_data_connection sn finish io_text hello_reader ctx env ?srv = (out, srv')"
    by (cases "handle_data_connection sn finish io_text hello_reader ctx env ?srv")
  have "srv_limiter srv' = release lim"
    using permit_returned [of sn finish io_text hello_reader ctx env ?srv] h by simp
  then show ?thesis
    using try_acquire_permits [OF a] a h by (cases g) (simp_all add: data_accept_def release_def)
qed

lemma control_permits_balanced:
  "permits (srv_limiter (snd (snd
     (control_accept pal sn finish io_text ctx t1 t2 addr env srv)))) = permits (srv_limiter srv)"
proof -
  obtain g lim where a: "try_acquire t1 t2 (ip_of addr) (srv_limiter srv) = (g, lim)"
    by (cases "try_acquire t1 t2 (ip_of addr) (srv_limiter srv)")
  show ?thesis
    using try_acquire_permits [OF a] a
    by (cases g) (simp_all add: control_accept_def drop_permit_def release_def Let_def split: sum.split)
qed

subsection \<open>Startup and sessions\<close>

lemma reverse_listeners_Some:
  assumes "\<forall>l \<in> set ls. valid_link Server l"
  shows "reverse_listeners ls =
    Some (map (\<lambda>l. (link_id l, the (link_listen l)))
           (filter (\<lambda>l. link_transport l = Tcp \<and> link_mode l = Reverse) ls))"
  using assms
proof (induction ls)
  case (Cons l ls)
  then show ?case using reverse_listen [of l] by (auto split: option.split)
qed simp

lemma never_hangs_up_server: "never_hangs_up server_on_incoming"
proof -
  have "server_on_incoming (Inr m) \<noteq> Hang_Up" for m by (cases m) simp_all
  then show ?thesis by (simp add: never_hangs_up_def)
qed

fun server_sent :: "traffic \<Rightarrow> control_message list" where
  "server_sent (Frames ms) = map (\<lambda>_. Pong) (filter (\<lambda>m. m = Ping) ms)"
| "server_sent (Interrupt m) = [m]"

lemma server_handle_all:
  "handle_all True server_on_incoming ms s =
     s\<lparr>outgoing := outgoing s @ map (\<lambda>_. Pong) (filter (\<lambda>m. m = Ping) ms)\<rparr>"
proof (induction ms arbitrary: s)
  case (Cons m ms)
  then show ?case by (cases m) (simp_all add: handle_all_def send_on_def)
qed (simp add: handle_all_def)

lemma server_traffic:
  "fold (traffic_effect server_on_incoming) ts s =
     s\<lparr>outgoing := outgoing s @ concat (map server_sent ts)\<rparr>"
proof (induction ts arbitrary: s)
  case (Cons t ts)
  then show ?case by (cases t) (simp_all add: server_handle_all send_on_def)
qed simp

lemma serve_sessions_ends: "conns \<noteq> [] \<Longrightarrow> \<not> connected (last (serve_sessions conns c))"
proof (induction conns arbitrary: c)
  case (Cons x conns)
  have ne: "serve_sessions conns c' \<noteq> []" for c'
    by (cases conns) (auto simp: Let_def split: prod.splits)
  obtain now addr name where x: "x = (now, addr, name)" by (cases x)
  show ?case
  proof (cases "conns = []")
    case True
    then show ?thesis by (simp add: x session_status_def set_disconnected_def Let_def)
  next
    case False
    then show ?thesis using Cons.IH [OF False] ne by (simp add: x session_status_def Let_def)
  qed
qed simp

end
