(* ===== verification/Client_Role.thy ===== *)
theory Client_Role
  imports Stats Session Peer_Match Theme
begin

section \<open>The client role (\<open>client.rs\<close>)\<close>

text \<open>
  The client only dials: the control connection, with a reconnect loop and exponential backoff,
  and one data tunnel per local connection (forward links) or per \<open>OpenStream\<close> of the server
  (reverse links). What the network does during one dial is a record \<open>dial_env\<close>. The reconnect
  loop never returns; it is given as the fold of its body over the outcomes of the attempts.
\<close>

subsection \<open>State and startup\<close>

record client_ctx =
  cctx_config :: config
  cctx_private_key :: bytes
  cctx_peer_key :: bytes

datatype 'a call = Returns 'a | Panics string

fun forward_listeners :: "link_config list \<Rightarrow> (string \<times> string) list option" where
  "forward_listeners [] = Some []"
| "forward_listeners (l # ls) =
     (if link_transport l \<noteq> Tcp then forward_listeners ls
      else if link_mode l = Forward
      then (case link_listen l of None \<Rightarrow> None
            | Some addr \<Rightarrow> map_option ((#) (link_id l, addr)) (forward_listeners ls))
      else forward_listeners ls)"

text \<open>What \<open>run\<close> starts: the forward listeners and the control loop's address.\<close>

definition run_client :: "config \<Rightarrow> ((string \<times> string) list \<times> string) option" where
  "run_client cfg =
     (case forward_listeners (cfg_links cfg) of None \<Rightarrow> None
      | Some ls \<Rightarrow> map_option (Pair ls) (server_control_addr cfg))"

subsection \<open>Dialling\<close>

record 'hs dial_env =
  connect_error :: "string \<Rightarrow> io_error option" \<comment> \<open>\<open>None\<close>: connected\<close>
  noise_error :: "'hs \<Rightarrow> string option"
  noise_in_time :: bool
  write_error :: "io_error option"
  dial_copied :: "string + u64 \<times> u64"

definition open_tunnel ::
  "'hs snow \<Rightarrow> client_ctx \<Rightarrow> string \<Rightarrow> 'hs dial_env \<Rightarrow> io_error option" where
  "open_tunnel sn ctx addr env =
     (case connect_error env addr of Some e \<Rightarrow> Some e
      | None \<Rightarrow>
         (case initiator sn (cctx_private_key ctx) (cctx_peer_key ctx) of
            Inl e \<Rightarrow> Some (Other e)
          | Inr hs \<Rightarrow>
              if \<not> noise_in_time env then Some (Timed_Out ''handshake timed out'')
              else map_option Other (noise_error env hs)))"

text \<open>\<open>connect_control\<close>: \<open>None\<close> is success.\<close>

definition connect_control ::
  "'hs snow \<Rightarrow> client_ctx \<Rightarrow> string \<Rightarrow> 'hs dial_env \<Rightarrow> io_error option" where
  "connect_control sn ctx addr env = open_tunnel sn ctx addr env"

text \<open>
  \<open>dial_data_tunnel_and_relay\<close>: the error or the bytes written at the start of the tunnel, and the
  shared state after the relay.
\<close>

definition dial_data_tunnel_and_relay ::
  "'hs snow \<Rightarrow> stream_hello writer \<Rightarrow> client_ctx \<Rightarrow> string \<Rightarrow> u64 option \<Rightarrow> 'hs dial_env \<Rightarrow>
     shared_state \<Rightarrow> (io_error + string) call \<times> shared_state" where
  "dial_data_tunnel_and_relay sn hello_writer ctx i stream_id env st =
     (case server_data_addr (cctx_config ctx) of
        None \<Rightarrow> (Panics ''validated: client role requires server_data_addr'', st)
      | Some addr \<Rightarrow>
         (case open_tunnel sn ctx addr env of
            Some e \<Rightarrow> (Returns (Inl e), st)
          | None \<Rightarrow>
             (case send_json hello_writer \<lparr>hello_link_id = i, hello_stream_id = stream_id\<rparr> of
                Inl e \<Rightarrow> (Returns (Inl e), st)
              | Inr bs \<Rightarrow>
                 (case write_error env of
                    Some e \<Rightarrow> (Returns (Inl e), st)
                  | None \<Rightarrow>
                      if st_links st i = None
                      then (Panics ''state's link map is built from this same config'', st)
                      else (Returns (Inr bs), relay_on i (dial_copied env) st)))))"

text \<open>One local connection of a forward listener, with the log lines it leaves.\<close>

definition forward_conn ::
  "palette \<Rightarrow> (io_error \<Rightarrow> string) \<Rightarrow> 'hs snow \<Rightarrow> stream_hello writer \<Rightarrow> client_ctx \<Rightarrow> string \<Rightarrow>
     socket_addr \<Rightarrow> 'hs dial_env \<Rightarrow> shared_state \<Rightarrow> string list \<times> shared_state" where
  "forward_conn pal io_text sn hello_writer ctx i addr env st =
     (case dial_data_tunnel_and_relay sn hello_writer ctx i None env st of
        (Returns (Inl e), st') \<Rightarrow>
          ([link_line pal i (err pal (show_socket_addr addr @ '': '' @ io_text e))], st')
      | (_, st') \<Rightarrow> ([], st'))"

text \<open>
  A forward listener: what it prints before its first accept, at every failed accept, and the
  connections it spawns a dial for, in order. A failed bind ends it; a failed accept does not.
\<close>

datatype 'c accept_event = Accept_Failed string | Local_Conn 'c
  | Relay_Failed socket_addr string

fun accept_loop :: "(string \<Rightarrow> string) \<Rightarrow> 'c accept_event list \<Rightarrow> string list \<times> 'c list" where
  "accept_loop line [] = ([], [])"
| "accept_loop line (Accept_Failed e # evs) =
     (let (ls, cs) = accept_loop line evs in (line (''accept failed: '' @ e) # ls, cs))"
| "accept_loop line (Local_Conn c # evs) =
     (let (ls, cs) = accept_loop line evs in (ls, c # cs))"
| "accept_loop line (Relay_Failed peer e # evs) =
     (let (ls, cs) = accept_loop line evs in (line (show_socket_addr peer @ '': '' @ e) # ls, cs))"

definition forward_listener ::
  "palette \<Rightarrow> string \<Rightarrow> string \<Rightarrow> string option \<Rightarrow> 'c accept_event list \<Rightarrow> string list \<times> 'c list" where
  "forward_listener pal i listen_addr bind_error evs =
     (case bind_error of
        Some e \<Rightarrow> ([link_line pal i (err pal (''failed to bind '' @ listen_addr @ '': '' @ e))], [])
      | None \<Rightarrow>
         (let (ls, cs) = accept_loop (\<lambda>msg. link_line pal i (err pal msg)) evs
          in (link_line pal i (ok pal (''listening on '' @ listen_addr @ '' (forward)'')) # ls, cs)))"

text \<open>No accepted connection is lost, whatever fails around it.\<close>

lemma forward_listener_accepts:
  "snd (forward_listener pal i listen_addr None evs) =
     List.map_filter (\<lambda>ev. case ev of Local_Conn c \<Rightarrow> Some c | _ \<Rightarrow> None) evs"
proof -
  have "snd (accept_loop line evs) =
      List.map_filter (\<lambda>ev. case ev of Local_Conn c \<Rightarrow> Some c | _ \<Rightarrow> None) evs" for line
    by (induction line evs rule: accept_loop.induct) (simp_all add: map_filter_simps split_beta Let_def)
  then show ?thesis by (simp add: forward_listener_def split_beta)
qed

subsection \<open>The control session\<close>

definition link_expects_reverse :: "config \<Rightarrow> string \<Rightarrow> bool" where
  "link_expects_reverse cfg i \<longleftrightarrow>
     list_ex (\<lambda>l. link_id l = i \<and> link_mode l = Reverse) (cfg_links cfg)"

fun client_on_incoming :: "config \<Rightarrow> handler" where
  "client_on_incoming cfg (Inr Pong) = Ignore"
| "client_on_incoming cfg (Inr Ping) = Reply Pong"
| "client_on_incoming cfg (Inr (OpenStream i n)) =
     (if link_expects_reverse cfg i then Spawn i n else Refuse i)"
| "client_on_incoming cfg (Inl _) = Hang_Up"

text \<open>The warning for a stream that is refused.\<close>

definition refused_line :: "palette \<Rightarrow> string \<Rightarrow> string" where
  "refused_line pal i =
     tagged (warn pal (''received OpenStream for unknown/non-reverse link '' @ quoted i @ '', ignoring''))"

text \<open>The other branch of the client's \<open>select!\<close> is the ping timer.\<close>

definition ping_tick :: session_event where
  "ping_tick = Other_Branch Ping"

definition client_session ::
  "control_message reader \<Rightarrow> bool \<Rightarrow> config \<Rightarrow> session_event list \<Rightarrow> session" where
  "client_session from_json send_ok cfg es = session_run from_json send_ok (client_on_incoming cfg) es"

text \<open>
  \<open>handle_open_stream\<close>: the lines it prints when it gives up before dialling the server, if the link
  has no target or the target cannot be reached; then the whole function, with what it wrote into the
  tunnel.
\<close>

definition stream_refused ::
  "palette \<Rightarrow> (io_error \<Rightarrow> string) \<Rightarrow> client_ctx \<Rightarrow> string \<Rightarrow> u64 \<Rightarrow> 'hs dial_env \<Rightarrow> string list option" where
  "stream_refused pal io_text ctx i stream_id env =
     (case find (\<lambda>l. link_id l = i) (cfg_links (cctx_config ctx)) of
        None \<Rightarrow> Some []
      | Some link \<Rightarrow>
         (case link_target link of
            None \<Rightarrow> Some [link_line pal i (err pal
              (''reverse link has no target configured, can't fulfill stream '' @ show_word stream_id))]
          | Some target \<Rightarrow>
             (case connect_error env target of
                Some e \<Rightarrow> Some [link_line pal i (err pal
                  (''failed to connect to target '' @ target @ '': '' @ io_text e))]
              | None \<Rightarrow> None)))"

definition stream_failed :: "palette \<Rightarrow> (io_error \<Rightarrow> string) \<Rightarrow> string \<Rightarrow> u64 \<Rightarrow> io_error \<Rightarrow> string list" where
  "stream_failed pal io_text i stream_id e =
     [link_line pal i (err pal (''stream '' @ show_word stream_id @ '': '' @ io_text e))]"

definition handle_open_stream ::
  "palette \<Rightarrow> (io_error \<Rightarrow> string) \<Rightarrow> 'hs snow \<Rightarrow> stream_hello writer \<Rightarrow> client_ctx \<Rightarrow> string \<Rightarrow> u64 \<Rightarrow>
     'hs dial_env \<Rightarrow> shared_state \<Rightarrow> string option \<times> string list \<times> shared_state" where
  "handle_open_stream pal io_text sn hello_writer ctx i stream_id env st =
     (case stream_refused pal io_text ctx i stream_id env of
        Some ls \<Rightarrow> (None, ls, st)
      | None \<Rightarrow>
         (case dial_data_tunnel_and_relay sn hello_writer ctx i (Some stream_id) env st of
            (Returns (Inl e), st') \<Rightarrow> (None, stream_failed pal io_text i stream_id e, st')
          | (Returns (Inr bs), st') \<Rightarrow> (Some bs, [], st')
          | (Panics msg, st') \<Rightarrow> (None, [], st')))"

subsection \<open>The reconnect loop\<close>

definition max_backoff :: duration where
  "max_backoff = secs 30"

record control_loop =
  backoff :: duration
  slept :: "duration list"
  statuses :: "control_status list"
  loop_log :: "string list"

definition start_loop :: "control_status \<Rightarrow> control_loop" where
  "start_loop c = \<lparr>backoff = secs 1, slept = [], statuses = [c], loop_log = []\<rparr>"

text \<open>An attempt fails, or connects (at a wall-clock time) and its session ends at some point.\<close>

datatype attempt = Connect_Failed io_error | Connected_At u64

definition sleep_backoff :: "control_loop \<Rightarrow> control_loop" where
  "sleep_backoff s =
     s\<lparr>slept := slept s @ [backoff s], backoff := min (backoff s * 2) max_backoff\<rparr>"

fun attempt_lines :: "palette \<Rightarrow> (io_error \<Rightarrow> string) \<Rightarrow> string \<Rightarrow> attempt \<Rightarrow> string list" where
  "attempt_lines pal io_text addr (Connect_Failed e) =
     [tagged (err pal (''control channel connect to '' @ addr @ '' failed: '' @ io_text e))]"
| "attempt_lines pal io_text addr (Connected_At now_unix) =
     [tagged (ok pal (''control channel connected to '' @ addr)),
      tagged (warn pal ''control channel disconnected, reconnecting...'')]"

fun control_iteration ::
  "palette \<Rightarrow> (io_error \<Rightarrow> string) \<Rightarrow> string \<Rightarrow> attempt \<Rightarrow> control_loop \<Rightarrow> control_loop" where
  "control_iteration pal io_text addr (Connect_Failed e) s =
     sleep_backoff (s\<lparr>loop_log := loop_log s @ attempt_lines pal io_text addr (Connect_Failed e)\<rparr>)"
| "control_iteration pal io_text addr (Connected_At now_unix) s =
     (let during = set_connected now_unix addr None (last (statuses s))
      in sleep_backoff
           (s\<lparr>backoff := secs 1, statuses := statuses s @ [during, set_disconnected during],
              loop_log := loop_log s @ attempt_lines pal io_text addr (Connected_At now_unix)\<rparr>))"

definition run_control_loop ::
  "palette \<Rightarrow> (io_error \<Rightarrow> string) \<Rightarrow> string \<Rightarrow> attempt list \<Rightarrow> control_status \<Rightarrow> control_loop" where
  "run_control_loop pal io_text addr attempts c = fold (control_iteration pal io_text addr) attempts (start_loop c)"

lemmas client_defs = open_tunnel_def dial_data_tunnel_and_relay_def handle_open_stream_def
  stream_refused_def forward_conn_def connect_control_def

subsection \<open>Backoff\<close>

text \<open>The \<open>k\<close>-th sleep since the last session (counting from 0).\<close>

definition backoff_at :: "nat \<Rightarrow> duration" where
  "backoff_at k = min (secs 1 * 2 ^ k) max_backoff"

lemma backoff_at_Suc: "min (backoff_at k * 2) max_backoff = backoff_at (Suc k)"
  by (auto simp: backoff_at_def min_def)

lemma failures_slept:
  "backoff s = backoff_at k \<Longrightarrow>
     slept (fold (control_iteration pal io_text addr) (map Connect_Failed es) s) =
       slept s @ map (\<lambda>i. backoff_at (k + i)) [0..<length es] \<and>
     backoff (fold (control_iteration pal io_text addr) (map Connect_Failed es) s) = backoff_at (k + length es)"
proof (induction es arbitrary: s k)
  case (Cons e es)
  let ?s = "control_iteration pal io_text addr (Connect_Failed e) s"
  have b: "backoff ?s = backoff_at (Suc k)" "slept ?s = slept s @ [backoff_at k]"
    using Cons.prems by (simp_all add: sleep_backoff_def backoff_at_Suc)
  show ?case
    using Cons.IH [OF b(1)] b(2) by (simp add: map_upt_Suc del: upt_Suc control_iteration.simps)
qed simp

lemma backoff_at_0: "backoff_at 0 = secs 1"
  by (simp add: backoff_at_def max_backoff_def secs_def)

lemma session_then_failures:
  "slept (fold (control_iteration pal io_text addr) (Connected_At now # map Connect_Failed es) s) =
     slept s @ map backoff_at [0..<Suc (length es)]"
proof -
  let ?s = "control_iteration pal io_text addr (Connected_At now) s"
  have "backoff ?s = backoff_at 1" "slept ?s = slept s @ [backoff_at 0]"
    using backoff_at_Suc [of 0] by (simp_all add: sleep_backoff_def backoff_at_0 Let_def)
  then show ?thesis
    using failures_slept [of ?s 1 pal io_text addr es]
    by (simp add: map_upt_Suc del: control_iteration.simps upt_Suc)
qed

lemma backoff_bounds: "secs 1 \<le> backoff_at k \<and> backoff_at k \<le> secs 30"
  by (simp add: backoff_at_def max_backoff_def secs_def)

lemma loop_statuses:
  assumes "statuses s \<noteq> []" and "\<not> connected (last (statuses s))"
  shows "statuses (fold (control_iteration pal io_text addr) as s) \<noteq> [] \<and>
    \<not> connected (last (statuses (fold (control_iteration pal io_text addr) as s)))"
  using assms
proof (induction as arbitrary: s)
  case (Cons a as)
  then show ?case
    by (cases a) (simp_all add: sleep_backoff_def Let_def set_disconnected_def)
qed simp

subsection \<open>Streams the client opens\<close>

lemma client_spawns_only: "spawns_only (link_expects_reverse cfg) (client_on_incoming cfg)"
proof -
  have "link_expects_reverse cfg l" if "client_on_incoming cfg r = Spawn l i" for r l i
    using that by (cases "(cfg, r)" rule: client_on_incoming.cases) (auto split: if_splits)
  then show ?thesis by (simp add: spawns_only_def)
qed

lemma never_hangs_up_client: "never_hangs_up (client_on_incoming cfg)"
proof -
  have "client_on_incoming cfg (Inr m) \<noteq> Hang_Up" for m by (cases m) simp_all
  then show ?thesis by (simp add: never_hangs_up_def)
qed

fun client_spawn :: "config \<Rightarrow> control_message \<Rightarrow> (string \<times> u64) list" where
  "client_spawn cfg (OpenStream i n) = (if link_expects_reverse cfg i then [(i, n)] else [])"
| "client_spawn cfg _ = []"

fun traffic_spawn :: "config \<Rightarrow> traffic \<Rightarrow> (string \<times> u64) list" where
  "traffic_spawn cfg (Frames ms) = concat (map (client_spawn cfg) ms)"
| "traffic_spawn cfg (Interrupt m) = []"

lemma client_handle_all:
  "spawned (handle_all True (client_on_incoming cfg) ms s) =
     spawned s @ concat (map (client_spawn cfg) ms)"
proof (induction ms arbitrary: s)
  case (Cons m ms)
  then show ?case by (cases m) (simp_all add: handle_all_def send_on_def)
qed (simp add: handle_all_def)

lemma client_traffic:
  "spawned (fold (traffic_effect (client_on_incoming cfg)) ts s) =
     spawned s @ concat (map (traffic_spawn cfg) ts)"
proof (induction ts arbitrary: s)
  case (Cons t ts)
  then show ?case by (cases t) (simp_all add: client_handle_all send_on_def)
qed simp

subsection \<open>Startup and panics\<close>

lemma client_forward_listen:
  "valid_link Client l \<Longrightarrow> link_mode l = Forward \<Longrightarrow> link_listen l \<noteq> None"
  by (auto simp: valid_link_def link_needs_listen_def valid_addr_def split: option.splits)

lemma client_reverse_target:
  "valid_link Client l \<Longrightarrow> link_mode l = Reverse \<Longrightarrow> link_target l \<noteq> None"
  by (auto simp: valid_link_def link_needs_listen_def valid_addr_def split: option.splits)

lemma forward_listeners_Some:
  assumes "\<forall>l \<in> set ls. valid_link Client l"
  shows "forward_listeners ls =
    Some (map (\<lambda>l. (link_id l, the (link_listen l)))
           (filter (\<lambda>l. link_transport l = Tcp \<and> link_mode l = Forward) ls))"
  using assms
proof (induction ls)
  case (Cons l ls)
  then show ?case using client_forward_listen [of l] by (auto split: option.split)
qed simp

lemma dial_no_panic:
  "server_data_addr (cctx_config ctx) \<noteq> None \<Longrightarrow> st_links st i \<noteq> None \<Longrightarrow>
     \<exists>r. fst (dial_data_tunnel_and_relay sn hello_writer ctx i n env st) = Returns r"
  by (auto simp: dial_data_tunnel_and_relay_def split: option.split sum.split)

lemma dial_hello:
  "dial_data_tunnel_and_relay sn hello_writer ctx i n env st = (Returns (Inr bs), st') \<Longrightarrow>
     send_json hello_writer \<lparr>hello_link_id = i, hello_stream_id = n\<rparr> = Inr bs \<and>
     st' = relay_on i (dial_copied env) st"
  by (auto simp: dial_data_tunnel_and_relay_def split: option.splits sum.splits if_splits)

end
