(* ===== verification/Udp.thy ===== *)
theory Udp
  imports Session Rate_Limit Peer_Match
begin

section \<open>UDP forwarding (\<open>ghostport-udp\<close>: \<open>server.rs\<close>, \<open>client.rs\<close>, \<open>poller.rs\<close>)\<close>

text \<open>
  Both roles demultiplex one socket by source address: a known address's datagram goes to that
  flow's channel of 16 with \<open>try_send\<close>, an unknown one may open a flow. That discipline is the
  interface \<open>flow_table\<close>; the server's session map and the client's flow map both provide it. The
  life of a session or flow after its creation is a function of what its socket delivers.
\<close>

subsection \<open>Interface: flows demultiplexed by source\<close>

type_synonym flows = "socket_addr \<rightharpoonup> string chan"

definition flow_channel :: "string chan" where
  "flow_channel = channel 16"

locale flow_table =
  fixes flows_of :: "'s \<Rightarrow> flows"
    and source :: "'e \<Rightarrow> socket_addr"
    and payload :: "'e \<Rightarrow> string"
    and datagram :: "'e \<Rightarrow> 's \<Rightarrow> 's \<times> 'spawn option"
  assumes others_untouched:
      "a \<noteq> source e \<Longrightarrow> flows_of (fst (datagram e s)) a = flows_of s a"
    and known_routed:
      "flows_of s (source e) = Some ch \<Longrightarrow>
         flows_of (fst (datagram e s)) (source e) = Some (snd (try_send (payload e) ch)) \<and>
         snd (datagram e s) = None"
    and unknown_opened:
      "flows_of s (source e) = None \<Longrightarrow>
         flows_of (fst (datagram e s)) (source e) =
           (if snd (datagram e s) = None then None else Some flow_channel)"
begin

definition bounded :: "'s \<Rightarrow> bool" where
  "bounded s \<longleftrightarrow> (\<forall>a ch. flows_of s a = Some ch \<longrightarrow> capacity ch = 16 \<and> length (queued ch) \<le> 16)"

lemma datagram_bounded:
  assumes "bounded s"
  shows "bounded (fst (datagram e s))"
proof -
  have "capacity ch = 16 \<and> length (queued ch) \<le> 16"
    if "flows_of (fst (datagram e s)) a = Some ch" for a ch
  proof (cases "a = source e")
    case False
    then show ?thesis using that assms others_untouched by (auto simp: bounded_def)
  next
    case True
    show ?thesis
    proof (cases "flows_of s (source e)")
      case None
      then show ?thesis using that True unknown_opened [OF None]
        by (auto simp: flow_channel_def channel_def split: if_splits)
    next
      case (Some ch')
      then have "capacity ch' = 16 \<and> length (queued ch') \<le> 16"
        using assms by (auto simp: bounded_def)
      then show ?thesis using that True known_routed [OF Some]
        by (auto simp: try_send_def split: if_splits)
    qed
  qed
  then show ?thesis by (auto simp: bounded_def)
qed

lemma run_bounded: "bounded s \<Longrightarrow> bounded (fold (\<lambda>e s. fst (datagram e s)) es s)"
  by (induction es arbitrary: s) (simp_all add: datagram_bounded)

text \<open>A flow is opened only where there was none: one live session for each source address.\<close>

lemma opened_once: "snd (datagram e s) \<noteq> None \<Longrightarrow> flows_of s (source e) = None"
  using known_routed [of s e] by (cases "flows_of s (source e)") auto

text \<open>A source that floods its channel changes nothing for another source.\<close>

lemma isolated:
  "\<forall>e \<in> set es. source e \<noteq> a \<Longrightarrow> flows_of (fold (\<lambda>e s. fst (datagram e s)) es s) a = flows_of s a"
  by (induction es arbitrary: s) (auto simp: others_untouched)

text \<open>As long as there is room, an established flow queues its datagrams in order.\<close>

lemma in_order:
  "flows_of s a = Some ch \<Longrightarrow> \<not> receiver_gone ch \<Longrightarrow> capacity ch = 16 \<Longrightarrow>
     \<forall>e \<in> set es. source e = a \<Longrightarrow> length (queued ch) + length es \<le> 16 \<Longrightarrow>
     flows_of (fold (\<lambda>e s. fst (datagram e s)) es s) a =
       Some (ch\<lparr>queued := queued ch @ map payload es\<rparr>)"
proof (induction es arbitrary: s ch)
  case (Cons e es)
  let ?ch = "ch\<lparr>queued := queued ch @ [payload e]\<rparr>"
  have "flows_of (fst (datagram e s)) a = Some ?ch"
    using Cons.prems known_routed [of s e ch] by (auto simp: try_send_def)
  then show ?case using Cons.IH [of "fst (datagram e s)" ?ch] Cons.prems by simp
qed simp

end

subsection \<open>The server's demultiplexer\<close>

record udp_server_ctx =
  uctx_config :: config
  uctx_private_key :: bytes
  uctx_peers :: "resolved_peer list"

record udp_server =
  sessions :: flows
  udp_limiter :: limiter

definition new_udp_server :: udp_server where
  "new_udp_server = \<lparr>sessions = Map.empty, udp_limiter = new_limiter\<rparr>"

text \<open>A datagram with the two clock readings of the limiter.\<close>

record recv_event =
  ev_t1 :: instant
  ev_t2 :: instant
  ev_src :: socket_addr
  ev_bytes :: string

definition server_datagram ::
  "'hs snow \<Rightarrow> udp_server_ctx \<Rightarrow> recv_event \<Rightarrow> udp_server
     \<Rightarrow> udp_server \<times> (socket_addr \<times> nat \<times> 'hs) option" where
  "server_datagram sn ctx ev s =
     (case sessions s (ev_src ev) of
        Some tx \<Rightarrow>
          (s\<lparr>sessions := (sessions s)(ev_src ev \<mapsto> snd (try_send (ev_bytes ev) tx))\<rparr>, None)
      | None \<Rightarrow>
          let (granted, lim) = try_acquire (ev_t1 ev) (ev_t2 ev) (ip_of (ev_src ev)) (udp_limiter s)
          in if \<not> granted then (s\<lparr>udp_limiter := lim\<rparr>, None)
             else case match_peer_bytes sn (ev_bytes ev) (uctx_private_key ctx) (uctx_peers ctx) of
               Inl e \<Rightarrow> (s\<lparr>udp_limiter := release lim\<rparr>, None)
             | Inr (peer_index, state) \<Rightarrow>
                 (s\<lparr>udp_limiter := release lim,
                    sessions := (sessions s)(ev_src ev \<mapsto> flow_channel)\<rparr>,
                  Some (ev_src ev, peer_index, state)))"

definition session_ended :: "socket_addr \<Rightarrow> udp_server \<Rightarrow> udp_server" where
  "session_ended src s = s\<lparr>sessions := (sessions s)(src := None)\<rparr>"

text \<open>
  \<open>run\<close> on the outcomes of \<open>recv_from\<close> so far: it has returned with an error, or it is still
  running (in particular when there is nothing to listen on).
\<close>

datatype 's progress = Running 's | Returned io_error

fun recv_loop ::
  "'hs snow \<Rightarrow> udp_server_ctx \<Rightarrow> (io_error + recv_event) list \<Rightarrow> udp_server \<Rightarrow> udp_server progress" where
  "recv_loop sn ctx [] s = Running s"
| "recv_loop sn ctx (Inl e # rs) s = Returned e"
| "recv_loop sn ctx (Inr ev # rs) s = recv_loop sn ctx rs (fst (server_datagram sn ctx ev s))"

definition run_udp_server ::
  "'hs snow \<Rightarrow> udp_server_ctx \<Rightarrow> (string \<Rightarrow> io_error option) \<Rightarrow> (io_error + recv_event) list
     \<Rightarrow> udp_server progress" where
  "run_udp_server sn ctx bind_error rs =
     (case listen_udp (uctx_config ctx) of
        None \<Rightarrow> Running new_udp_server
      | Some addr \<Rightarrow>
         (case bind_error addr of Some e \<Rightarrow> Returned e
          | None \<Rightarrow> recv_loop sn ctx rs new_udp_server))"

subsection \<open>One session of the server\<close>

record 'hs udp_env =
  reply_error :: "'hs \<Rightarrow> string option" \<comment> \<open>finishing the handshake\<close>
  first_packet :: "(string + string) timed" \<comment> \<open>the first \<open>noise_socket.recv()\<close>\<close>
  bind_target_error :: "string option"
  connect_target_error :: "string \<Rightarrow> string option"

datatype session_result = Serving string string \<comment> \<open>link id, target\<close>
  | Abandoned string \<comment> \<open>log line\<close> | Session_Panic

definition udp_line :: "string \<Rightarrow> string" where
  "udp_line msg = ''ghostport-udp: '' @ msg"

definition serve_udp_link ::
  "socket_addr \<Rightarrow> 'hs udp_env \<Rightarrow> link_config \<Rightarrow> session_result" where
  "serve_udp_link addr env link =
     (case link_target link of None \<Rightarrow> Session_Panic
      | Some target \<Rightarrow>
         (case bind_target_error env of
            Some e \<Rightarrow> Abandoned (udp_line (show_socket_addr addr @
              '': failed to bind target socket: '' @ e))
          | None \<Rightarrow>
             (case connect_target_error env target of
                Some e \<Rightarrow> Abandoned (udp_line (show_socket_addr addr @
                  '': failed to connect to target '' @ target @ '': '' @ e))
              | None \<Rightarrow> Serving (link_id link) target)))"

definition udp_hello ::
  "config \<Rightarrow> socket_addr \<Rightarrow> resolved_peer \<Rightarrow> 'hs udp_env \<Rightarrow> stream_hello \<Rightarrow> session_result" where
  "udp_hello cfg addr peer env hello =
     (case find (\<lambda>l. link_id l = hello_link_id hello) (cfg_links cfg) of
        None \<Rightarrow> Abandoned (udp_line (show_socket_addr addr @ '': unknown link id '' @
                  quoted (hello_link_id hello)))
      | Some link \<Rightarrow>
          if link_transport link \<noteq> Udp \<or> link_mode link \<noteq> Forward
          then Abandoned (udp_line (show_socket_addr addr @ '': link '' @ quoted (link_id link) @
                 '' isn't a UDP forward link''))
          else if link_id link \<notin> rp_links peer
          then Abandoned (udp_line (''peer '' @ quoted (rp_name peer) @
                 '' is not authorized for link '' @ quoted (link_id link)))
          else serve_udp_link addr env link)"

definition run_session ::
  "(string \<Rightarrow> string + stream_hello) \<Rightarrow> config \<Rightarrow> socket_addr \<Rightarrow> resolved_peer \<Rightarrow> 'hs \<Rightarrow> 'hs udp_env
     \<Rightarrow> session_result" where
  "run_session hello_reader cfg addr peer state env =
     (case reply_error env state of
        Some e \<Rightarrow> Abandoned (udp_line (''handshake with '' @ show_socket_addr addr @ '' ('' @
                    quoted (rp_name peer) @ '') failed: '' @ e))
      | None \<Rightarrow>
         (case first_packet env of
            Elapsed \<Rightarrow> Abandoned (udp_line (show_socket_addr addr @
              '': timed out waiting for a StreamHello after the handshake''))
          | In_Time (Inl e) \<Rightarrow> Abandoned (udp_line (show_socket_addr addr @
              '': didn't send a StreamHello: '' @ e))
          | In_Time (Inr bs) \<Rightarrow>
             (case hello_reader bs of
                Inl e \<Rightarrow> Abandoned (udp_line (show_socket_addr addr @
                  '': malformed StreamHello: '' @ e))
              | Inr hello \<Rightarrow> udp_hello cfg addr peer env hello)))"

subsection \<open>The relay loop of both roles\<close>

text \<open>
  One turn of the \<open>select!\<close>: something arrived \<open>gap\<close> nanoseconds after the previous turn, or the
  idle timer, armed anew at every turn, fired first. \<open>near\<close> is the tunnel, \<open>far\<close> the plain socket;
  failed sends are ignored by the code.
\<close>

definition idle_timeout :: duration where
  "idle_timeout = secs 60"

datatype relay_event = From_Near string | From_Far string | Near_Error | Far_Error

record relay_state =
  to_far :: "string list"
  to_near :: "string list"
  relaying :: bool

fun relay_turn :: "duration \<times> relay_event \<Rightarrow> relay_state \<Rightarrow> relay_state" where
  "relay_turn (gap, ev) s =
     (if \<not> relaying s then s
      else if idle_timeout \<le> gap then s\<lparr>relaying := False\<rparr>
      else case ev of
        From_Near bs \<Rightarrow> s\<lparr>to_far := to_far s @ [bs]\<rparr>
      | From_Far bs \<Rightarrow> s\<lparr>to_near := to_near s @ [bs]\<rparr>
      | _ \<Rightarrow> s\<lparr>relaying := False\<rparr>)"

definition relay_packets :: "(duration \<times> relay_event) list \<Rightarrow> relay_state" where
  "relay_packets evs = fold relay_turn evs \<lparr>to_far = [], to_near = [], relaying = True\<rparr>"

subsection \<open>The client\<close>

text \<open>\<open>run\<close>: one listener for each UDP forward link; it never returns.\<close>

fun udp_listeners :: "link_config list \<Rightarrow> (string \<times> string) list option" where
  "udp_listeners [] = Some []"
| "udp_listeners (l # ls) =
     (if link_transport l = Udp \<and> link_mode l = Forward
      then (case link_listen l of None \<Rightarrow> None
            | Some addr \<Rightarrow> map_option ((#) (link_id l, addr)) (udp_listeners ls))
      else udp_listeners ls)"

definition client_datagram ::
  "socket_addr \<times> string \<Rightarrow> flows \<Rightarrow> flows \<times> (socket_addr \<times> string) option" where
  "client_datagram ev flows =
     (case flows (fst ev) of
        Some tx \<Rightarrow> (flows(fst ev \<mapsto> snd (try_send (snd ev) tx)), None)
      | None \<Rightarrow> (flows(fst ev \<mapsto> flow_channel), Some ev))"

definition flow_ended :: "socket_addr \<Rightarrow> flows \<Rightarrow> flows" where
  "flow_ended src flows = flows(src := None)"

text \<open>
  One listener: the datagrams of its socket, failed receives, the receives of its flows from their
  channels, and their ends. It returns
  the lines printed, the flows started with their first datagram, and the map.
\<close>

datatype local_event = Recv_Failed string | Datagram socket_addr string
  | Flow_Reads socket_addr | Flow_Done socket_addr

fun forward_recv :: "string \<Rightarrow> local_event list \<Rightarrow> flows \<Rightarrow> string list \<times> (socket_addr \<times> string) list \<times> flows" where
  "forward_recv i [] flows = ([], [], flows)"
| "forward_recv i (Recv_Failed e # evs) flows =
     (let (ls, r) = forward_recv i evs flows
      in (udp_line (''['' @ i @ ''] recv failed: '' @ e) # ls, r))"
| "forward_recv i (Datagram src bytes # evs) flows =
     (let (flows', opened) = client_datagram (src, bytes) flows;
          (ls, started, last) = forward_recv i evs flows'
      in (ls, (case opened of None \<Rightarrow> started | Some f \<Rightarrow> f # started), last))"
| "forward_recv i (Flow_Reads src # evs) flows =
     forward_recv i evs (flows(src := map_option (\<lambda>tx. snd (recv_chan tx)) (flows src)))"
| "forward_recv i (Flow_Done src # evs) flows = forward_recv i evs (flow_ended src flows)"

definition udp_forward_listener ::
  "string \<Rightarrow> string \<Rightarrow> string option \<Rightarrow> local_event list \<Rightarrow> string list \<times> (socket_addr \<times> string) list \<times> flows" where
  "udp_forward_listener i listen_addr bind_error evs =
     (case bind_error of
        Some e \<Rightarrow> ([udp_line (''['' @ i @ ''] failed to bind '' @ listen_addr @ '': '' @ e)], [], Map.empty)
      | None \<Rightarrow>
         (let (ls, r) = forward_recv i evs Map.empty
          in (udp_line (''['' @ i @ ''] listening on '' @ listen_addr @ '' (forward)'') # ls, r)))"

record 'hs flow_env =
  open_error :: "string option"
  tunnel_error :: "string \<Rightarrow> string option"
  flow_noise :: "'hs \<Rightarrow> (string option) timed" \<comment> \<open>\<open>In_Time None\<close>: handshake done\<close>
  send_error :: "nat \<Rightarrow> bool" \<comment> \<open>whether the \<open>n\<close>-th send on the tunnel fails\<close>

datatype flow_result = Established "string list" \<comment> \<open>packets sent\<close> | Flow_Closed string | Flow_Panic

text \<open>\<open>run_flow\<close> up to its relay loop.\<close>

definition run_flow ::
  "'hs snow \<Rightarrow> (stream_hello \<Rightarrow> string + string) \<Rightarrow> config \<Rightarrow> bytes \<Rightarrow> bytes \<Rightarrow> string \<Rightarrow>
     socket_addr \<Rightarrow> string \<Rightarrow> 'hs flow_env \<Rightarrow> flow_result" where
  "run_flow sn hello_writer cfg private_key remote_key i addr first_datagram env =
     (let line = (\<lambda>msg. udp_line (''['' @ i @ ''] '' @ show_socket_addr addr @ '': '' @ msg)) in
      case server_udp_addr cfg of None \<Rightarrow> Flow_Panic
      | Some server \<Rightarrow>
        (case open_error env of Some e \<Rightarrow> Flow_Closed (line (''failed to open tunnel socket: '' @ e))
         | None \<Rightarrow>
        (case tunnel_error env server of
           Some e \<Rightarrow> Flow_Closed (line (''failed to connect to '' @ server @ '': '' @ e))
         | None \<Rightarrow>
        (case initiator sn private_key remote_key of Inl e \<Rightarrow> Flow_Closed (line e)
         | Inr hs \<Rightarrow>
        (case flow_noise env hs of
           Elapsed \<Rightarrow> Flow_Closed (line ''handshake timed out'')
         | In_Time (Some e) \<Rightarrow> Flow_Closed (line (''handshake failed: '' @ e))
         | In_Time None \<Rightarrow>
        (case hello_writer \<lparr>hello_link_id = i, hello_stream_id = None\<rparr> of
           Inl e \<Rightarrow> Flow_Closed []
         | Inr hello_bytes \<Rightarrow>
             if send_error env 0 then Flow_Closed (line ''failed to send StreamHello'')
             else if send_error env 1 then Flow_Closed []
             else Established [hello_bytes, first_datagram]))))))"

subsection \<open>The channel seen by a session (\<open>poller.rs\<close>)\<close>

text \<open>\<open>ReadBuf::put_slice\<close> panics when the datagram is longer than the room left.\<close>

datatype poll_result = Ready_Ok string | Ready_Eof | Pending | Poll_Panic

definition shared_poll_recv ::
  "nat \<Rightarrow> bool \<Rightarrow> string chan \<Rightarrow> poll_result \<times> string chan" where
  "shared_poll_recv room sender_gone ch =
     (case recv_chan ch of
        (Some d, ch') \<Rightarrow> (if length d \<le> room then Ready_Ok d else Poll_Panic, ch')
      | (None, ch') \<Rightarrow> (if sender_gone then Ready_Eof else Pending, ch'))"

lemmas udp_defs = server_datagram_def session_ended_def run_udp_server_def run_session_def
  udp_hello_def serve_udp_link_def client_datagram_def flow_ended_def run_flow_def

subsection \<open>Both maps are flow tables\<close>

interpretation server_flows: flow_table sessions ev_src ev_bytes "server_datagram sn ctx"
  by unfold_locales
    (auto simp: server_datagram_def Let_def split: option.splits prod.splits sum.splits)

interpretation client_flows: flow_table "\<lambda>s. s" fst snd client_datagram
  by unfold_locales (auto simp: client_datagram_def split: option.splits)

lemma new_server_bounded: "server_flows.bounded new_udp_server"
  by (simp add: server_flows.bounded_def new_udp_server_def)

text \<open>Sessions are only opened for a configured peer, and the permits of the limiter come back.\<close>

lemma opened_for_peer:
  assumes "snd (server_datagram sn ctx ev s) = Some (src, i, st)"
  shows "src = ev_src ev \<and>
    position (accepts sn (ev_bytes ev) (uctx_private_key ctx)) (uctx_peers ctx) = Some i"
proof -
  have "src = ev_src ev \<and> match_peer_bytes sn (ev_bytes ev) (uctx_private_key ctx) (uctx_peers ctx) =
      Inr (i, st)"
    using assms
    by (auto simp: server_datagram_def Let_def split: option.splits prod.splits sum.splits if_splits)
  then show ?thesis by (auto intro: match_peer_bytes_first)
qed

lemma datagram_permits:
  "permits (udp_limiter (fst (server_datagram sn ctx ev s))) = permits (udp_limiter s)"
proof -
  obtain g lim where a: "try_acquire (ev_t1 ev) (ev_t2 ev) (ip_of (ev_src ev)) (udp_limiter s) = (g, lim)"
    by (cases "try_acquire (ev_t1 ev) (ev_t2 ev) (ip_of (ev_src ev)) (udp_limiter s)")
  then show ?thesis
    using try_acquire_permits [OF a]
    by (auto simp: server_datagram_def release_def split: option.splits sum.splits)
qed

subsection \<open>Sessions\<close>

lemma udp_serving:
  assumes "run_session hello_reader cfg addr peer state env = Serving i target"
  shows "\<exists>bs hello link. first_packet env = In_Time (Inr bs) \<and> hello_reader bs = Inr hello \<and>
     i = hello_link_id hello \<and> i \<in> rp_links peer \<and> link \<in> set (cfg_links cfg) \<and> link_id link = i \<and>
     link_transport link = Udp \<and> link_mode link = Forward \<and> link_target link = Some target"
  using assms
  by (auto simp: run_session_def udp_hello_def serve_udp_link_def dest!: find_SomeD
      split: option.splits timed.splits sum.splits if_splits)

lemma udp_no_panic:
  assumes "\<forall>l \<in> set (cfg_links cfg). valid_link Server l"
  shows "run_session hello_reader cfg addr peer state env \<noteq> Session_Panic"
proof
  assume "run_session hello_reader cfg addr peer state env = Session_Panic"
  then obtain l where l: "l \<in> set (cfg_links cfg)" "link_mode l = Forward" "link_target l = None"
    by (auto simp: run_session_def udp_hello_def serve_udp_link_def dest!: find_SomeD
        split: option.splits timed.splits sum.splits if_splits)
  then show False
    using assms by (auto simp: valid_link_def link_needs_listen_def valid_addr_def)
qed

subsection \<open>Relaying\<close>

fun near_payloads :: "relay_event list \<Rightarrow> string list" where
  "near_payloads [] = []"
| "near_payloads (From_Near bs # evs) = bs # near_payloads evs"
| "near_payloads (_ # evs) = near_payloads evs"

fun far_payloads :: "relay_event list \<Rightarrow> string list" where
  "far_payloads [] = []"
| "far_payloads (From_Far bs # evs) = bs # far_payloads evs"
| "far_payloads (_ # evs) = far_payloads evs"

lemma relay_lossless:
  assumes "\<forall>(gap, ev) \<in> set evs. gap < idle_timeout \<and> ev \<noteq> Near_Error \<and> ev \<noteq> Far_Error"
    and "relaying s"
  shows "fold relay_turn evs s = s\<lparr>to_far := to_far s @ near_payloads (map snd evs),
      to_near := to_near s @ far_payloads (map snd evs)\<rparr>"
  using assms
proof (induction evs arbitrary: s)
  case (Cons e evs)
  obtain gap ev where e: "e = (gap, ev)" by (cases e)
  then show ?case using Cons by (cases ev) simp_all
qed simp

lemma relay_dead: "\<not> relaying s \<Longrightarrow> fold relay_turn evs s = s"
  by (induction evs) auto

lemma relay_idle:
  assumes "idle_timeout \<le> gap"
  shows "fold relay_turn ((gap, ev) # evs) s = s\<lparr>relaying := False\<rparr>"
proof -
  have "relay_turn (gap, ev) s = s\<lparr>relaying := False\<rparr>" using assms by simp
  then show ?thesis by (simp add: relay_dead del: relay_turn.simps)
qed

lemma relay_packets_lossless:
  assumes "\<forall>(gap, ev) \<in> set evs. gap < idle_timeout \<and> ev \<noteq> Near_Error \<and> ev \<noteq> Far_Error"
  shows "relay_packets evs = \<lparr>to_far = near_payloads (map snd evs),
      to_near = far_payloads (map snd evs), relaying = True\<rparr>"
  using relay_lossless [OF assms] by (simp add: relay_packets_def)

subsection \<open>What the client says first, the server serves\<close>

lemma established_hello:
  assumes "run_flow sn hello_writer cfg private_key remote_key i addr d env = Established ps"
  shows "\<exists>bs. hello_writer \<lparr>hello_link_id = i, hello_stream_id = None\<rparr> = Inr bs \<and> ps = [bs, d]"
  using assms
  by (auto simp: run_flow_def Let_def split: option.splits sum.splits timed.splits if_splits)

lemma flow_no_panic:
  "server_udp_addr cfg \<noteq> None \<Longrightarrow>
     run_flow sn hello_writer cfg private_key remote_key i addr d env \<noteq> Flow_Panic"
  by (auto simp: run_flow_def Let_def split: option.splits sum.splits timed.splits)

lemma udp_listeners_Some:
  assumes "\<forall>l \<in> set ls. valid_link Client l"
  shows "udp_listeners ls =
    Some (map (\<lambda>l. (link_id l, the (link_listen l)))
           (filter (\<lambda>l. link_transport l = Udp \<and> link_mode l = Forward) ls))"
  using assms
proof (induction ls)
  case (Cons l ls)
  then show ?case
    by (auto simp: valid_link_def link_needs_listen_def valid_addr_def split: option.splits)
qed simp

end
