(* ===== verification/Cli.thy ===== *)
theory Cli
  imports Server_Role Client_Role Udp
begin

section \<open>The command line and the status socket (\<open>main.rs\<close>, \<open>ipc.rs\<close>)\<close>

text \<open>
  \<open>keygen\<close>, \<open>check\<close>, \<open>run\<close> and \<open>status\<close>. The daemon's start is a function from the loaded file to
  what is started or the lines of the refusal; its end depends on which of the core and the UDP
  future returns. The environment variable \<open>HOME\<close> is an argument. Output is a list of lines.
\<close>

datatype exit_code = Success | Failure

subsection \<open>Paths\<close>

definition join_path :: "string \<Rightarrow> string \<Rightarrow> string" where
  "join_path a b =
     (if take 1 b = ''/'' then b
      else if a = [] \<or> last a = CHR ''/'' then a @ b else a @ ''/'' @ b)"

definition home_or_root :: "string option \<Rightarrow> string" where
  "home_or_root home = (case home of Some h \<Rightarrow> h | None \<Rightarrow> ''/'')"

definition expand_tilde :: "string option \<Rightarrow> string \<Rightarrow> string" where
  "expand_tilde home path =
     (if take 2 path = ''~/'' then join_path (home_or_root home) (drop 2 path) else path)"

definition default_socket_path :: "string option \<Rightarrow> string" where
  "default_socket_path home = join_path (home_or_root home) ''.local/state/ghostport/ghostport.sock''"

subsection \<open>keygen\<close>

definition keygen_report ::
  "palette \<Rightarrow> b64_encoder \<Rightarrow> (bytes \<Rightarrow> bytes) \<Rightarrow> string \<Rightarrow> string \<Rightarrow> keypair \<Rightarrow> string list" where
  "keygen_report pal b64_enc sha256 path pub_path kp =
     [''Private key saved to '' @ accent pal path @ '' (0600)'',
       ''Public key saved to  '' @ accent pal pub_path, [],
       ''Give this public key to the peer, for their config's `peer_public_key`:'',
       ''  '' @ emphasis pal (encode_public_key b64_enc (kp_public kp)), [],
       ''Fingerprint (read this aloud / compare side-by-side with the peer'',
       ''to catch a transcription error in the key above):'',
       ''  '' @ accent pal (fingerprint sha256 (kp_public kp))]"

definition run_keygen ::
  "palette \<Rightarrow> b64_encoder \<Rightarrow> (bytes \<Rightarrow> bytes) \<Rightarrow> fs_env \<Rightarrow> string option \<Rightarrow> string \<Rightarrow> keypair \<Rightarrow> fs
     \<Rightarrow> exit_code \<times> string list \<times> (string + fs)" where
  "run_keygen pal b64_enc sha256 env home out kp s =
     (let path = expand_tilde home out; pub_path = public_key_path path in
      case save_private_key b64_enc env path (kp_private kp) s of
        Inl e \<Rightarrow> (Failure, [tagged (''failed to save private key: '' @ e)], Inl e)
      | Inr s \<Rightarrow>
         (case save_public_key b64_enc env pub_path (kp_public kp) s of
            Inl e \<Rightarrow> (Failure, [tagged (''failed to save public key: '' @ e)], Inl e)
          | Inr s \<Rightarrow>
             (Success,
              keygen_report pal b64_enc sha256 path pub_path kp, Inr s)))"

subsection \<open>check\<close>

definition peer_fingerprint_line ::
  "palette \<Rightarrow> b64_decoder \<Rightarrow> (bytes \<Rightarrow> bytes) \<Rightarrow> peer_config \<Rightarrow> string list" where
  "peer_fingerprint_line pal b64_dec sha256 p =
     (case decode_public_key b64_dec (peer_key p) of
        Inl e \<Rightarrow> []
      | Inr k \<Rightarrow> [''  peer '' @ quoted (peer_name p) @ '' fingerprint: '' @
                  accent pal (fingerprint sha256 k) @ '' (links: '' @
                  join '', '' (peer_links p) @ '')''])"

definition fingerprint_lines ::
  "palette \<Rightarrow> b64_decoder \<Rightarrow> (bytes \<Rightarrow> bytes) \<Rightarrow> fs_env \<Rightarrow> fs \<Rightarrow> config \<Rightarrow> string list" where
  "fingerprint_lines pal b64_dec sha256 env s cfg =
     (case cfg_role cfg of
        Client \<Rightarrow>
          (case peer_public_key cfg of None \<Rightarrow> []
           | Some key \<Rightarrow>
              (case decode_public_key b64_dec key of Inl e \<Rightarrow> []
               | Inr k \<Rightarrow> [''  peer_public_key fingerprint: '' @ accent pal (fingerprint sha256 k)]))
      | Server \<Rightarrow> concat (map (peer_fingerprint_line pal b64_dec sha256) (cfg_peers cfg))) @
     (case read_to_string env (public_key_path (private_key_path cfg)) s of
        Inl e \<Rightarrow> []
      | Inr ls \<Rightarrow>
         (case decode_public_key b64_dec (trim ls) of
            Inl e \<Rightarrow> []
          | Inr k \<Rightarrow> [''  local identity fingerprint:  '' @ accent pal (fingerprint sha256 k)]))"

definition run_check ::
  "palette \<Rightarrow> b64_decoder \<Rightarrow> (bytes \<Rightarrow> bytes) \<Rightarrow> (string \<Rightarrow> string + config) \<Rightarrow> fs_env \<Rightarrow> string \<Rightarrow> fs
     \<Rightarrow> exit_code \<times> string list" where
  "run_check pal b64_dec sha256 toml_from env path s =
     (case load toml_from env path s of
        Inl e \<Rightarrow> (Failure, [tagged (err pal e)])
      | Inr cfg \<Rightarrow>
          let errors = validate b64_dec cfg in
          if errors = [] then
            (Success,
             [tagged (path @ '' is '' @ ok pal ''valid'' @ '' ('' @ debug_role (cfg_role cfg) @
                '' role, '' @ show_nat (length (cfg_links cfg)) @ '' link'' @
                (if length (cfg_links cfg) = 1 then [] else ''s'') @ '')''), []] @
             fingerprint_lines pal b64_dec sha256 env s cfg)
          else
            (Failure,
             tagged (path @ '' has '' @ show_nat (length errors) @ '' '' @
               err pal (if length errors = 1 then ''problem'' else ''problems'') @ '':'') #
             map (\<lambda>e. ''  - '' @ warn pal e) errors))"

subsection \<open>Starting the daemon\<close>

datatype started =
    Refused "string list"
  | Server_Started server_ctx udp_server_ctx
  | Client_Started client_ctx
  | Start_Panic

fun resolve_peers :: "b64_decoder \<Rightarrow> peer_config list \<Rightarrow> string + resolved_peer list" where
  "resolve_peers b64_dec [] = Inr []"
| "resolve_peers b64_dec (p # ps) =
     (case decode_public_key b64_dec (peer_key p) of
        Inl e \<Rightarrow> Inl (''peer '' @ quoted (peer_name p) @ '': '' @ e)
      | Inr k \<Rightarrow>
         (case resolve_peers b64_dec ps of
            Inl e \<Rightarrow> Inl e
          | Inr rs \<Rightarrow>
              Inr (\<lparr>rp_name = peer_name p, rp_public_key = k, rp_links = set (peer_links p)\<rparr> # rs)))"

definition start_role :: "b64_decoder \<Rightarrow> config \<Rightarrow> bytes \<Rightarrow> started" where
  "start_role b64_dec cfg priv =
     (case cfg_role cfg of
        Server \<Rightarrow>
          (case resolve_peers b64_dec (cfg_peers cfg) of
             Inl e \<Rightarrow> Refused [tagged e]
           | Inr peers \<Rightarrow> Server_Started
               \<lparr>sctx_config = cfg, sctx_private_key = priv, sctx_peers = peers\<rparr>
               \<lparr>uctx_config = cfg, uctx_private_key = priv, uctx_peers = peers\<rparr>)
      | Client \<Rightarrow>
          (case peer_public_key cfg of
             None \<Rightarrow> Start_Panic
           | Some key \<Rightarrow>
              (case decode_public_key b64_dec key of
                 Inl e \<Rightarrow> Refused [tagged (''peer_public_key: '' @ e)]
               | Inr k \<Rightarrow> Client_Started
                   \<lparr>cctx_config = cfg, cctx_private_key = priv, cctx_peer_key = k\<rparr>)))"

definition start_daemon ::
  "b64_decoder \<Rightarrow> (string \<Rightarrow> string + config) \<Rightarrow> fs_env \<Rightarrow> string \<Rightarrow> fs \<Rightarrow> started" where
  "start_daemon b64_dec toml_from env path s =
     (case load toml_from env path s of
        Inl e \<Rightarrow> Refused [tagged e]
      | Inr cfg \<Rightarrow>
          let errors = validate b64_dec cfg in
          if errors \<noteq> [] then
            Refused ([tagged (''refusing to start '' @ em_dash @ '' '' @ path @ '' has '' @
                        show_nat (length errors) @ '' problem(s):'')] @
                     map (\<lambda>e. ''  - '' @ e) errors @
                     [''(run `ghostport check '' @ path @ ''` for details)''])
          else case load_private_key b64_dec env (private_key_path cfg) s of
            Inl e \<Rightarrow> Refused [tagged e]
          | Inr priv \<Rightarrow> start_role b64_dec cfg priv)"

subsection \<open>The end of the daemon\<close>

datatype run_end = Still_Running | Ended "io_error option"

text \<open>
  \<open>server::run\<close> joins three tasks: the control and the data accept loop, which end only when their
  listener cannot be bound, and the status socket's task.
\<close>

definition server_end :: "bool \<Rightarrow> bool \<Rightarrow> bool \<Rightarrow> run_end" where
  "server_end control_bound data_bound ipc_serving =
     (if control_bound \<or> data_bound \<or> ipc_serving then Still_Running else Ended None)"

fun udp_end :: "'s progress \<Rightarrow> run_end" where
  "udp_end (Running s) = Still_Running"
| "udp_end (Returned e) = Ended (Some e)"

fun end_code :: "io_error option \<Rightarrow> exit_code" where
  "end_code None = Success"
| "end_code (Some e) = Failure"

text \<open>\<open>tokio::select!\<close> between the two futures, and the exit codes it can lead to.\<close>

definition daemon_exits :: "run_end \<Rightarrow> run_end \<Rightarrow> exit_code set" where
  "daemon_exits core udp = {end_code r | r. core = Ended r \<or> udp = Ended r}"

subsection \<open>The status socket\<close>

text \<open>
  \<open>run_ipc_server\<close> before its accept loop: whether it serves, and the store. Binding creates the
  socket's node with the default mode.
\<close>

definition ignore_error :: "fs \<Rightarrow> fs_result \<Rightarrow> fs" where
  "ignore_error s r = (case r of Inl e \<Rightarrow> s | Inr s' \<Rightarrow> s')"

definition remove_file :: "fs_env \<Rightarrow> string \<Rightarrow> fs \<Rightarrow> fs_result" where
  "remove_file env p s =
     (case env (Remove_File p) of Some e \<Rightarrow> Inl e
      | None \<Rightarrow> (case fs_files s p of None \<Rightarrow> Inl enoent
                 | Some f \<Rightarrow> Inr (s\<lparr>fs_files := (fs_files s)(p := None)\<rparr>)))"

definition bind_socket :: "fs_env \<Rightarrow> string \<Rightarrow> fs \<Rightarrow> fs_result" where
  "bind_socket env p s =
     (case fs_files s p of Some f \<Rightarrow> Inl ''Address already in use (os error 98)''
      | None \<Rightarrow> create_file env p s)"

definition run_ipc_server :: "fs_env \<Rightarrow> string \<Rightarrow> fs \<Rightarrow> bool \<times> fs" where
  "run_ipc_server env socket s =
     (case (case parent socket of None \<Rightarrow> Inr s
            | Some d \<Rightarrow>
               (case create_dir_all env d s of Inl e \<Rightarrow> Inl e
                | Inr s \<Rightarrow> Inr (ignore_error s (set_permissions env d 448 s)))) of
        Inl e \<Rightarrow> (False, s)
      | Inr s \<Rightarrow>
          let s = ignore_error s (remove_file env socket s) in
          (case bind_socket env socket s of
             Inl e \<Rightarrow> (False, s)
           | Inr s \<Rightarrow> (True, ignore_error s (set_permissions env socket 384 s))))"

text \<open>\<open>respond\<close> and \<open>query_status\<close>: the bytes of one connection and their reading.\<close>

definition respond :: "(status_snapshot \<Rightarrow> string + string) \<Rightarrow> status_snapshot \<Rightarrow> io_error + string" where
  "respond to_json snap = (case to_json snap of Inl e \<Rightarrow> Inl (Other e) | Inr bs \<Rightarrow> Inr bs)"

definition query_status ::
  "(string \<Rightarrow> string + status_snapshot) \<Rightarrow> string \<Rightarrow> string + (string + string) \<Rightarrow>
     string + status_snapshot" where
  "query_status from_json socket conn =
     (case conn of
        Inl e \<Rightarrow> Inl (''couldn't connect to '' @ socket @ '' ('' @ e @ '') '' @ em_dash @ '' is the daemon running?'')
      | Inr (Inl e) \<Rightarrow> Inl (''failed to read status: '' @ e)
      | Inr (Inr buf) \<Rightarrow>
         (case from_json buf of
            Inl e \<Rightarrow> Inl (''daemon sent an unparseable status: '' @ e)
          | Inr snap \<Rightarrow> Inr snap))"

subsection \<open>status\<close>

record status_palette = palette +
  purple :: string
  hot_pink :: string

definition link_row :: "status_palette \<Rightarrow> link_snapshot \<Rightarrow> string" where
  "link_row pal l =
     (let mode_color = (if snap_mode l = ''forward'' then cyan pal else hot_pink pal);
          active_padded = pad_left 7 (show_word (snap_active l));
          active = (if 0 < snap_active l then acid_green pal @ active_padded @ reset pal
                    else active_padded)
      in pad_right 14 (snap_id l) @ '' '' @ mode_color @ pad_right 9 (snap_mode l) @ reset pal @
         '' '' @ active @ '' '' @ pad_left 7 (show_word (snap_total l)) @ '' '' @
         orange pal @ pad_left 12 (show_word (snap_forward l)) @ reset pal @ '' '' @
         orange pal @ pad_left 12 (show_word (snap_back l)) @ reset pal)"

definition print_status :: "status_palette \<Rightarrow> status_snapshot \<Rightarrow> string list" where
  "print_status pal s =
     [''role: '' @ purple pal @ snap_role s @ reset pal @ ''   uptime: '' @ cyan pal @
      show_word (uptime_secs s) @ ''s'' @ reset pal @ ''   control channel: '' @
      (if snap_connected s then acid_green pal @ ''connected'' @ reset pal
       else red pal @ ''disconnected'' @ reset pal)] @
     (if snap_connected s then
        (case (snap_peer_addr s, connected_since_secs_ago s) of
           (Some addr, Some since) \<Rightarrow>
             [''  peer: '' @ addr @ ''  (connected '' @ show_word since @ ''s ago)'']
         | _ \<Rightarrow> [])
      else []) @
     [[],
      cyan pal @ pad_right 14 ''link'' @ '' '' @ pad_right 9 ''mode'' @ '' '' @
      pad_left 7 ''active'' @ '' '' @ pad_left 7 ''total'' @ '' '' @
      pad_left 12 ''bytes-fwd'' @ '' '' @ pad_left 12 ''bytes-back'' @ reset pal] @
     (if snap_links s = [] then [''(no links configured)''] else []) @
     map (link_row pal) (snap_links s)"

text \<open>
  \<open>run_status\<close> on the results of its queries so far: the output, and the exit code once it ends.
\<close>

definition clear_screen :: string where
  "clear_screen = CHR 0x1B # ''[2J'' @ CHR 0x1B # ''[H''"

definition status_output ::
  "status_palette \<Rightarrow> (status_snapshot \<Rightarrow> string) \<Rightarrow> bool \<Rightarrow> bool \<Rightarrow> status_snapshot \<Rightarrow> string list" where
  "status_output pal pretty watching json s =
     (if json then [pretty s] else (if watching then [clear_screen] else []) @ print_status pal s)"

fun run_status ::
  "status_palette \<Rightarrow> (status_snapshot \<Rightarrow> string) \<Rightarrow> bool \<Rightarrow> bool \<Rightarrow> (string + status_snapshot) list
     \<Rightarrow> string list \<times> exit_code option" where
  "run_status pal pretty watching json [] = ([], None)"
| "run_status pal pretty watching json (r # rs) =
     (let now = (case r of Inr s \<Rightarrow> status_output pal pretty watching json s
                 | Inl e \<Rightarrow> [tagged e])
      in if watching
         then (let (later, code) = run_status pal pretty watching json rs in (now @ later, code))
         else (now, Some (case r of Inl e \<Rightarrow> Failure | Inr s \<Rightarrow> Success)))"

lemmas cli_defs = start_daemon_def start_role_def run_check_def

subsection \<open>keygen\<close>

lemma keygen_ok:
  assumes "run_keygen pal b64_enc sha256 env home out kp s = (Success, ls, r)"
  obtains s1 s2 where "r = Inr s2"
    and "save_private_key b64_enc env (expand_tilde home out) (kp_private kp) s = Inr s1"
    and "save_public_key b64_enc env (public_key_path (expand_tilde home out)) (kp_public kp) s1 = Inr s2"
proof -
  let ?p = "expand_tilde home out"
  obtain s1 where s1: "save_private_key b64_enc env ?p (kp_private kp) s = Inr s1"
    using assms by (cases "save_private_key b64_enc env ?p (kp_private kp) s")
      (simp_all add: run_keygen_def Let_def)
  obtain s2 where s2: "save_public_key b64_enc env (public_key_path ?p) (kp_public kp) s1 = Inr s2"
    using assms s1 by (cases "save_public_key b64_enc env (public_key_path ?p) (kp_public kp) s1")
      (simp_all add: run_keygen_def Let_def)
  then have "r = Inr s2" using assms s1 s2 by (simp add: run_keygen_def Let_def)
  then show ?thesis by (rule that [OF _ s1 s2])
qed

lemma write_base64_line_others:
  "write_base64_line b64_enc env path bs s = Inr s' \<Longrightarrow> q \<noteq> path \<Longrightarrow> fs_files s' q = fs_files s q"
  by (auto simp: write_base64_line_def create_file_def write_all_def split: sum.splits option.splits)

lemma save_public_key_others:
  assumes "save_public_key b64_enc env path k s = Inr s'" and "q \<noteq> path"
  shows "fs_files s' q = fs_files s q"
proof -
  obtain s1 where d: "(case parent path of None \<Rightarrow> Inr s | Some d \<Rightarrow> create_dir_all env d s) = Inr s1"
    and w: "write_base64_line b64_enc env path k s1 = Inr s'"
    using assms(1) by (auto simp: save_public_key_def split: sum.splits)
  have "fs_files s1 = fs_files s"
    using d by (auto simp: create_dir_all_def split: option.splits if_splits)
  then show ?thesis using write_base64_line_others [OF w assms(2)] by simp
qed

lemma save_public_key_ok:
  assumes "save_public_key b64_enc env path k s = Inr s'"
  shows "\<exists>f. fs_files s' path = Some f \<and> f_data f = b64_enc k @ [CHR 10]"
  using assms write_base64_line_ok by (auto simp: save_public_key_def split: sum.splits)

lemma keygen_files:
  assumes "run_keygen pal b64_enc sha256 env home out kp s = (Success, ls, Inr s')"
  shows "fs_files s' (expand_tilde home out) =
      Some \<lparr>f_data = b64_enc (kp_private kp) @ [CHR 10], f_mode = 384\<rparr>"
    and "\<exists>f. fs_files s' (public_key_path (expand_tilde home out)) = Some f \<and>
      f_data f = b64_enc (kp_public kp) @ [CHR 10]"
proof -
  obtain s1 s2 where k: "Inr s' = (Inr s2 :: string + fs)"
    "save_private_key b64_enc env (expand_tilde home out) (kp_private kp) s = Inr s1"
    "save_public_key b64_enc env (public_key_path (expand_tilde home out)) (kp_public kp) s1 = Inr s2"
    by (rule keygen_ok [OF assms])
  have ne: "expand_tilde home out \<noteq> public_key_path (expand_tilde home out)"
    by (simp add: public_key_path_def)
  show "fs_files s' (expand_tilde home out) =
      Some \<lparr>f_data = b64_enc (kp_private kp) @ [CHR 10], f_mode = 384\<rparr>"
    using save_private_key_ok [OF k(2)] save_public_key_others [OF k(3) ne] k(1) by simp
  show "\<exists>f. fs_files s' (public_key_path (expand_tilde home out)) = Some f \<and>
      f_data f = b64_enc (kp_public kp) @ [CHR 10]"
    using save_public_key_ok [OF k(3)] k(1) by simp
qed

lemma keygen_private_loads:
  assumes "b64_lawful b64_enc b64_dec" and "length (kp_private kp) = 32"
    and "run_keygen pal b64_enc sha256 env home out kp s = (Success, ls, Inr s')"
    and "env (Read_File (expand_tilde home out)) = None"
  shows "load_private_key b64_dec env (expand_tilde home out) s' = Inr (kp_private kp)"
proof -
  have "trim (b64_enc (kp_private kp) @ [CHR 10]) = b64_enc (kp_private kp)"
    and "utf8 (b64_enc (kp_private kp))"
    using assms(1) by (simp_all add: b64_lawful_def)
  then show ?thesis
    using keygen_files(1) [OF assms(3)] assms(4) decode_encode [OF assms(1,2)]
    by (simp add: load_private_key_def read_to_string_def encode_public_key_def)
qed

subsection \<open>The daemon starts exactly on a valid config and a readable key\<close>

lemma resolve_peers_valid:
  "\<forall>p \<in> set ps. \<not> isl (decode_public_key b64_dec (peer_key p)) \<Longrightarrow>
     resolve_peers b64_dec ps =
       Inr (map (\<lambda>p. \<lparr>rp_name = peer_name p,
                     rp_public_key = projr (decode_public_key b64_dec (peer_key p)),
                     rp_links = set (peer_links p)\<rparr>) ps)"
  by (induction ps) (auto split: sum.split)

lemma resolve_peers_nth:
  assumes "resolve_peers b64_dec ps = Inr rs"
  shows "length rs = length ps \<and> (\<forall>i < length ps.
     rp_name (rs ! i) = peer_name (ps ! i) \<and> rp_links (rs ! i) = set (peer_links (ps ! i)) \<and>
     decode_public_key b64_dec (peer_key (ps ! i)) = Inr (rp_public_key (rs ! i)))"
  using assms
proof (induction ps arbitrary: rs)
  case (Cons p ps)
  then obtain k rs' where r: "decode_public_key b64_dec (peer_key p) = Inr k"
    "resolve_peers b64_dec ps = Inr rs'"
    "rs = \<lparr>rp_name = peer_name p, rp_public_key = k, rp_links = set (peer_links p)\<rparr> # rs'"
    by (auto split: sum.splits)
  from Cons.IH [OF r(2)] show ?case using r by (auto simp: nth_Cons split: nat.split)
qed simp

lemma valid_peers_decode:
  "valid_peers b64_dec cfg \<Longrightarrow> \<forall>p \<in> set (cfg_peers cfg). \<not> isl (decode_public_key b64_dec (peer_key p))"
  by (simp add: valid_peers_def decoded_keys_def)

lemma start_role_valid:
  assumes "valid_config b64_dec cfg"
  shows "(case start_role b64_dec cfg priv of
      Server_Started ctx uctx \<Rightarrow> cfg_role cfg = Server \<and> sctx_config ctx = cfg \<and>
        sctx_private_key ctx = priv \<and> resolve_peers b64_dec (cfg_peers cfg) = Inr (sctx_peers ctx) \<and>
        uctx_config uctx = cfg \<and> uctx_peers uctx = sctx_peers ctx
    | Client_Started ctx \<Rightarrow> cfg_role cfg = Client \<and> cctx_config ctx = cfg \<and>
        cctx_private_key ctx = priv
    | _ \<Rightarrow> False)"
proof (cases "cfg_role cfg")
  case Server
  then have "valid_peers b64_dec cfg" using assms by (simp add: valid_config_def valid_role_def)
  from resolve_peers_valid [OF valid_peers_decode [OF this]] show ?thesis
    using Server by (simp add: start_role_def)
next
  case Client
  then obtain key k where "peer_public_key cfg = Some key" "decode_public_key b64_dec key = Inr k"
    using assms by (auto simp: valid_config_def valid_role_def)
  then show ?thesis using Client by (simp add: start_role_def)
qed

lemma daemon_starts_iff:
  "(\<forall>ls. start_daemon b64_dec toml_from env path s \<noteq> Refused ls) \<longleftrightarrow>
     (\<exists>cfg priv. load toml_from env path s = Inr cfg \<and> valid_config b64_dec cfg \<and>
        load_private_key b64_dec env (private_key_path cfg) s = Inr priv)"
proof (cases "load toml_from env path s")
  case (Inr cfg)
  show ?thesis
  proof (cases "valid_config b64_dec cfg")
    case True
    show ?thesis
    proof (cases "load_private_key b64_dec env (private_key_path cfg) s")
      case (Inr priv)
      have "start_role b64_dec cfg priv \<noteq> Refused ls" for ls
        using start_role_valid [OF True, of priv] by (auto split: started.splits)
      then show ?thesis
        using Inr True \<open>load toml_from env path s = Inr cfg\<close>
        by (simp add: start_daemon_def Let_def validate_Nil_iff)
    qed (use True Inr in \<open>simp add: start_daemon_def Let_def validate_Nil_iff\<close>)
  qed (use Inr in \<open>simp add: start_daemon_def Let_def validate_Nil_iff\<close>)
qed (simp add: start_daemon_def)

lemma daemon_no_panic: "start_daemon b64_dec toml_from env path s \<noteq> Start_Panic"
proof
  assume "start_daemon b64_dec toml_from env path s = Start_Panic"
  then obtain cfg priv where "validate b64_dec cfg = []" "start_role b64_dec cfg priv = Start_Panic"
    by (auto simp: start_daemon_def Let_def split: sum.splits if_splits)
  then show False using start_role_valid [of b64_dec cfg priv] by (simp add: validate_Nil_iff)
qed

subsection \<open>The end of the daemon\<close>

lemma no_udp_never_ends:
  "listen_udp (uctx_config ctx) = None \<Longrightarrow> udp_end (run_udp_server sn ctx bind_error rs) = Still_Running"
  by (simp add: run_udp_server_def)

lemma daemon_exits_core: "udp = Still_Running \<Longrightarrow> daemon_exits core udp = {end_code r | r. core = Ended r}"
  by (simp add: daemon_exits_def)

subsection \<open>The status socket\<close>

lemma ipc_socket_mode:
  assumes "run_ipc_server env socket s = (True, s')" and "env (Set_Permissions socket 384) = None"
  shows "\<exists>f. fs_files s' socket = Some f \<and> f_mode f = 384"
proof -
  obtain s1 s2 where b: "bind_socket env socket s1 = Inr s2"
    and s': "s' = ignore_error s2 (set_permissions env socket 384 s2)"
    using assms(1) by (auto simp: run_ipc_server_def Let_def split: sum.splits)
  obtain f where "fs_files s2 socket = Some f"
    using b by (auto simp: bind_socket_def create_file_def split: option.splits)
  then show ?thesis using s' assms(2) by (simp add: ignore_error_def set_permissions_def)
qed

lemma ipc_serves:
  assumes "parent socket = Some d" and "d \<noteq> []" and "socket \<noteq> d"
  shows "fst (run_ipc_server willing socket s)"
proof -
  have "\<exists>s2. bind_socket willing socket (ignore_error s1 (remove_file willing socket s1)) = Inr s2"
    for s1
    by (cases "fs_files s1 socket")
      (simp_all add: remove_file_def ignore_error_def bind_socket_def create_file_def willing_def)
  then show ?thesis using assms
    by (auto simp: run_ipc_server_def create_dir_all_def willing_def Let_def
        split: sum.split option.split) (metis sum.distinct(1) willing_def)+
qed

lemma status_round_trip:
  assumes "respond to_json snap = Inr bs" and "\<And>bs. to_json snap = Inr bs \<Longrightarrow> from_json bs = Inr snap"
  shows "query_status from_json socket (Inr (Inr bs)) = Inr snap"
  using assms by (auto simp: respond_def query_status_def split: sum.splits)

lemma run_status_once:
  "run_status pal pretty False json (r # rs) =
     ((case r of Inr s \<Rightarrow> status_output pal pretty False json s | Inl e \<Rightarrow> [tagged e]),
      Some (case r of Inl e \<Rightarrow> Failure | Inr s \<Rightarrow> Success))"
  by simp

lemma run_status_watch_never_ends: "snd (run_status pal pretty True json rs) = None"
  by (induction rs) (simp_all add: case_prod_unfold Let_def)

end
