(* ===== verification/Detector.thy ===== *)
theory Detector
  imports Rate_Limit Theme
begin

unbundle bit_operations_syntax

section \<open>From log lines to offenses (\<open>ghostport-firewall\<close>: \<open>detector.rs\<close>)\<close>

text \<open>
  The firewall reads the daemon's journal. \<open>extract_offense\<close> strips the colour sequences and tries
  four regular expressions in order; each is a literal prefix, an address, and a literal suffix,
  and is written out here with the leftmost-first choice and the greedy, backtracking repetitions
  of the regex crate. \<open>\d\<close> there is any Unicode decimal digit: the number of bytes of a non-ASCII
  one at the head of a text is the parameter \<open>nd\<close>. The failure tracker is the second provider of
  the interface \<open>sliding_window\<close>.
\<close>

datatype offense = Rate_Limited | Handshake_Failed

subsection \<open>Colour sequences\<close>

definition esc :: char where
  "esc = char_of (27::nat)"

definition sgr_param :: "char \<Rightarrow> bool" where
  "sgr_param c \<longleftrightarrow> (48 \<le> byte c \<and> byte c \<le> 57) \<or> byte c = 59"

text \<open>The bytes matched by \<open>\x1b\[[0-9;]*m\<close> at the head, 0 if it does not match.\<close>

definition sgr_len :: "string \<Rightarrow> nat" where
  "sgr_len s =
     (case s of
        a # b # r \<Rightarrow>
          if a = esc \<and> b = CHR ''['' then
            let ps = takeWhile sgr_param r
            in (case drop (length ps) r of c # _ \<Rightarrow> if c = CHR ''m'' then length ps + 3 else 0
                | [] \<Rightarrow> 0)
          else 0
      | _ \<Rightarrow> 0)"

function strip_ansi :: "string \<Rightarrow> string" where
  "strip_ansi s =
     (if s = [] then []
      else if sgr_len s = 0 then hd s # strip_ansi (tl s)
      else strip_ansi (drop (sgr_len s) s))"
  by pat_completeness auto
termination
  by (relation "measure length") auto

declare strip_ansi.simps [simp del]

subsection \<open>The patterns\<close>

definition ip_char :: "char \<Rightarrow> bool" where
  "ip_char c \<longleftrightarrow> is_digit c \<or> (97 \<le> byte c \<and> byte c \<le> 102) \<or> (65 \<le> byte c \<and> byte c \<le> 70) \<or>
     c = CHR '':'' \<or> c = CHR ''.''"

definition digit_len :: "(string \<Rightarrow> nat) \<Rightarrow> string \<Rightarrow> nat" where
  "digit_len nd s =
     (case s of [] \<Rightarrow> 0
      | c # _ \<Rightarrow> if is_digit c then 1 else if byte c < 128 then 0 else nd s)"

definition starts_with :: "string \<Rightarrow> string \<Rightarrow> bool" where
  "starts_with p s \<longleftrightarrow> take (length p) s = p"

text \<open>\<open>\d+\<close> and the suffix.\<close>

function digits_suffix :: "(string \<Rightarrow> nat) \<Rightarrow> string \<Rightarrow> string \<Rightarrow> bool" where
  "digits_suffix nd suffix s =
     (if s = [] \<or> digit_len nd s = 0 then False
      else starts_with suffix (drop (digit_len nd s) s) \<or>
           digits_suffix nd suffix (drop (digit_len nd s) s))"
  by pat_completeness auto
termination
  by (relation "measure (\<lambda>(_, _, s). length s)") auto

declare digits_suffix.simps [simp del]

text \<open>\<open>\]?:\d+\<close> and the suffix.\<close>

definition port_suffix :: "(string \<Rightarrow> nat) \<Rightarrow> string \<Rightarrow> string \<Rightarrow> bool" where
  "port_suffix nd suffix s =
     (case s of [] \<Rightarrow> False
      | c # r \<Rightarrow>
          (c = CHR '']'' \<and> r \<noteq> [] \<and> hd r = CHR '':'' \<and> digits_suffix nd suffix (tl r)) \<or>
          (c = CHR '':'' \<and> digits_suffix nd suffix r))"

text \<open>The greedy \<open>[0-9a-fA-F:.]+\<close>: the longest run of address characters first.\<close>

definition capture_ip :: "(string \<Rightarrow> nat) \<Rightarrow> string \<Rightarrow> string \<Rightarrow> string option" where
  "capture_ip nd suffix s =
     map_option (\<lambda>k. take k s)
       (find (\<lambda>k. port_suffix nd suffix (drop k s)) (rev [1..<Suc (length (takeWhile ip_char s))]))"

definition capture_addr :: "(string \<Rightarrow> nat) \<Rightarrow> string \<Rightarrow> string \<Rightarrow> string option" where
  "capture_addr nd suffix s =
     (case s of
        [] \<Rightarrow> None
      | c # r \<Rightarrow>
          if c = CHR ''['' then
            (case capture_ip nd suffix r of Some ip \<Rightarrow> Some ip | None \<Rightarrow> capture_ip nd suffix s)
          else capture_ip nd suffix s)"

text \<open>The leftmost match.\<close>

fun captures :: "(string \<Rightarrow> nat) \<Rightarrow> string \<times> string \<Rightarrow> string \<Rightarrow> string option" where
  "captures nd (prefix, suffix) [] = None"
| "captures nd (prefix, suffix) (c # s) =
     (case (if starts_with prefix (c # s) then capture_addr nd suffix (drop (length prefix) (c # s))
            else None) of
        Some ip \<Rightarrow> Some ip
      | None \<Rightarrow> captures nd (prefix, suffix) s)"

definition too_many :: string where
  "too_many = '' (too many recent handshake attempts)''"

definition patterns :: "((string \<times> string) \<times> offense) list" where
  "patterns =
     [((''control: rejected '', too_many), Rate_Limited),
      ((''data: rejected '', too_many), Rate_Limited),
      ((''control: handshake with '', '' failed:''), Handshake_Failed),
      ((''ghostport-udp: handshake with '', '' (''), Handshake_Failed)]"

fun first_offense ::
  "(string \<Rightarrow> nat) \<Rightarrow> ((string \<times> string) \<times> offense) list \<Rightarrow> string \<Rightarrow> (ip_addr \<times> offense) option" where
  "first_offense nd [] clean = None"
| "first_offense nd ((pat, off) # ps) clean =
     (case captures nd pat clean of
        None \<Rightarrow> first_offense nd ps clean
      | Some ip_str \<Rightarrow>
         (case parse_ip_addr ip_str of
            Some ip \<Rightarrow> Some (ip, off)
          | None \<Rightarrow> first_offense nd ps clean))"

definition extract_offense :: "(string \<Rightarrow> nat) \<Rightarrow> string \<Rightarrow> (ip_addr \<times> offense) option" where
  "extract_offense nd line = first_offense nd patterns (strip_ansi line)"

subsection \<open>Addresses that are never banned\<close>

fun is_never_bannable :: "ip_addr \<Rightarrow> bool" where
  "is_never_bannable (V4 a b c d) \<longleftrightarrow>
     a = 127 \<or>
     a = 10 \<or> (a = 172 \<and> 16 \<le> b \<and> b \<le> 31) \<or> (a = 192 \<and> b = 168) \<or>
     (a = 169 \<and> b = 254)"
| "is_never_bannable (V6 segs) \<longleftrightarrow>
     segs = [0, 0, 0, 0, 0, 0, 0, 1] \<or> (segs ! 0) AND 0xfe00 = 0xfc00"

subsection \<open>The failure tracker\<close>

record tracker =
  tr_window :: duration
  threshold :: nat
  tr_history :: "ip_addr \<rightharpoonup> instant list"

definition new_tracker :: "duration \<Rightarrow> nat \<Rightarrow> tracker" where
  "new_tracker w n = \<lparr>tr_window = w, threshold = n, tr_history = Map.empty\<rparr>"

definition tracker_stale :: "duration \<Rightarrow> instant \<Rightarrow> instant \<Rightarrow> bool" where
  "tracker_stale w now t \<longleftrightarrow> w < duration_since now t"

definition failures_of :: "tracker \<Rightarrow> ip_addr \<Rightarrow> instant list" where
  "failures_of tr ip = (case tr_history tr ip of None \<Rightarrow> [] | Some ts \<Rightarrow> ts)"

definition record_failure :: "ip_addr \<Rightarrow> instant \<Rightarrow> tracker \<Rightarrow> bool \<times> tracker" where
  "record_failure ip now tr =
     (let entry = dropWhile (tracker_stale (tr_window tr) now) (failures_of tr ip @ [now])
      in (length entry = threshold tr, tr\<lparr>tr_history := (tr_history tr)(ip \<mapsto> entry)\<rparr>))"

definition forget :: "ip_addr \<Rightarrow> tracker \<Rightarrow> tracker" where
  "forget ip tr = tr\<lparr>tr_history := (tr_history tr)(ip := None)\<rparr>"

interpretation tracking: sliding_window "tracker_stale w"
  by unfold_locales (auto simp: tracker_stale_def duration_since_def)

subsection \<open>Stripping colours\<close>

definition no_esc :: "string \<Rightarrow> bool" where
  "no_esc s \<longleftrightarrow> esc \<notin> set s"

text \<open>A colour of the palette: nothing, or one SGR sequence.\<close>

definition is_sgr :: "string \<Rightarrow> bool" where
  "is_sgr s \<longleftrightarrow> s = [] \<or> (\<exists>ps. s = esc # CHR ''['' # ps @ ''m'' \<and> list_all sgr_param ps)"

lemma strip_ansi_Nil [simp]: "strip_ansi [] = []"
  by (simp add: strip_ansi.simps)

lemma strip_ansi_plain: "c \<noteq> esc \<Longrightarrow> strip_ansi (c # s) = c # strip_ansi s"
  by (simp add: strip_ansi.simps [of "c # s"] sgr_len_def split: list.split)

lemma strip_ansi_text: "no_esc t \<Longrightarrow> strip_ansi (t @ s) = t @ strip_ansi s"
  by (induction t) (auto simp: no_esc_def strip_ansi_plain)

lemma strip_ansi_sgr:
  assumes "is_sgr t"
  shows "strip_ansi (t @ s) = strip_ansi s"
proof (cases "t = []")
  case False
  then obtain ps where t: "t = esc # CHR ''['' # ps @ ''m''" "list_all sgr_param ps"
    using assms by (auto simp: is_sgr_def)
  have "\<not> sgr_param CHR ''m''" by (simp add: sgr_param_def byte_def)
  then have "takeWhile sgr_param (ps @ ''m'' @ s) = ps"
    using t(2) by (simp add: list_all_iff)
  then have len: "sgr_len (t @ s) = length ps + 3" by (simp add: sgr_len_def t(1))
  have rest: "drop (length ps + 3) (t @ s) = s" by (simp add: t(1) numeral_3_eq_3)
  have "strip_ansi (t @ s) = strip_ansi (drop (sgr_len (t @ s)) (t @ s))"
    using len False by (subst strip_ansi.simps) simp
  then show ?thesis unfolding len rest .
qed simp

lemma strip_painted:
  assumes "is_sgr colour" and "is_sgr stop" and "no_esc a" and "no_esc t"
  shows "strip_ansi (a @ colour @ t @ stop) = a @ t"
  using assms strip_ansi_sgr [of stop "[]"]
  by (simp add: strip_ansi_text strip_ansi_sgr)

lemma no_esc_append [simp]: "no_esc (a @ b) \<longleftrightarrow> no_esc a \<and> no_esc b"
  by (auto simp: no_esc_def)

lemma no_esc_show_word [simp]: "no_esc (show_word w)"
proof -
  have "\<not> is_digit esc" by (simp add: is_digit_def esc_def byte_char_of)
  then show ?thesis using show_nat_digits [of "unat w"] by (auto simp: no_esc_def show_word_def)
qed

lemma no_esc_lit: "list_all (\<lambda>c. c \<noteq> esc) s \<Longrightarrow> no_esc s"
  by (auto simp: no_esc_def list_all_iff)

subsection \<open>Reading an address off a line\<close>

lemma find_rev_upt:
  assumes "1 \<le> k" and "k \<le> n" and "p k" and "\<And>j. k < j \<Longrightarrow> j \<le> n \<Longrightarrow> \<not> p j"
  shows "find p (rev [1..<Suc n]) = Some k"
  using assms(2,4)
proof (induction n)
  case (Suc n)
  show ?case
  proof (cases "k = Suc n")
    case False
    then have "\<not> p (Suc n)" and "k \<le> n" using Suc.prems by auto
    then show ?thesis using Suc by simp
  qed (use assms(3) in simp)
qed (use assms(1) in simp)

lemma starts_with_append [simp]: "starts_with p (p @ s)"
  by (simp add: starts_with_def)

lemma digits_suffix_number:
  assumes "\<forall>c \<in> set ds. is_digit c" and "ds \<noteq> []" and "starts_with suffix r"
  shows "digits_suffix nd suffix (ds @ r)"
  using assms(1,2)
proof (induction ds)
  case (Cons d ds)
  show ?case
  proof (cases "ds = []")
    case True
    then show ?thesis
      using Cons.prems assms(3) by (simp add: digits_suffix.simps [of _ _ "d # r"] digit_len_def)
  next
    case False
    then have "digits_suffix nd suffix (ds @ r)" using Cons by simp
    then show ?thesis
      using Cons.prems by (simp add: digits_suffix.simps [of _ _ "d # ds @ r"] digit_len_def)
  qed
qed simp

definition dotted :: "string \<Rightarrow> bool" where
  "dotted s \<longleftrightarrow> (\<forall>c \<in> set s. is_digit c \<or> c = CHR ''.'')"

lemma dotted_v4: "dotted (show_v4 a b c d)"
  using show_nat_digits by (auto simp: dotted_def show_v4_def show_word_def)

lemma dotted_not: "dotted s \<Longrightarrow> c \<in> set s \<Longrightarrow> ip_char c \<and> c \<noteq> CHR '':'' \<and> c \<noteq> CHR '']'' \<and> c \<noteq> CHR ''[''"
  by (auto simp: dotted_def ip_char_def is_digit_def byte_def)

text \<open>
  After an IPv4 address, its port and a suffix that does not go on with an address character, the
  capture is the address.
\<close>

lemma capture_v4:
  assumes ip: "dotted ip" "ip \<noteq> []" and port: "\<forall>c \<in> set port. is_digit c" "port \<noteq> []"
    and rest: "starts_with suffix rest" "rest \<noteq> []" "\<not> ip_char (hd rest)" "hd rest \<noteq> CHR '']''"
  shows "capture_addr nd suffix (ip @ '':'' @ port @ rest) = Some ip"
proof -
  let ?s = "ip @ '':'' @ port @ rest" and ?run = "ip @ '':'' @ port"
  have chars: "\<forall>c \<in> set ?run. ip_char c"
    using ip port by (auto simp: dotted_def ip_char_def)
  have "takeWhile ip_char (?run @ rest) = ?run"
    using chars rest(2,3) by (cases rest) (simp_all add: takeWhile_append)
  then have run: "takeWhile ip_char ?s = ?run" by simp
  have hit: "port_suffix nd suffix (drop (length ip) ?s)"
    using digits_suffix_number [OF port rest(1)] by (simp add: port_suffix_def)
  have miss: "\<not> port_suffix nd suffix (drop j ?s)" if "length ip < j" "j \<le> length ?run" for j
  proof -
    obtain i where j: "j = length ip + Suc i" using \<open>length ip < j\<close> less_iff_Suc_add by auto
    then have "drop j ?s = drop i port @ rest" "i \<le> length port" using that(2) by simp_all
    moreover have "hd (drop i port @ rest) \<noteq> CHR '':'' \<and> hd (drop i port @ rest) \<noteq> CHR '']''"
    proof (cases "drop i port")
      case Nil
      then show ?thesis using rest by (auto simp: ip_char_def)
    next
      case (Cons c cs)
      then have "c \<in> set port" using in_set_dropD [of c i port] by simp
      then show ?thesis using Cons port(1) by (auto simp: is_digit_def byte_def)
    qed
    ultimately show ?thesis by (auto simp: port_suffix_def split: list.split)
  qed
  have "find (\<lambda>k. port_suffix nd suffix (drop k ?s)) (rev [1..<Suc (length ?run)]) = Some (length ip)"
    using hit miss ip(2) by (intro find_rev_upt) (auto simp: Suc_le_eq)
  then have "capture_ip nd suffix ?s = Some ip" by (simp only: capture_ip_def run) simp
  moreover have "hd ip \<noteq> CHR ''[''" using ip dotted_not by (cases ip) auto
  ultimately show ?thesis using ip(2) by (cases ip) (auto simp: capture_addr_def)
qed

lemma show_v4_not_Nil [simp]: "show_v4 a b c d \<noteq> []"
  by (simp add: show_v4_def)

lemma capture_socket_v4:
  assumes "starts_with suffix rest" "rest \<noteq> []" "\<not> ip_char (hd rest)" "hd rest \<noteq> CHR '']''"
  shows "capture_addr nd suffix (show_socket_addr (SocketV4 a b c d p) @ rest) = Some (show_v4 a b c d)"
  using capture_v4 [OF dotted_v4 show_v4_not_Nil _ _ assms, of "show_word p"] show_nat_digits
  by (simp add: show_word_def)

text \<open>Skipping to the place where a pattern starts.\<close>

lemma captures_here:
  "starts_with prefix s \<Longrightarrow> s \<noteq> [] \<Longrightarrow> capture_addr nd suffix (drop (length prefix) s) = Some ip \<Longrightarrow>
     captures nd (prefix, suffix) s = Some ip"
  by (cases s) simp_all

lemma captures_skip:
  "\<not> starts_with prefix (c # s) \<Longrightarrow> captures nd (prefix, suffix) (c # s) = captures nd (prefix, suffix) s"
  by simp

lemma captures_first_char:
  "prefix \<noteq> [] \<Longrightarrow> hd prefix \<notin> set s \<Longrightarrow> captures nd (prefix, suffix) (s @ t) = captures nd (prefix, suffix) t"
proof (induction s)
  case (Cons c s)
  then have "\<not> starts_with prefix (c # s @ t)" by (cases prefix) (auto simp: starts_with_def)
  then show ?case using Cons by simp
qed simp

subsection \<open>The tracker's count\<close>

lemma record_failure_fires:
  assumes "sorted (failures_of tr ip)" and "\<forall>t \<in> set (failures_of tr ip). t \<le> now"
  shows "fst (record_failure ip now tr) \<longleftrightarrow>
    length (filter (\<lambda>t. \<not> tracker_stale (tr_window tr) now t) (failures_of tr ip)) + 1 = threshold tr"
proof -
  have "sorted (failures_of tr ip @ [now])" using assms by (simp add: sorted_append)
  from tracking.pop_front_filter [OF this] show ?thesis
    by (simp add: record_failure_def tracker_stale_def duration_since_def)
qed

lemma record_failure_other:
  "ip' \<noteq> ip \<Longrightarrow> failures_of (snd (record_failure ip now tr)) ip' = failures_of tr ip'"
  by (simp add: record_failure_def failures_of_def Let_def)

lemma record_failure_sorted:
  assumes "sorted (failures_of tr ip)" and "\<forall>t \<in> set (failures_of tr ip). t \<le> now"
  shows "sorted (failures_of (snd (record_failure ip now tr)) ip) \<and>
    (\<forall>t \<in> set (failures_of (snd (record_failure ip now tr)) ip). t \<le> now)"
proof -
  have "sorted (failures_of tr ip @ [now])" using assms by (simp add: sorted_append)
  then show ?thesis
    using assms(2) by (auto simp: record_failure_def failures_of_def Let_def sorted_dropWhile
        dest!: set_dropWhileD split: option.splits)
qed

lemma forget_failures: "failures_of (forget ip tr) ip' = (if ip' = ip then [] else failures_of tr ip')"
  by (simp add: forget_def failures_of_def)

end
