(* ===== verification/Firewall.thy ===== *)
theory Firewall
  imports Detector Config
begin

section \<open>The firewall daemon (\<open>ghostport-firewall\<close>: \<open>nft.rs\<close>, \<open>config.rs\<close>, \<open>main.rs\<close>)\<close>

text \<open>
  What the tool asks of \<open>nft\<close>, its own configuration, the choice of the command-line action and
  the daemon's loop over the detected offenses. A run of \<open>nft\<close> is a command; the parameter \<open>nft\<close>
  gives its result. The daemon's state keeps the commands it issued and its output lines.
\<close>

subsection \<open>nftables\<close>

datatype nft_cmd = Script string | Delete_Table "string list" | List_Set "string list"

datatype nft_result = Spawn_Error string | Exited bool string string \<comment> \<open>success, stdout, stderr\<close>

type_synonym nft_runner = "nft_cmd \<Rightarrow> nft_result"

definition table_name :: string where
  "table_name = ''inet ghostport-firewall''"

definition newline :: string where
  "newline = [char_of (10::nat)]"

definition nft_error :: "string \<Rightarrow> string \<Rightarrow> string" where
  "nft_error what stderr = ''nft failed on `'' @ what @ ''`: '' @ stderr"

definition run_script :: "nft_runner \<Rightarrow> string \<Rightarrow> string + unit" where
  "run_script nft script =
     (case nft (Script script) of
        Spawn_Error e \<Rightarrow> Inl e
      | Exited good out stderr \<Rightarrow> if good then Inr () else Inl (nft_error script stderr))"

definition table_script :: string where
  "table_script = newline @ concat (map (\<lambda>l. l @ newline)
     [''add table '' @ table_name,
      ''add set '' @ table_name @ '' blackhole { type ipv4_addr; flags timeout; }'',
      ''add set '' @ table_name @ '' blackhole6 { type ipv6_addr; flags timeout; }'',
      ''add chain '' @ table_name @ '' drop_blackholed { type filter hook prerouting priority -300; policy accept; }'',
      ''flush chain '' @ table_name @ '' drop_blackholed'',
      ''add rule '' @ table_name @ '' drop_blackholed ip saddr @blackhole drop'',
      ''add rule '' @ table_name @ '' drop_blackholed ip6 saddr @blackhole6 drop''])"

definition create_table :: "nft_runner \<Rightarrow> string + unit" where
  "create_table nft = run_script nft table_script"

fun contains :: "string \<Rightarrow> string \<Rightarrow> bool" where
  "contains p [] = (p = [])"
| "contains p (c # s) = (starts_with p (c # s) \<or> contains p s)"

definition teardown_cmd :: nft_cmd where
  "teardown_cmd = Delete_Table ([''delete'', ''table''] @ split_whitespace table_name)"

definition teardown :: "nft_runner \<Rightarrow> string + unit" where
  "teardown nft =
     (case nft teardown_cmd of
        Spawn_Error e \<Rightarrow> Inl e
      | Exited good out stderr \<Rightarrow>
          if good \<or> contains ''No such file or directory'' stderr then Inr ()
          else Inl (nft_error ''delete table'' stderr))"

fun set_name :: "ip_addr \<Rightarrow> string" where
  "set_name (V4 a b c d) = ''blackhole''"
| "set_name (V6 segs) = ''blackhole6''"

definition ban_script :: "ip_addr \<Rightarrow> nat \<Rightarrow> string" where
  "ban_script ip s =
     ''add element '' @ table_name @ '' '' @ set_name ip @ '' { '' @ show_ip ip @ '' timeout '' @
     show_nat (max s 1) @ ''s }''"

definition ban :: "nft_runner \<Rightarrow> ip_addr \<Rightarrow> nat \<Rightarrow> string + unit" where
  "ban nft ip s = run_script nft (ban_script ip s)"

definition unban_script :: "ip_addr \<Rightarrow> string" where
  "unban_script ip =
     ''delete element '' @ table_name @ '' '' @ set_name ip @ '' { '' @ show_ip ip @ '' }''"

definition unban :: "nft_runner \<Rightarrow> ip_addr \<Rightarrow> string + unit" where
  "unban nft ip = run_script nft (unban_script ip)"

text \<open>\<open>text.split(|c| c == ',' \<dots> || c.is_whitespace())\<close>: the length of a separator at the head.\<close>

definition sep_len :: "string \<Rightarrow> nat" where
  "sep_len s =
     (if s \<noteq> [] \<and> hd s \<in> {CHR '','', CHR ''{'', CHR ''}''} then 1 else ws_head s)"

function split_listing :: "string \<Rightarrow> string \<Rightarrow> string list" where
  "split_listing cur s =
     (if s = [] then [cur]
      else if sep_len s = 0 then split_listing (cur @ [hd s]) (tl s)
      else cur # split_listing [] (drop (sep_len s) s))"
  by pat_completeness auto
termination
  by (relation "measure (\<lambda>(_, s). length s)") auto

declare split_listing.simps [simp del]

definition listed_ips :: "string \<Rightarrow> ip_addr list" where
  "listed_ips txt = List.map_filter parse_ip_addr (split_listing [] txt)"

text \<open>\<open>list_banned\<close>; the output is taken decoded.\<close>

fun list_sets :: "nft_runner \<Rightarrow> string list \<Rightarrow> string + ip_addr list" where
  "list_sets nft [] = Inr []"
| "list_sets nft (s # sets) =
     (case nft (List_Set ([''list'', ''set''] @ split_whitespace table_name @ [s])) of
        Spawn_Error e \<Rightarrow> Inl e
      | Exited good out stderr \<Rightarrow>
         (case list_sets nft sets of
            Inl e \<Rightarrow> Inl e
          | Inr ips \<Rightarrow> Inr ((if good then listed_ips out else []) @ ips)))"

definition list_banned :: "nft_runner \<Rightarrow> string + ip_addr list" where
  "list_banned nft = list_sets nft [''blackhole'', ''blackhole6'']"

subsection \<open>Configuration\<close>

record app_config =
  app_threshold :: nat
  window_secs :: u64
  ban_secs :: u64
  allowlist :: "string list"
  service :: string

definition default_threshold :: nat where
  "default_threshold = 5"

definition default_window_secs :: u64 where
  "default_window_secs = 600"

definition default_ban_secs :: u64 where
  "default_ban_secs = 3600"

definition default_service :: string where
  "default_service = ''ghostport''"

definition default_app_config :: app_config where
  "default_app_config =
     \<lparr>app_threshold = default_threshold, window_secs = default_window_secs, ban_secs = default_ban_secs,
      allowlist = [], service = default_service\<rparr>"

lemmas app_defaults =
  default_app_config_def default_threshold_def default_window_secs_def default_ban_secs_def default_service_def

definition path_join :: "string \<Rightarrow> string \<Rightarrow> string" where
  "path_join a b =
     (if starts_with ''/'' b then b
      else if a = [] \<or> last a = CHR ''/'' then a @ b else a @ ''/'' @ b)"

definition default_config_path ::
  "string option \<Rightarrow> string option \<Rightarrow> (string \<Rightarrow> bool) \<Rightarrow> string option" where
  "default_config_path xdg_config_home home path_exists =
     (case (case xdg_config_home of Some x \<Rightarrow> Some x
            | None \<Rightarrow> map_option (\<lambda>h. path_join h ''.config'') home) of
        None \<Rightarrow> None
      | Some config_home \<Rightarrow>
          find path_exists
            [path_join (path_join config_home ''ghostport-firewall'') ''config.toml'', ''config.toml''])"

text \<open>\<open>read\<close> and the TOML reader are parameters.\<close>

definition load_app ::
  "(string \<Rightarrow> string + string) \<Rightarrow> (string \<Rightarrow> string + app_config) \<Rightarrow> string \<Rightarrow> string + app_config" where
  "load_app read_file from_toml path =
     (case read_file path of
        Inl e \<Rightarrow> Inl (''failed to read '' @ path @ '': '' @ e)
      | Inr raw \<Rightarrow>
         (case from_toml raw of
            Inl e \<Rightarrow> Inl (''failed to parse '' @ path @ '': '' @ e)
          | Inr cfg \<Rightarrow> Inr cfg))"

subsection \<open>The offense loop\<close>

fun debug_offense :: "offense \<Rightarrow> string" where
  "debug_offense Rate_Limited = ''RateLimited''"
| "debug_offense Handshake_Failed = ''HandshakeFailed''"

record firewall =
  fw_tracker :: tracker
  issued :: "nft_cmd list"
  printed :: "string list"

definition parsed_allowlist :: "app_config \<Rightarrow> ip_addr list" where
  "parsed_allowlist cfg = List.map_filter parse_ip_addr (allowlist cfg)"

definition say :: "string \<Rightarrow> firewall \<Rightarrow> firewall" where
  "say line fw = fw\<lparr>printed := printed fw @ [line]\<rparr>"

text \<open>The ban itself, followed by \<open>tracker.forget\<close>.\<close>

definition do_ban ::
  "nft_runner \<Rightarrow> app_config \<Rightarrow> bool \<Rightarrow> ip_addr \<Rightarrow> offense \<Rightarrow> firewall \<Rightarrow> firewall" where
  "do_ban nft cfg dry_run ip off fw =
     (let n = unat (ban_secs cfg);
          tail = show_ip ip @ '' for '' @ show_nat n @ ''s ('' @ debug_offense off @ '')'';
          fw = (if dry_run then say (''[DRY-RUN] would ban '' @ tail) fw
                else
                  (case ban nft ip n of
                     Inr u \<Rightarrow> say (''[BANNED] '' @ tail)
                   | Inl e \<Rightarrow> say (''[ERROR] failed to ban '' @ show_ip ip @ '': '' @ e))
                  (fw\<lparr>issued := issued fw @ [Script (ban_script ip n)]\<rparr>))
      in fw\<lparr>fw_tracker := forget ip (fw_tracker fw)\<rparr>)"

type_synonym detected = "instant \<times> ip_addr \<times> offense"

fun handle_offense ::
  "nft_runner \<Rightarrow> app_config \<Rightarrow> bool \<Rightarrow> detected \<Rightarrow> firewall \<Rightarrow> firewall" where
  "handle_offense nft cfg dry_run (now, ip, off) fw =
     (if is_never_bannable ip
      then say (''[protected] '' @ show_ip ip @ '' triggered '' @ debug_offense off @
                '' but is loopback/private -- never a ban candidate'') fw
      else if ip \<in> set (parsed_allowlist cfg) then fw
      else
        let (should_ban, tr) =
              (case off of Rate_Limited \<Rightarrow> (True, fw_tracker fw)
               | Handshake_Failed \<Rightarrow> record_failure ip now (fw_tracker fw));
            fw = fw\<lparr>fw_tracker := tr\<rparr>
        in if should_ban then do_ban nft cfg dry_run ip off fw else fw)"

definition start_firewall :: "app_config \<Rightarrow> firewall" where
  "start_firewall cfg =
     \<lparr>fw_tracker = new_tracker (secs (unat (window_secs cfg))) (app_threshold cfg),
      issued = [], printed = []\<rparr>"

definition watch :: "nft_runner \<Rightarrow> app_config \<Rightarrow> bool \<Rightarrow> detected list \<Rightarrow> firewall \<Rightarrow> firewall" where
  "watch nft cfg dry_run evs = fold (handle_offense nft cfg dry_run) evs"

text \<open>
  \<open>run_daemon\<close>: the target's config (\<open>None\<close>: not given), the own config, the table, the loop over
  what the watcher sends.
\<close>

definition check_target_is_server_role :: "string \<Rightarrow> string + config \<Rightarrow> string + unit" where
  "check_target_is_server_role path loaded =
     (case loaded of Inl e \<Rightarrow> Inl e
      | Inr cfg \<Rightarrow>
          if cfg_role cfg \<noteq> Server
          then Inl (path @ '' is a client-role config -- a client never accepts inbound connections, so there is nothing here for ghostport-firewall to protect'')
          else Inr ())"

definition run_daemon_fw ::
  "nft_runner \<Rightarrow> (string \<times> (string + config)) option \<Rightarrow> (string + app_config) option \<Rightarrow> bool \<Rightarrow>
     detected list \<Rightarrow> (string + firewall)" where
  "run_daemon_fw nft target own dry_run evs =
     (case (case target of None \<Rightarrow> Inr ()
            | Some (path, loaded) \<Rightarrow> check_target_is_server_role path loaded) of
        Inl e \<Rightarrow> Inl e
      | Inr u \<Rightarrow>
         (case (case own of Some r \<Rightarrow> r | None \<Rightarrow> Inr default_app_config) of
            Inl e \<Rightarrow> Inl e
          | Inr cfg \<Rightarrow>
              if dry_run then Inr (watch nft cfg True evs (start_firewall cfg))
              else (case create_table nft of
                      Inl e \<Rightarrow> Inl e
                    | Inr u' \<Rightarrow> Inr (watch nft cfg False evs
                        ((start_firewall cfg)\<lparr>issued := [Script table_script]\<rparr>)))))"

subsection \<open>The command line\<close>

record args =
  a_dry_run :: bool
  a_admin :: bool
  a_start :: bool
  a_stop :: bool
  a_restart :: bool
  a_status :: bool
  a_bans :: bool
  a_unban :: "string option"
  a_teardown :: bool
  a_setup :: bool
  a_test_ban :: "string option"

definition admin_action :: "args \<Rightarrow> string + string" where
  "admin_action a =
     (case (a_start a, a_stop a, a_restart a, a_status a) of
        (True, False, False, False) \<Rightarrow> Inr ''start''
      | (False, True, False, False) \<Rightarrow> Inr ''stop''
      | (False, False, True, False) \<Rightarrow> Inr ''restart''
      | (False, False, False, True) \<Rightarrow> Inr ''status''
      | (False, False, False, False) \<Rightarrow>
          Inl ''--admin needs exactly one of --start, --stop, --restart, --status''
      | _ \<Rightarrow> Inl ''--admin takes exactly one of --start, --stop, --restart, --status, not several at once'')"

definition admin_argv :: "string \<Rightarrow> string list" where
  "admin_argv action =
     (if action = ''status'' then [''systemctl'', ''status'', ''ghostport-firewall'']
      else [''sudo'', ''systemctl'', action, ''ghostport-firewall''])"

datatype fw_command = Run_Admin | Run_Teardown | Run_Setup | Run_Test_Ban string | Run_Bans
  | Run_Unban string | Run_Daemon

definition select_command :: "args \<Rightarrow> fw_command" where
  "select_command a =
     (if a_admin a then Run_Admin
      else if a_teardown a then Run_Teardown
      else if a_setup a then Run_Setup
      else case a_test_ban a of Some ip \<Rightarrow> Run_Test_Ban ip
      | None \<Rightarrow>
          if a_bans a then Run_Bans
          else case a_unban a of Some ip \<Rightarrow> Run_Unban ip | None \<Rightarrow> Run_Daemon)"

text \<open>Whether it succeeds, and the commands issued.\<close>

definition test_ban :: "nft_runner \<Rightarrow> string \<Rightarrow> bool \<times> nft_cmd list" where
  "test_ban nft ip_str =
     (case parse_ip_addr ip_str of
        None \<Rightarrow> (False, [])
      | Some ip \<Rightarrow>
          if is_never_bannable ip then (False, [])
          else (\<not> isl (ban nft ip 60), [Script (ban_script ip 60)]))"

definition unban_arg :: "nft_runner \<Rightarrow> string \<Rightarrow> bool \<times> nft_cmd list" where
  "unban_arg nft ip_str =
     (case parse_ip_addr ip_str of
        None \<Rightarrow> (False, [])
      | Some ip \<Rightarrow> (\<not> isl (unban nft ip), [Script (unban_script ip)]))"

subsection \<open>Who is banned\<close>

lemma do_ban_fields [simp]:
  "issued (do_ban nft cfg dry ip off fw) =
     issued fw @ (if dry then [] else [Script (ban_script ip (unat (ban_secs cfg)))])"
  "fw_tracker (do_ban nft cfg dry ip off fw) = forget ip (fw_tracker fw)"
  by (simp_all add: do_ban_def Let_def say_def split: sum.split)

lemma say_fields [simp]: "issued (say l fw) = issued fw" "fw_tracker (say l fw) = fw_tracker fw"
  by (simp_all add: say_def)

text \<open>What one offense can add to the commands.\<close>

lemma handle_offense_issued:
  "issued (handle_offense nft cfg dry (now, ip, off) fw) = issued fw \<or>
     \<not> dry \<and> \<not> is_never_bannable ip \<and> ip \<notin> set (parsed_allowlist cfg) \<and>
     issued (handle_offense nft cfg dry (now, ip, off) fw) =
       issued fw @ [Script (ban_script ip (unat (ban_secs cfg)))]"
  by (simp add: Let_def split: prod.split)

definition ban_cmds :: "app_config \<Rightarrow> detected list \<Rightarrow> nft_cmd set" where
  "ban_cmds cfg evs =
     {Script (ban_script ip (unat (ban_secs cfg))) | now ip off. (now, ip, off) \<in> set evs \<and>
        \<not> is_never_bannable ip \<and> ip \<notin> set (parsed_allowlist cfg)}"

lemma watch_issued:
  "set (issued (watch nft cfg dry evs fw)) \<subseteq> set (issued fw) \<union> (if dry then {} else ban_cmds cfg evs)"
proof (induction evs arbitrary: fw)
  case (Cons e evs)
  obtain now ip off where e: "e = (now, ip, off)" by (cases e)
  let ?fw = "handle_offense nft cfg dry (now, ip, off) fw"
  have sub: "ban_cmds cfg evs \<subseteq> ban_cmds cfg (e # evs)" by (auto simp: ban_cmds_def)
  have here: "Script (ban_script ip (unat (ban_secs cfg))) \<in> ban_cmds cfg (e # evs)"
    if "\<not> is_never_bannable ip" "ip \<notin> set (parsed_allowlist cfg)"
    unfolding ban_cmds_def e using that by auto
  have "set (issued ?fw) \<subseteq> set (issued fw) \<union> (if dry then {} else ban_cmds cfg (e # evs))"
    using handle_offense_issued [of nft cfg dry now ip off fw] here by auto
  moreover have "set (issued (watch nft cfg dry evs ?fw)) \<subseteq>
      set (issued ?fw) \<union> (if dry then {} else ban_cmds cfg evs)" by (rule Cons.IH)
  moreover have "watch nft cfg dry (e # evs) fw = watch nft cfg dry evs ?fw"
    by (simp add: watch_def e)
  ultimately show ?case using sub by (auto split: if_splits)
qed (simp add: watch_def)

text \<open>A rate-limit rejection bans at once.\<close>

lemma rate_limited_bans:
  assumes "\<not> is_never_bannable ip" and "ip \<notin> set (parsed_allowlist cfg)"
  shows "issued (handle_offense nft cfg False (now, ip, Rate_Limited) fw) =
    issued fw @ [Script (ban_script ip (unat (ban_secs cfg)))]"
  using assms by simp

definition limited_in :: "ip_addr \<Rightarrow> detected list \<Rightarrow> bool" where
  "limited_in ip evs \<longleftrightarrow> (\<exists>now. (now, ip, Rate_Limited) \<in> set evs)"

lemma tracker_threshold [simp]:
  "threshold (snd (record_failure ip now tr)) = threshold tr" "threshold (forget ip tr) = threshold tr"
  by (simp_all add: record_failure_def forget_def Let_def)

lemma handle_other_ip:
  assumes "ip' \<noteq> ip"
  shows "failures_of (fw_tracker (handle_offense nft cfg dry (now, ip', off) fw)) ip =
    failures_of (fw_tracker fw) ip"
proof -
  have "failures_of (forget ip' tr) ip = failures_of tr ip" for tr
    using assms by (simp add: forget_failures)
  moreover have "failures_of (snd (record_failure ip' now tr)) ip = failures_of tr ip" for tr
    using assms record_failure_other [of ip ip' now tr] by simp
  ultimately show ?thesis
    by (cases off) (simp_all add: Let_def case_prod_unfold)
qed

lemma handle_threshold:
  "threshold (fw_tracker (handle_offense nft cfg dry e fw)) = threshold (fw_tracker fw)"
  by (cases e; cases "snd (snd e)") (simp_all add: Let_def case_prod_unfold)

lemma failures_start: "failures_of (fw_tracker (start_firewall cfg)) ip = []"
  by (simp add: start_firewall_def new_tracker_def failures_of_def)

subsection \<open>What the table lists\<close>

definition no_sep :: "string \<Rightarrow> bool" where
  "no_sep t \<longleftrightarrow> (\<forall>c \<in> set t. c \<notin> {CHR '','', CHR ''{'', CHR ''}''} \<and> byte c < 128 \<and> \<not> ws1 (byte c))"

lemma ws_head_ascii: "byte c < 128 \<Longrightarrow> \<not> ws1 (byte c) \<Longrightarrow> ws_head (c # s) = 0"
  by (cases "c # s" rule: ws_head.cases) (auto simp: ws2_def ws3_def)

lemma split_listing_text: "no_sep t \<Longrightarrow> split_listing cur (t @ s) = split_listing (cur @ t) s"
proof (induction t arbitrary: cur)
  case (Cons c t)
  then have "sep_len (c # t @ s) = 0" by (simp add: no_sep_def sep_len_def ws_head_ascii)
  then have "split_listing cur (c # t @ s) = split_listing (cur @ [c]) (t @ s)"
    by (subst split_listing.simps) simp
  then show ?case using Cons by (simp add: no_sep_def)
qed simp

lemma split_listing_sep:
  "0 < sep_len s \<Longrightarrow> split_listing cur s = cur # split_listing [] (drop (sep_len s) s)"
  by (subst split_listing.simps) (auto simp: sep_len_def)

lemma split_listing_last: "split_listing cur [] = [cur]"
  by (simp add: split_listing.simps)

end
