(* ===== verification/Ban_Window.thy ===== *)
theory Ban_Window
  imports Firewall
begin

section \<open>When the firewall bans\<close>

text \<open>
  The decision of the offense loop against a reference that looks at the whole history: an address
  is banned for failed handshakes exactly when some window holds as many of them as the threshold.
  And the watcher of the journal that feeds the loop.
\<close>

subsection \<open>The watcher\<close>

text \<open>
  One run of \<open>journalctl\<close>: it cannot be started, or its lines are read up to its end or to the first
  line that cannot be read (\<open>None\<close>, for instance one that is not UTF-8). The watcher starts the next
  run ten seconds later.
\<close>

datatype journal_run = Not_Spawned string | Tailed "string option list"

fun sent_offenses :: "(string \<Rightarrow> nat) \<Rightarrow> string option list \<Rightarrow> (ip_addr \<times> offense) list" where
  "sent_offenses nd [] = []"
| "sent_offenses nd (None # ls) = []"
| "sent_offenses nd (Some line # ls) =
     (case extract_offense nd line of
        Some off \<Rightarrow> off # sent_offenses nd ls
      | None \<Rightarrow> sent_offenses nd ls)"

fun run_offenses :: "(string \<Rightarrow> nat) \<Rightarrow> journal_run \<Rightarrow> (ip_addr \<times> offense) list" where
  "run_offenses nd (Not_Spawned e) = []"
| "run_offenses nd (Tailed ls) = sent_offenses nd ls"

definition watch_service :: "(string \<Rightarrow> nat) \<Rightarrow> journal_run list \<Rightarrow> (ip_addr \<times> offense) list" where
  "watch_service nd runs = concat (map (run_offenses nd) runs)"

definition journal_lines :: "journal_run list \<Rightarrow> string set" where
  "journal_lines runs = {line. \<exists>ls. Tailed ls \<in> set runs \<and> Some line \<in> set ls}"

lemma sent_offenses_lines:
  "off \<in> set (sent_offenses nd ls) \<Longrightarrow> \<exists>line. Some line \<in> set ls \<and> extract_offense nd line = Some off"
  by (induction nd ls rule: sent_offenses.induct) (auto split: option.splits)

lemma run_offenses_lines:
  "off \<in> set (run_offenses nd r) \<Longrightarrow> \<exists>ls line. r = Tailed ls \<and> Some line \<in> set ls \<and> extract_offense nd line = Some off"
  using sent_offenses_lines by (cases r) fastforce+

lemma watch_service_lines:
  assumes "off \<in> set (watch_service nd runs)"
  shows "\<exists>line \<in> journal_lines runs. extract_offense nd line = Some off"
  using assms run_offenses_lines unfolding watch_service_def journal_lines_def by fastforce

text \<open>A run that is read to its end misses nothing.\<close>

lemma run_offenses_all:
  "run_offenses nd (Tailed (map Some ls)) = List.map_filter (extract_offense nd) ls"
  by (induction ls) (simp_all add: map_filter_simps split: option.split)

subsection \<open>The reference\<close>

definition fail_times :: "ip_addr \<Rightarrow> detected list \<Rightarrow> instant list" where
  "fail_times ip evs = map fst (filter (\<lambda>(now, ip', off). ip' = ip \<and> off = Handshake_Failed) evs)"

definition in_window :: "instant \<Rightarrow> duration \<Rightarrow> instant list \<Rightarrow> instant list" where
  "in_window from w ts = filter (\<lambda>t. from \<le> t \<and> t \<le> from + int w) ts"

definition sustained :: "app_config \<Rightarrow> ip_addr \<Rightarrow> detected list \<Rightarrow> bool" where
  "sustained cfg ip evs \<longleftrightarrow> (\<exists>from. app_threshold cfg \<le>
     length (in_window from (secs (unat (window_secs cfg))) (fail_times ip evs)))"

lemma fail_times_snoc:
  "fail_times ip (evs @ [(now, ip', off)]) =
     fail_times ip evs @ (if ip' = ip \<and> off = Handshake_Failed then [now] else [])"
  by (simp add: fail_times_def)

lemma fail_times_sorted: "sorted (map fst evs) \<Longrightarrow> sorted (fail_times ip evs)"
  unfolding fail_times_def by (induction evs) (auto split: prod.splits)

lemma fail_times_times: "t \<in> set (fail_times ip evs) \<Longrightarrow> t \<in> fst ` set evs"
  by (auto simp: fail_times_def)

lemma in_window_append [simp]: "in_window from w (ts @ us) = in_window from w ts @ in_window from w us"
  by (simp add: in_window_def)

lemma sustained_snoc: "sustained cfg ip evs \<Longrightarrow> sustained cfg ip (evs @ [e])"
  by (cases e) (simp add: sustained_def fail_times_snoc, meson trans_le_add1)

subsection \<open>The tracker holds the failures of the last window\<close>

definition recent :: "duration \<Rightarrow> instant list \<Rightarrow> instant list" where
  "recent w ts = (if ts = [] then [] else in_window (last ts - int w) w ts)"

lemma recent_snoc:
  assumes "sorted ts" and "\<forall>t \<in> set ts. t \<le> now"
  shows "dropWhile (tracker_stale w now) (recent w ts @ [now]) = recent w (ts @ [now])"
proof (cases "ts = []")
  case False
  define l where "l = last ts"
  have l: "l \<le> now" using assms(2) False by (simp add: l_def)
  have top: "t \<le> l" if "t \<in> set ts" for t
    using assms(1) that False unfolding l_def
    by (metis append_butlast_last_id Un_iff empty_iff empty_set list.set_intros(1) order_refl set_ConsD
        set_append sorted_append)
  have "sorted (recent w ts @ [now])"
    using assms by (auto simp: recent_def in_window_def sorted_append sorted_wrt_filter)
  then have "dropWhile (tracker_stale w now) (recent w ts @ [now]) =
      filter (\<lambda>t. \<not> tracker_stale w now t) (recent w ts @ [now])" by (rule tracking.pop_front_filter)
  also have "\<dots> = filter (\<lambda>t. now - int w \<le> t) (filter (\<lambda>t. l - int w \<le> t \<and> t \<le> l) ts) @ [now]"
    using False by (simp add: recent_def in_window_def tracker_stale_def duration_since_def flip: l_def)
      (auto intro!: filter_cong)
  also have "\<dots> = filter (\<lambda>t. now - int w \<le> t \<and> t \<le> now) ts @ [now]"
    using l top by (auto intro!: filter_cong) fastforce+
  finally show ?thesis by (simp add: recent_def in_window_def)
qed (simp add: recent_def in_window_def tracker_stale_def duration_since_def)

lemma watch_snoc: "watch nft cfg dry (evs @ [e]) fw = handle_offense nft cfg dry e (watch nft cfg dry evs fw)"
  by (simp add: watch_def)

lemma handle_window: "tr_window (fw_tracker (handle_offense nft cfg dry e fw)) = tr_window (fw_tracker fw)"
  by (cases e; cases "snd (snd e)")
    (simp_all add: Let_def case_prod_unfold do_ban_def say_def forget_def record_failure_def split: sum.split)

lemma watch_tracker:
  "tr_window (fw_tracker (watch nft cfg dry evs (start_firewall cfg))) = secs (unat (window_secs cfg))"
  "threshold (fw_tracker (watch nft cfg dry evs (start_firewall cfg))) = app_threshold cfg"
  by (induction evs rule: rev_induct)
    (simp_all add: watch_snoc handle_window handle_threshold del: handle_offense.simps,
     simp_all add: watch_def start_firewall_def new_tracker_def)

text \<open>A failure that is recorded without reaching the threshold.\<close>

lemma failure_recorded:
  assumes "\<not> is_never_bannable ip" and "ip \<notin> set (parsed_allowlist cfg)"
    and "fw' = handle_offense nft cfg False (now, ip, Handshake_Failed) fw"
    and "entry = dropWhile (tracker_stale (tr_window (fw_tracker fw)) now) (failures_of (fw_tracker fw) ip @ [now])"
  shows "if length entry = threshold (fw_tracker fw)
    then issued fw' = issued fw @ [Script (ban_script ip (unat (ban_secs cfg)))]
    else issued fw' = issued fw \<and> failures_of (fw_tracker fw') ip = entry"
proof (cases "length entry = threshold (fw_tracker fw)")
  case True
  then show ?thesis using assms
    by (simp add: record_failure_def Let_def do_ban_def say_def split: sum.split)
next
  case False
  then show ?thesis using assms
    by (simp add: record_failure_def Let_def failures_of_def)
qed

subsection \<open>Banned exactly when sustained\<close>

abbreviation watched :: "nft_runner \<Rightarrow> app_config \<Rightarrow> detected list \<Rightarrow> firewall" where
  "watched nft cfg evs \<equiv> watch nft cfg False evs (start_firewall cfg)"

definition others_only :: "app_config \<Rightarrow> ip_addr \<Rightarrow> nft_cmd list \<Rightarrow> bool" where
  "others_only cfg ip cmds \<longleftrightarrow>
     (\<forall>cmd \<in> set cmds. \<exists>ip'. ip' \<noteq> ip \<and> cmd = Script (ban_script ip' (unat (ban_secs cfg))))"

text \<open>The entry the tracker makes at a failure is the last window of all failures so far.\<close>

lemma next_entry:
  assumes "failures_of (fw_tracker (watched nft cfg evs)) ip =
      recent (secs (unat (window_secs cfg))) (fail_times ip evs)"
    and "sorted (map fst (evs @ [(now, ip, Handshake_Failed)]))"
  shows "dropWhile (tracker_stale (tr_window (fw_tracker (watched nft cfg evs))) now)
      (failures_of (fw_tracker (watched nft cfg evs)) ip @ [now]) =
    recent (secs (unat (window_secs cfg))) (fail_times ip (evs @ [(now, ip, Handshake_Failed)]))"
proof -
  have "sorted (fail_times ip evs)" using assms(2) by (intro fail_times_sorted) (simp add: sorted_append)
  moreover have "\<forall>t \<in> set (fail_times ip evs). t \<le> now"
    using assms(2) fail_times_times by (fastforce simp: sorted_append)
  ultimately show ?thesis
    unfolding assms(1) watch_tracker by (simp add: recent_snoc fail_times_snoc)
qed

lemma recent_unsustained:
  "\<not> sustained cfg ip evs \<Longrightarrow> 0 < app_threshold cfg \<Longrightarrow>
     length (recent (secs (unat (window_secs cfg))) (fail_times ip evs)) < app_threshold cfg"
  by (simp add: sustained_def recent_def not_le)

lemma calm:
  assumes "\<not> is_never_bannable ip" and "ip \<notin> set (parsed_allowlist cfg)" and "0 < app_threshold cfg"
  shows "sorted (map fst evs) \<Longrightarrow> \<not> limited_in ip evs \<Longrightarrow> \<not> sustained cfg ip evs \<Longrightarrow>
    failures_of (fw_tracker (watched nft cfg evs)) ip =
      recent (secs (unat (window_secs cfg))) (fail_times ip evs) \<and>
    others_only cfg ip (issued (watched nft cfg evs))"
proof (induction evs rule: rev_induct)
  case Nil
  show ?case
    by (simp add: watch_def failures_start fail_times_def recent_def others_only_def)
      (simp add: start_firewall_def)
next
  case (snoc e evs)
  obtain now ip' off where e: "e = (now, ip', off)" by (cases e)
  have pre: "sorted (map fst evs)" "\<not> limited_in ip evs" "\<not> sustained cfg ip evs"
    using snoc.prems sustained_snoc [of cfg ip evs e] by (auto simp: sorted_append limited_in_def)
  note ih = snoc.IH [OF pre]
  show ?case
  proof (cases "ip' = ip")
    case True
    then have off: "off = Handshake_Failed"
      using snoc.prems(2) e by (cases off) (auto simp: limited_in_def)
    note entry = next_entry [OF conjunct1 [OF ih], of now]
    have "length (recent (secs (unat (window_secs cfg))) (fail_times ip (evs @ [e]))) < app_threshold cfg"
      by (rule recent_unsustained [OF snoc.prems(3) assms(3)])
    then show ?thesis
      using failure_recorded [OF assms(1,2) refl refl, where nft = nft and now = now and fw = "watched nft cfg evs"] entry ih snoc.prems(1)
      by (simp add: watch_snoc watch_tracker e True off del: handle_offense.simps)
  next
    case False
    then have "fail_times ip (evs @ [e]) = fail_times ip evs" by (simp add: e fail_times_snoc)
    moreover have "others_only cfg ip (issued (handle_offense nft cfg False e (watched nft cfg evs)))"
      using ih handle_offense_issued [of nft cfg False now ip' off "watched nft cfg evs"] False
      by (auto simp: others_only_def e simp del: handle_offense.simps)
    ultimately show ?thesis
      using ih handle_other_ip [OF False, of nft cfg False now off "watched nft cfg evs"]
      by (simp add: watch_snoc e del: handle_offense.simps)
  qed
qed

text \<open>At the failure that makes them sustained, the count in the last window is the threshold.\<close>

lemma threshold_hit:
  assumes "\<not> sustained cfg ip evs" and "sustained cfg ip (evs @ [(now, ip, Handshake_Failed)])"
    and "sorted (map fst (evs @ [(now, ip, Handshake_Failed)]))"
  shows "length (recent (secs (unat (window_secs cfg))) (fail_times ip (evs @ [(now, ip, Handshake_Failed)]))) =
    app_threshold cfg"
proof -
  let ?w = "secs (unat (window_secs cfg))" and ?ts = "fail_times ip evs"
  obtain start where start: "app_threshold cfg \<le> length (in_window start ?w (?ts @ [now]))"
    using assms(2) by (auto simp: sustained_def fail_times_snoc)
  have less: "length (in_window from ?w ?ts) < app_threshold cfg" for "from"
    using assms(1) by (simp add: sustained_def not_le)
  have now: "start \<le> now" "now \<le> start + int ?w"
    using start less [of start] by (auto simp: in_window_def split: if_splits)
  have "\<forall>t \<in> set ?ts. t \<le> now" using assms(3) fail_times_times by (fastforce simp: sorted_append)
  then have "in_window start ?w ?ts = filter (\<lambda>t. start \<le> t) (in_window (now - int ?w) ?w ?ts)"
    using now by (auto simp: in_window_def intro!: filter_cong)
  then have "length (in_window start ?w ?ts) \<le> length (in_window (now - int ?w) ?w ?ts)" by simp
  then show ?thesis
    using start less [of "now - int ?w"] now
    by (simp add: recent_def fail_times_snoc) (simp add: in_window_def)
qed

lemma sustained_banned:
  assumes "\<not> is_never_bannable ip" and "ip \<notin> set (parsed_allowlist cfg)" and "0 < app_threshold cfg"
  shows "sorted (map fst evs) \<Longrightarrow> \<not> limited_in ip evs \<Longrightarrow> sustained cfg ip evs \<Longrightarrow>
    Script (ban_script ip (unat (ban_secs cfg))) \<in> set (issued (watched nft cfg evs))"
proof (induction evs rule: rev_induct)
  case Nil
  then show ?case using assms(3) by (simp add: sustained_def fail_times_def in_window_def)
next
  case (snoc e evs)
  obtain now ip' off where e: "e = (now, ip', off)" by (cases e)
  have pre: "sorted (map fst evs)" "\<not> limited_in ip evs"
    using snoc.prems by (auto simp: sorted_append limited_in_def)
  have grows: "set (issued (watched nft cfg evs)) \<subseteq> set (issued (watched nft cfg (evs @ [e])))"
    using handle_offense_issued [of nft cfg False now ip' off "watched nft cfg evs"]
    by (auto simp: watch_snoc e simp del: handle_offense.simps)
  show ?case
  proof (cases "sustained cfg ip evs")
    case True
    then show ?thesis using snoc.IH [OF pre] grows by blast
  next
    case False
    then have "fail_times ip (evs @ [e]) \<noteq> fail_times ip evs" using snoc.prems(3) by (auto simp: sustained_def)
    then have e': "e = (now, ip, Handshake_Failed)" by (auto simp: e fail_times_snoc split: if_splits)
    note hit = threshold_hit [OF False snoc.prems(3,1) [unfolded e']]
    note entry = next_entry [OF conjunct1 [OF calm [OF assms pre False]] snoc.prems(1) [unfolded e']]
    show ?thesis
      using failure_recorded [OF assms(1,2) refl refl, where nft = nft and now = now and fw = "watched nft cfg evs"] entry hit
      by (simp add: watch_snoc watch_tracker e' del: handle_offense.simps)
  qed
qed

text \<open>A rejection by the daemon's limiter bans at once, and a ban that was issued stays issued.\<close>

lemma watch_grows: "set (issued fw) \<subseteq> set (issued (watch nft cfg False evs fw))"
proof (induction evs arbitrary: fw)
  case (Cons e evs)
  obtain now ip off where e: "e = (now, ip, off)" by (cases e)
  have "set (issued fw) \<subseteq> set (issued (handle_offense nft cfg False e fw))"
    using handle_offense_issued [of nft cfg False now ip off fw] by (auto simp: e simp del: handle_offense.simps)
  then show ?case using Cons [of "handle_offense nft cfg False e fw"]
    by (auto simp: watch_def simp del: handle_offense.simps)
qed (simp add: watch_def)

lemma limited_banned:
  assumes "\<not> is_never_bannable ip" and "ip \<notin> set (parsed_allowlist cfg)" and "limited_in ip evs"
  shows "Script (ban_script ip (unat (ban_secs cfg))) \<in> set (issued (watch nft cfg False evs fw))"
proof -
  obtain now where "(now, ip, Rate_Limited) \<in> set evs" using assms(3) by (auto simp: limited_in_def)
  then obtain pre post where evs: "evs = pre @ (now, ip, Rate_Limited) # post" by (auto dest: split_list)
  let ?fw = "handle_offense nft cfg False (now, ip, Rate_Limited) (watch nft cfg False pre fw)"
  have "watch nft cfg False evs fw = watch nft cfg False post ?fw" by (simp add: evs watch_def)
  moreover have "Script (ban_script ip (unat (ban_secs cfg))) \<in> set (issued ?fw)"
    unfolding rate_limited_bans [OF assms(1,2)] by simp
  ultimately show ?thesis using watch_grows by (metis subsetD)
qed

end
