(* ===== verification/Metrics.thy ===== *)
theory Metrics
  imports Stats Session
begin

section \<open>The Prometheus exporter (\<open>ghostport-metrics\<close>: \<open>render.rs\<close>, \<open>http.rs\<close>)\<close>

text \<open>
  \<open>render\<close> turns a status snapshot into the text format; \<open>http.rs\<close> reads one request line and
  writes one response. A connection is the list of results of its \<open>read\<close> calls (at most 512 bytes
  each, an empty one at the end of the stream); a list that ends without one is a client that
  sends nothing more.
\<close>

subsection \<open>Rendering\<close>

definition show_bool :: "bool \<Rightarrow> string" where
  "show_bool b = (if b then ''1'' else ''0'')"

text \<open>The two comment lines of a metric, and one sample of a link metric.\<close>

definition family :: "string \<Rightarrow> string \<Rightarrow> string \<Rightarrow> string list" where
  "family name help kind =
     [''# HELP '' @ name @ '' '' @ help, ''# TYPE '' @ name @ '' '' @ kind]"

definition link_sample :: "string \<Rightarrow> (link_snapshot \<Rightarrow> u64) \<Rightarrow> link_snapshot \<Rightarrow> string" where
  "link_sample name field l =
     name @ ''{link_id='' @ quoted (snap_id l) @ '',mode='' @ quoted (snap_mode l) @ ''} '' @
     show_word (field l)"

definition link_family ::
  "string \<Rightarrow> string \<Rightarrow> string \<Rightarrow> (link_snapshot \<Rightarrow> u64) \<Rightarrow> link_snapshot list \<Rightarrow> string list" where
  "link_family name help kind field ls = family name help kind @ map (link_sample name field) ls"

definition render_links :: "link_snapshot list \<Rightarrow> string list" where
  "render_links ls =
     (if ls = [] then [] else
      link_family ''ghostport_link_active_streams''
        ''Streams currently being relayed on this link.'' ''gauge'' snap_active ls @
      link_family ''ghostport_link_streams_total''
        ''Total streams ever opened on this link.'' ''counter'' snap_total ls @
      link_family ''ghostport_link_bytes_forward_total''
        ''Bytes relayed in the forward direction on this link.'' ''counter'' snap_forward ls @
      link_family ''ghostport_link_bytes_back_total''
        ''Bytes relayed in the opposite direction on this link.'' ''counter'' snap_back ls)"

definition render_status :: "status_snapshot \<Rightarrow> string list" where
  "render_status s =
     family ''ghostport_uptime_seconds'' ''Seconds since the daemon started.'' ''gauge'' @
     [''ghostport_uptime_seconds '' @ show_word (uptime_secs s)] @
     family ''ghostport_control_connected''
       ''Whether the control channel is currently connected.'' ''gauge'' @
     [''ghostport_control_connected '' @ show_bool (snap_connected s)] @
     (case connected_since_secs_ago s of None \<Rightarrow> []
      | Some n \<Rightarrow>
          family ''ghostport_control_connected_seconds''
            ''Seconds since the current control connection was established.'' ''gauge'' @
          [''ghostport_control_connected_seconds '' @ show_word n]) @
     render_links (snap_links s)"

definition render_lines :: "status_snapshot option \<Rightarrow> string list" where
  "render_lines snap =
     family ''ghostport_up'' ''Whether the ghostport daemon's status socket answered this scrape.''
       ''gauge'' @
     [''ghostport_up '' @ show_bool (snap \<noteq> None)] @
     (case snap of None \<Rightarrow> [] | Some s \<Rightarrow> render_status s)"

definition line_feed :: char where
  "line_feed = CHR 0x0A"

definition render :: "status_snapshot option \<Rightarrow> string" where
  "render snap = concat (map (\<lambda>l. l @ [line_feed]) (render_lines snap))"

subsection \<open>One HTTP exchange\<close>

definition max_request_line :: nat where
  "max_request_line = 8192"

fun read_request_line :: "string \<Rightarrow> (io_error + string) list \<Rightarrow> (io_error + string) option" where
  "read_request_line buf [] = None"
| "read_request_line buf (Inl e # reads) = Some (Inl e)"
| "read_request_line buf (Inr chunk # reads) =
     (if chunk = [] then Some (Inr (trim (from_utf8_lossy buf)))
      else let buf = buf @ chunk in
        case position (\<lambda>b. b = line_feed) buf of
          Some pos \<Rightarrow> Some (Inr (trim (from_utf8_lossy (take pos buf))))
        | None \<Rightarrow>
            if max_request_line < length buf then Some (Inl Invalid_Data)
            else read_request_line buf reads)"

definition parse_request_path :: "string \<Rightarrow> string option" where
  "parse_request_path request_line =
     (case split_whitespace request_line of
        request_method # path # parts \<Rightarrow> if request_method \<noteq> ''GET'' then None else Some path
      | _ \<Rightarrow> None)"

definition crlf :: string where
  "crlf = [CHR 0x0D, CHR 0x0A]"

definition http_response :: "u16 \<Rightarrow> string \<Rightarrow> string \<Rightarrow> string \<Rightarrow> string" where
  "http_response status reason content_type body =
     ''HTTP/1.1 '' @ show_word status @ '' '' @ reason @ crlf @
     ''Content-Type: '' @ content_type @ crlf @
     ''Content-Length: '' @ show_nat (length body) @ crlf @
     ''Connection: close'' @ crlf @ crlf @ body"

text \<open>\<open>query_snapshot\<close>: the query's result unless it fails or times out.\<close>

definition query_snapshot :: "(string + status_snapshot) timed \<Rightarrow> status_snapshot option" where
  "query_snapshot q = (case q of In_Time (Inr s) \<Rightarrow> Some s | _ \<Rightarrow> None)"

text \<open>What \<open>handle_connection\<close> writes; \<open>in_time\<close> is the five seconds of the request line.\<close>

definition handle_http ::
  "bool \<Rightarrow> (io_error + string) list \<Rightarrow> (string + status_snapshot) timed \<Rightarrow> string option" where
  "handle_http in_time reads q =
     (if \<not> in_time then None
      else case read_request_line [] reads of
        Some (Inr line) \<Rightarrow>
          Some (if parse_request_path line = Some ''/metrics''
                then http_response 200 ''OK'' ''text/plain; version=0.0.4''
                       (render (query_snapshot q))
                else http_response 404 ''Not Found'' ''text/plain'' (''not found'' @ [line_feed]))
      | _ \<Rightarrow> None)"

subsection \<open>The exporter\<close>

text \<open>
  The accept loop spawns a task per connection; an accept that fails ends it with the error. The
  answers are in the order of the connections, \<open>None\<close> where nothing is written.
\<close>

record scrape =
  scrape_in_time :: bool
  scrape_reads :: "(io_error + string) list"
  scrape_query :: "(string + status_snapshot) timed"

fun serve :: "(string + scrape) list \<Rightarrow> string option list \<times> string option" where
  "serve [] = ([], None)"
| "serve (Inl e # accepts) = ([], Some e)"
| "serve (Inr s # accepts) =
     (let (answers, error) = serve accepts
      in (handle_http (scrape_in_time s) (scrape_reads s) (scrape_query s) # answers, error))"

text \<open>
  \<open>main\<close>: the lines printed, the answers, and whether the process ends in \<open>ExitCode::FAILURE\<close>
  (\<open>None\<close>: it still runs).
\<close>

definition metrics_main ::
  "string \<Rightarrow> string option \<Rightarrow> string \<Rightarrow> string option \<Rightarrow> (string + scrape) list \<Rightarrow>
     string list \<times> string option list \<times> unit option" where
  "metrics_main default_socket socket listen bind_error accepts =
     (let socket_path = (case socket of Some p \<Rightarrow> p | None \<Rightarrow> default_socket)
      in case bind_error of
        Some e \<Rightarrow> ([''ghostport-metrics: failed to bind '' @ listen @ '': '' @ e], [], Some ())
      | None \<Rightarrow>
         (let (answers, error) = serve accepts;
              up = ''ghostport-metrics: serving /metrics on http://'' @ listen @ '' (querying '' @ socket_path @ '')''
          in case error of
               None \<Rightarrow> ([up], answers, None)
             | Some e \<Rightarrow> ([up, ''ghostport-metrics: fatal: '' @ e], answers, Some ())))"

text \<open>
  Connections are answered independently of each other up to the first failed accept, which ends
  the process.
\<close>

lemma serve_until_error:
  "serve (map Inr ss @ Inl e # accepts) =
     (map (\<lambda>s. handle_http (scrape_in_time s) (scrape_reads s) (scrape_query s)) ss, Some e)"
  "serve (map Inr ss) = (map (\<lambda>s. handle_http (scrape_in_time s) (scrape_reads s) (scrape_query s)) ss, None)"
  by (induction ss) simp_all

lemmas render_defs = render_lines_def render_status_def render_links_def link_family_def family_def

subsection \<open>Reading a response\<close>

text \<open>
  A client's view: the lines of the head up to the empty one, the value of \<open>Content-Length\<close>, and
  that many bytes after the head.
\<close>

function split_head :: "string \<Rightarrow> string \<Rightarrow> string list \<times> string" where
  "split_head line s =
     (if s = [] then ([line], [])
      else if take 2 s = crlf then
        (if line = [] then ([], drop 2 s)
         else let (ls, body) = split_head [] (drop 2 s) in (line # ls, body))
      else split_head (line @ [hd s]) (tl s))"
  by pat_completeness auto
termination
  by (relation "measure (\<lambda>(_, s). length s)") auto

declare split_head.simps [simp del]

definition content_length :: "string list \<Rightarrow> nat option" where
  "content_length headers =
     map_option (\<lambda>h. digits_val 0 (drop 16 h)) (find (\<lambda>h. take 16 h = ''Content-Length: '') headers)"

definition http_body :: "string \<Rightarrow> string option" where
  "http_body resp =
     (case split_head [] resp of (headers, rest) \<Rightarrow>
        (case content_length headers of None \<Rightarrow> None
         | Some n \<Rightarrow> if n \<le> length rest then Some (take n rest) else None))"

definition no_cr :: "string \<Rightarrow> bool" where
  "no_cr s \<longleftrightarrow> CHR 0x0D \<notin> set s"

lemma split_head_text: "no_cr t \<Longrightarrow> split_head line (t @ s) = split_head (line @ t) s"
proof (induction t arbitrary: line)
  case (Cons c t)
  then have "take 2 (c # t @ s) \<noteq> crlf" by (auto simp: no_cr_def crlf_def)
  then have "split_head line (c # t @ s) = split_head (line @ [c]) (t @ s)"
    by (subst split_head.simps) simp
  then show ?case using Cons by (simp add: no_cr_def)
qed simp

lemma split_head_line:
  assumes "no_cr l" and "l \<noteq> []"
  shows "split_head [] (l @ crlf @ s) = (l # fst (split_head [] s), snd (split_head [] s))"
proof -
  have "split_head [] (l @ crlf @ s) = split_head l (crlf @ s)"
    using split_head_text [OF assms(1)] by simp
  also have "\<dots> = (l # fst (split_head [] s), snd (split_head [] s))"
    by (subst split_head.simps) (simp add: crlf_def assms(2) case_prod_unfold Let_def)
  finally show ?thesis .
qed

lemma split_head_end: "split_head [] (crlf @ s) = ([], s)"
  by (subst split_head.simps) (simp add: crlf_def)

lemma split_head_step:
  "no_cr l \<Longrightarrow> l \<noteq> [] \<Longrightarrow> split_head [] s = (ls, b) \<Longrightarrow>
     split_head [] (l @ crlf @ s) = (l # ls, b)"
  by (simp add: split_head_line)

lemma no_cr_append [simp]: "no_cr (a @ b) \<longleftrightarrow> no_cr a \<and> no_cr b"
  by (auto simp: no_cr_def)

lemma no_cr_show_nat [simp]: "no_cr (show_nat n)" "no_cr (show_word w)"
proof -
  have "\<not> is_digit (CHR 0x0D)" by (simp add: is_digit_def byte_def)
  then show "no_cr (show_nat n)" using show_nat_digits [of n] by (auto simp: no_cr_def)
  then show "no_cr (show_word w)"
    using show_nat_digits [of "unat w"] \<open>\<not> is_digit (CHR 0x0D)\<close>
    by (auto simp: no_cr_def show_word_def)
qed

lemma http_body_response:
  assumes "no_cr reason" and "no_cr content_type"
  shows "http_body (http_response status reason content_type body) = Some body"
proof -
  let ?l1 = "''HTTP/1.1 '' @ show_word status @ '' '' @ reason"
  let ?l2 = "''Content-Type: '' @ content_type"
  let ?l3 = "''Content-Length: '' @ show_nat (length body)"
  let ?l4 = "''Connection: close''"
  have n: "no_cr ?l1" "no_cr ?l2" "no_cr ?l3" "no_cr ?l4"
    using assms by (simp_all del: append_Cons append_Nil) (simp_all add: no_cr_def)
  have resp: "http_response status reason content_type body =
      ?l1 @ crlf @ ?l2 @ crlf @ ?l3 @ crlf @ ?l4 @ crlf @ crlf @ body"
    by (simp add: http_response_def)
  have split: "split_head [] (http_response status reason content_type body) =
      ([?l1, ?l2, ?l3, ?l4], body)"
    unfolding resp
    by (rule split_head_step [OF n(1) _ split_head_step [OF n(2) _ split_head_step [OF n(3) _
          split_head_step [OF n(4) _ split_head_end]]]]) simp_all
  have "content_length [?l1, ?l2, ?l3, ?l4] = Some (length body)"
    by (simp add: content_length_def digits_val_show_nat)
  then show ?thesis by (simp only: http_body_def split) simp
qed

subsection \<open>Reading the request line\<close>

lemma read_request_bound:
  assumes "\<forall>c \<in> set cs. length c \<le> 512" and "length buf \<le> max_request_line"
    and "read_request_line buf (map Inr cs) = Some (Inr line)"
  shows "\<exists>raw. line = trim (from_utf8_lossy raw) \<and> length raw \<le> max_request_line + 511"
  using assms
proof (induction cs arbitrary: buf)
  case (Cons c cs)
  show ?case
  proof (cases "c = []")
    case True
    then show ?thesis using Cons.prems by auto
  next
    case False
    show ?thesis
    proof (cases "position (\<lambda>b. b = line_feed) (buf @ c)")
      case None
      then have "length (buf @ c) \<le> max_request_line"
        "read_request_line (buf @ c) (map Inr cs) = Some (Inr line)"
        using Cons.prems(3) False by (auto simp: Let_def split: if_splits)
      then show ?thesis using Cons.IH [of "buf @ c"] Cons.prems(1) by simp
    next
      case (Some pos)
      then have "pos < length (buf @ c)" using position_Some [OF Some] by simp
      moreover have "length c \<le> 512" using Cons.prems(1) by simp
      ultimately have "pos \<le> max_request_line + 511" using Cons.prems(2) by simp
      then have "length (take pos (buf @ c)) \<le> max_request_line + 511"
        by (simp only: length_take)
      then show ?thesis using Cons.prems(3) False Some by (auto simp: Let_def)
    qed
  qed
qed simp

text \<open>How the stream is cut into reads does not matter for a line within the bound.\<close>

lemma position_append_hit:
  "position p xs = Some i \<Longrightarrow> position p (xs @ ys) = Some i"
  by (induction xs arbitrary: i) auto

lemma read_request_chunks:
  assumes "\<forall>c \<in> set cs. c \<noteq> []" and "\<forall>b \<in> set line. b \<noteq> line_feed"
    and "buf @ concat cs = line @ line_feed # rest" and "\<forall>b \<in> set buf. b \<noteq> line_feed"
    and "length line \<le> max_request_line"
  shows "read_request_line buf (map Inr cs @ later) = Some (Inr (trim (from_utf8_lossy line)))"
  using assms(1,3,4)
proof (induction cs arbitrary: buf)
  case Nil
  then have "line_feed \<in> set buf" by (metis append_Nil2 concat.simps(1) in_set_conv_decomp)
  then show ?case using Nil.prems(3) by blast
next
  case (Cons c cs)
  show ?case
  proof (cases "position (\<lambda>b. b = line_feed) (buf @ c)")
    case (Some pos)
    have "position (\<lambda>b. b = line_feed) (line @ line_feed # rest) = Some pos"
      using position_append_hit [OF Some, of "concat cs"] Cons.prems(2) by simp
    moreover have "position (\<lambda>b. b = line_feed) ((line @ [line_feed]) @ rest) = Some (length line)"
      using assms(2) by (intro position_append_hit position_append_new) auto
    ultimately have pos: "pos = length line" by simp
    have "pos < length (buf @ c)" using position_Some [OF Some] by simp
    then have "take pos (buf @ c) = take pos (buf @ c @ concat cs)" by simp
    also have "\<dots> = line" using Cons.prems(2) pos by simp
    finally show ?thesis using Some Cons.prems(1) by simp
  next
    case None
    then have clean: "\<forall>b \<in> set (buf @ c). b \<noteq> line_feed" by (auto simp: position_None)
    have eq: "(buf @ c) @ concat cs = line @ line_feed # rest" using Cons.prems(2) by simp
    have "length (buf @ c) \<le> length line"
    proof (rule ccontr)
      assume "\<not> ?thesis"
      then have "(buf @ c) ! length line = line_feed" "length line < length (buf @ c)"
        using eq by (metis not_le nth_append nth_append_length, simp)
      then show False using clean by (metis nth_mem)
    qed
    then have "\<not> max_request_line < length (buf @ c)" using assms(5) by simp
    moreover have "read_request_line (buf @ c) (map Inr cs @ later) =
        Some (Inr (trim (from_utf8_lossy line)))"
      by (rule Cons.IH [OF _ eq clean]) (use Cons.prems(1) in simp)
    ultimately show ?thesis using None Cons.prems(1) by simp
  qed
qed

subsection \<open>What a scrape says\<close>

lemma render_down:
  "render None = concat (map (\<lambda>l. l @ [line_feed])
     (family ''ghostport_up'' ''Whether the ghostport daemon's status socket answered this scrape.''
        ''gauge'' @ [''ghostport_up 0'']))"
  by (simp add: render_def render_lines_def show_bool_def)

lemma render_link_lines:
  assumes "l \<in> set (snap_links s)"
  shows "link_sample ''ghostport_link_active_streams'' snap_active l \<in> set (render_lines (Some s))"
    and "link_sample ''ghostport_link_streams_total'' snap_total l \<in> set (render_lines (Some s))"
    and "link_sample ''ghostport_link_bytes_forward_total'' snap_forward l \<in> set (render_lines (Some s))"
    and "link_sample ''ghostport_link_bytes_back_total'' snap_back l \<in> set (render_lines (Some s))"
  using assms by (auto simp: render_lines_def render_status_def render_links_def link_family_def)

end
