(* ===== verification/F64.thy ===== *)
theory F64
  imports Complex_Main Rust_Std
begin

section \<open>The floating-point numbers of the console\<close>

text \<open>
  The console divides byte counts by seconds and by powers of 1024 and prints one decimal. An
  \<open>f64\<close> is its exact value, a rational; an operation of the code rounds its exact result to 53
  significant bits, ties to even. All values of the program are zero or between \<open>2 ^ -64\<close> and
  \<open>2 ^ 128\<close>, far inside the range of normal numbers, so there are no subnormals, infinities or NaNs.
\<close>

type_synonym f64 = rat

fun bit_length :: "nat \<Rightarrow> nat" where
  "bit_length n = (if n = 0 then 0 else Suc (bit_length (n div 2)))"

declare bit_length.simps [simp del]

text \<open>The power of two below a positive number, and the spacing of the doubles there.\<close>

definition binade :: "rat \<Rightarrow> rat" where
  "binade q =
     (if 1 \<le> q then 2 ^ (bit_length (nat \<lfloor>q\<rfloor>) - 1)
      else 1 / 2 ^ bit_length (nat \<lceil>1 / q\<rceil> - 1))"

definition ulp :: "rat \<Rightarrow> rat" where
  "ulp q = binade q / 2 ^ 52"

definition round_half_even :: "rat \<Rightarrow> int" where
  "round_half_even x =
     (let f = \<lfloor>x\<rfloor>; r = x - of_int f
      in if r < 1 / 2 then f else if 1 / 2 < r then f + 1 else if even f then f else f + 1)"

definition f64_round :: "rat \<Rightarrow> f64" where
  "f64_round q = (if q = 0 then 0 else of_int (round_half_even (q / ulp q)) * ulp q)"

subsection \<open>The operations the code uses\<close>

text \<open>\<open>n as f64\<close>, \<open>a / b\<close>, \<open>Duration::as_secs_f64\<close>, \<open>f64::round\<close> followed by \<open>as u64\<close>, and \<open>{:.1}\<close>.\<close>

definition f64_of_nat :: "nat \<Rightarrow> f64" where
  "f64_of_nat n = f64_round (of_nat n)"

definition f64_div :: "f64 \<Rightarrow> f64 \<Rightarrow> f64" where
  "f64_div a b = f64_round (a / b)"

definition as_secs_f64 :: "duration \<Rightarrow> f64" where
  "as_secs_f64 d =
     f64_round (f64_of_nat (d div 1000000000) + f64_div (f64_of_nat (d mod 1000000000)) 1000000000)"

definition round_to_u64 :: "f64 \<Rightarrow> u64" where
  "round_to_u64 q = of_nat (min (nat \<lfloor>q + 1 / 2\<rfloor>) (2 ^ 64 - 1))"

definition show_tenths :: "f64 \<Rightarrow> string" where
  "show_tenths q =
     (let t = nat (round_half_even (10 * q)) in show_nat (t div 10) @ ''.'' @ show_nat (t mod 10))"

subsection \<open>Rounding\<close>

lemma bit_length_bounds: "0 < n \<Longrightarrow> 2 ^ (bit_length n - 1) \<le> n \<and> n < 2 ^ bit_length n"
proof (induction n rule: bit_length.induct)
  case (1 n)
  have step: "bit_length n = Suc (bit_length (n div 2))"
    using "1.prems" by (simp add: bit_length.simps [of n])
  show ?case
  proof (cases "n div 2 = 0")
    case True
    then have "n = 1" using "1.prems" by auto
    moreover have "bit_length 0 = 0" by (simp add: bit_length.simps)
    ultimately show ?thesis using step by simp
  next
    case False
    then have ih: "2 ^ (bit_length (n div 2) - 1) \<le> n div 2" "n div 2 < 2 ^ bit_length (n div 2)"
      using 1 by auto
    have "bit_length (n div 2) = Suc (bit_length (n div 2) - 1)"
      using False by (simp add: bit_length.simps [of "n div 2"])
    then obtain k where k: "bit_length (n div 2) = Suc k" by blast
    have "2 * (n div 2) \<le> n" "n < 2 * (n div 2) + 2" by linarith+
    then show ?thesis using ih step k by auto
  qed
qed

lemma round_half_even_error: "\<bar>of_int (round_half_even x) - x\<bar> \<le> 1 / 2"
proof -
  have "of_int \<lfloor>x\<rfloor> \<le> x" "x < of_int \<lfloor>x\<rfloor> + 1" by linarith+
  then show ?thesis by (auto simp: round_half_even_def Let_def abs_le_iff field_simps)
qed

lemma round_half_even_int [simp]: "round_half_even (of_int k) = k"
  by (simp add: round_half_even_def)

lemma round_half_even_nonneg: "0 \<le> x \<Longrightarrow> 0 \<le> round_half_even x"
  by (auto simp: round_half_even_def Let_def)

lemma binade_pos: "0 < binade q"
  by (simp add: binade_def)

lemma binade_le: "0 < q \<Longrightarrow> binade q \<le> q"
proof (cases "1 \<le> q")
  case True
  then have "0 < nat \<lfloor>q\<rfloor>" by simp
  then have "(2::nat) ^ (bit_length (nat \<lfloor>q\<rfloor>) - 1) \<le> nat \<lfloor>q\<rfloor>" using bit_length_bounds by blast
  then have "(of_nat (2 ^ (bit_length (nat \<lfloor>q\<rfloor>) - 1)) :: rat) \<le> of_nat (nat \<lfloor>q\<rfloor>)" by (simp only: of_nat_le_iff)
  also have "(of_nat (nat \<lfloor>q\<rfloor>) :: rat) \<le> q" using True by simp
  finally show ?thesis using True by (simp add: binade_def)
next
  case False
  assume q: "0 < q"
  let ?c = "nat \<lceil>1 / q\<rceil> - 1"
  have "1 < 1 / q" using False q by (simp add: field_simps)
  then have c: "2 \<le> nat \<lceil>1 / q\<rceil>" by linarith
  have "0 < ?c" using c by linarith
  then have "?c < 2 ^ bit_length ?c" using bit_length_bounds by blast
  then have "nat \<lceil>1 / q\<rceil> \<le> 2 ^ bit_length ?c" using c by linarith
  then have "(of_nat (nat \<lceil>1 / q\<rceil>) :: rat) \<le> of_nat (2 ^ bit_length ?c)" by (simp only: of_nat_le_iff)
  moreover have "1 / q \<le> of_nat (nat \<lceil>1 / q\<rceil>)" using c by linarith
  ultimately have "1 / q \<le> of_nat (2 ^ bit_length ?c)" by (rule order_trans [rotated])
  then have "1 / q \<le> 2 ^ bit_length ?c" by (simp only: of_nat_power of_nat_numeral)
  then show ?thesis using False q by (simp add: binade_def field_simps)
qed

text \<open>The rounding error is at most one part in \<open>2 ^ 53\<close>, and whole numbers below \<open>2 ^ 53\<close> are exact.\<close>

lemma f64_round_error:
  assumes "0 \<le> q"
  shows "\<bar>f64_round q - q\<bar> \<le> q / 2 ^ 53"
proof (cases "q = 0")
  case False
  with assms have q: "0 < q" by simp
  have u: "0 < ulp q" by (simp add: ulp_def binade_pos)
  have "f64_round q - q = (of_int (round_half_even (q / ulp q)) - q / ulp q) * ulp q"
    using q u by (simp add: f64_round_def field_simps)
  then have "\<bar>f64_round q - q\<bar> = \<bar>of_int (round_half_even (q / ulp q)) - q / ulp q\<bar> * ulp q"
    using u by (simp add: abs_mult)
  also have "\<dots> \<le> 1 / 2 * ulp q"
    using round_half_even_error [of "q / ulp q"] u by (intro mult_right_mono) simp_all
  also have "\<dots> \<le> q / 2 ^ 53" using binade_le [OF q] by (simp add: ulp_def)
  finally show ?thesis .
qed (simp add: f64_round_def)

lemma f64_round_nonneg: "0 \<le> q \<Longrightarrow> 0 \<le> f64_round q"
  using binade_pos [of q] round_half_even_nonneg [of "q / ulp q"]
  by (simp add: f64_round_def ulp_def)

lemma bit_length_half: "bit_length (n div 2) = bit_length n - 1"
  by (simp add: bit_length.simps [of n] bit_length.simps [of 0])

lemma bit_length_div: "bit_length (n div 2 ^ k) = bit_length n - k"
proof (induction k)
  case (Suc k)
  have "n div 2 ^ Suc k = n div 2 ^ k div 2" by (simp add: div_mult2_eq power_Suc2 del: power_Suc)
  then show ?case using Suc bit_length_half [of "n div 2 ^ k"] by simp
qed simp

lemma floor_of_nat_div: "\<lfloor>of_nat n / of_nat d :: rat\<rfloor> = int (n div d)"
  using floor_divide_of_int_eq [of "int n" "int d", where 'a = rat] by (simp add: zdiv_int)

lemma one_le_power_div: "2 ^ k \<le> n \<Longrightarrow> 1 \<le> (of_nat n / 2 ^ k :: rat)"
proof -
  assume "2 ^ k \<le> n"
  then have "(of_nat (2 ^ k) :: rat) \<le> of_nat n" by (simp only: of_nat_le_iff)
  then show ?thesis by simp
qed

text \<open>A whole number below \<open>2 ^ 53\<close>, and such a number divided by a smaller power of two, is a double.\<close>

lemma f64_round_dyadic:
  assumes "n < 2 ^ 53" and "2 ^ k \<le> n"
  shows "f64_round (of_nat n / 2 ^ k) = of_nat n / 2 ^ k"
proof -
  define b where "b = bit_length (n div 2 ^ k) - 1"
  have n: "0 < n" using assms(2) by (metis gr0I le_zero_eq power_not_zero zero_neq_numeral)
  have "bit_length n - 1 < 53"
  proof -
    have "2 ^ (bit_length n - 1) \<le> n" using bit_length_bounds n by blast
    then have "(2::nat) ^ (bit_length n - 1) < 2 ^ 53" using assms(1) by linarith
    then show ?thesis using power_less_imp_less_exp [of "2::nat" "bit_length n - 1" 53] by simp
  qed
  moreover have kb: "k < bit_length n"
  proof -
    have "(2::nat) ^ k < 2 ^ bit_length n" using bit_length_bounds [OF n] assms(2) by linarith
    then show ?thesis using power_less_imp_less_exp [of "2::nat" k] by simp
  qed
  ultimately have bk: "b + k \<le> 52" by (simp add: b_def bit_length_div)
  have fl: "\<lfloor>of_nat n / 2 ^ k :: rat\<rfloor> = int (n div 2 ^ k)"
    using floor_of_nat_div [of n "2 ^ k"] by simp
  have one: "1 \<le> (of_nat n / 2 ^ k :: rat)"
    using one_le_power_div [OF assms(2)] .
  have u: "ulp (of_nat n / 2 ^ k) = 2 ^ b / 2 ^ 52"
    using one by (simp add: ulp_def binade_def fl b_def)
  have p: "(2::rat) ^ 52 = 2 ^ b * 2 ^ k * 2 ^ (52 - (b + k))"
    unfolding power_add [symmetric] using bk by (intro arg_cong [of _ _ "\<lambda>e. 2 ^ e"]) simp
  have q: "of_nat n / 2 ^ k / ulp (of_nat n / 2 ^ k) = (of_int (int n * 2 ^ (52 - (b + k))) :: rat)"
    unfolding u p by (simp add: field_simps)
  have "f64_round (of_nat n / 2 ^ k) = of_int (int n * 2 ^ (52 - (b + k))) * ulp (of_nat n / 2 ^ k)"
    using n by (simp only: f64_round_def q round_half_even_int) simp
  also have "\<dots> = of_nat n / 2 ^ k" unfolding u p by simp
  finally show ?thesis .
qed

lemma f64_of_nat_exact: "n < 2 ^ 53 \<Longrightarrow> f64_of_nat n = of_nat n"
  using f64_round_dyadic [of n 0] by (cases "n = 0") (simp_all add: f64_of_nat_def f64_round_def)

end
