(* ===== verification/Tui_App.thy ===== *)
theory Tui_App
  imports Stats Session
begin

section \<open>The console's state (\<open>tui/app.rs\<close>, \<open>tui/templates.rs\<close>, \<open>tui/format.rs\<close>)\<close>

text \<open>
  The whole of \<open>App\<close> as one record and each of its methods as a function on it: the status, the
  wizard that adds or edits a link, the wizard that adds or edits a peer with its checklist, the
  service menu, and saving. The lists of links and peers are edited by one operation, an instance
  of \<open>keyed_store\<close>; the five cursors are instances of \<open>wrapping_cursor\<close>. The division by the
  elapsed time in \<open>link_rate\<close> is floating point: here it returns the operands.
\<close>

subsection \<open>Enumerations\<close>

datatype tab = Tab_Status | Tab_Links | Tab_Service | Tab_Peers

datatype service_action = Start | Stop | Restart | Enable | Disable | Install_Unit | View_Logs

definition service_menu :: "service_action list" where
  "service_menu = [Start, Stop, Restart, Enable, Disable, Install_Unit, View_Logs]"

fun systemctl_verb :: "service_action \<Rightarrow> string" where
  "systemctl_verb Start = ''start''"
| "systemctl_verb Stop = ''stop''"
| "systemctl_verb Restart = ''restart''"
| "systemctl_verb Enable = ''enable''"
| "systemctl_verb Disable = ''disable''"
| "systemctl_verb _ = []"

definition needs_confirm :: "service_action \<Rightarrow> bool" where
  "needs_confirm a \<longleftrightarrow> a \<noteq> View_Logs"

datatype ui_mode = Normal | Choose_Template | Add_Link_Id | Add_Link_Direction | Add_Link_Address
  | Confirm_Remove_Link | Confirm_Service_Action | Add_Peer_Name | Add_Peer_Public_Key
  | Add_Peer_Links | Confirm_Remove_Peer

subsection \<open>Templates\<close>

record link_template =
  t_name :: string
  t_mode :: link_mode
  default_id :: string
  default_port :: u16

definition template :: "string \<Rightarrow> link_mode \<Rightarrow> string \<Rightarrow> u16 \<Rightarrow> link_template" where
  "template n m i p = \<lparr>t_name = n, t_mode = m, default_id = i, default_port = p\<rparr>"

definition templates :: "link_template list" where
  "templates =
     [template ''SSH'' Forward ''ssh'' 22,
      template ''HTTP'' Forward ''http'' 80,
      template ''HTTPS'' Forward ''https'' 443,
      template ''PostgreSQL'' Forward ''postgres'' 5432,
      template ''MySQL / MariaDB'' Forward ''mysql'' 3306,
      template ''Redis'' Forward ''redis'' 6379,
      template ''Expose local dev server'' Reverse ''dev'' 3000,
      template ''Expose local web server'' Reverse ''web'' 8080]"

definition custom_index :: nat where
  "custom_index = length templates"

definition menu_len :: nat where
  "menu_len = length templates + 1"

subsection \<open>The state\<close>

record app =
  config_path :: string
  app_config :: config
  dirty :: bool
  tab_of :: tab
  mode_of :: ui_mode
  input_buffer :: string
  links_selected :: nat
  template_selected :: nat
  service_menu_selected :: nat
  status_snap :: "status_snapshot option"
  status_error :: "string option"
  previous_snapshot :: "(instant \<times> status_snapshot) option"
  status_captured_at :: "instant option"
  service_state :: "string option"
  enabled_state :: "string option"
  pending_service_action :: "service_action option"
  message :: "string option"
  should_quit :: bool
  pending_link_id :: "string option"
  pending_link_mode :: "link_mode option"
  pending_default_address :: "string option"
  editing_original_id :: "string option"
  peers_selected :: nat
  pending_peer_name :: "string option"
  pending_peer_public_key :: "string option"
  pending_default_peer_public_key :: "string option"
  pending_peer_links :: "string list"
  peer_links_cursor :: nat
  editing_original_peer_name :: "string option"

definition new_app :: "string \<Rightarrow> config \<Rightarrow> app" where
  "new_app path cfg =
     \<lparr>config_path = path, app_config = cfg, dirty = False, tab_of = Tab_Status, mode_of = Normal,
      input_buffer = [], links_selected = 0, template_selected = 0, service_menu_selected = 0,
      status_snap = None, status_error = None, previous_snapshot = None,
      status_captured_at = None, service_state = None, enabled_state = None,
      pending_service_action = None, message = None, should_quit = False,
      pending_link_id = None, pending_link_mode = None, pending_default_address = None,
      editing_original_id = None, peers_selected = 0, pending_peer_name = None,
      pending_peer_public_key = None, pending_default_peer_public_key = None,
      pending_peer_links = [], peer_links_cursor = 0, editing_original_peer_name = None\<rparr>"

abbreviation app_links :: "app \<Rightarrow> link_config list" where
  "app_links a \<equiv> cfg_links (app_config a)"

abbreviation app_peers :: "app \<Rightarrow> peer_config list" where
  "app_peers a \<equiv> cfg_peers (app_config a)"

definition set_links :: "link_config list \<Rightarrow> app \<Rightarrow> app" where
  "set_links ls a = a\<lparr>app_config := (app_config a)\<lparr>cfg_links := ls\<rparr>\<rparr>"

definition set_peers :: "peer_config list \<Rightarrow> app \<Rightarrow> app" where
  "set_peers ps a = a\<lparr>app_config := (app_config a)\<lparr>cfg_peers := ps\<rparr>\<rparr>"

definition unwrap_or_default :: "string option \<Rightarrow> string" where
  "unwrap_or_default x = (case x of Some s \<Rightarrow> s | None \<Rightarrow> [])"

subsection \<open>Status\<close>

definition apply_status :: "instant \<Rightarrow> string + status_snapshot \<Rightarrow> app \<Rightarrow> app" where
  "apply_status now r a =
     (case r of
        Inr snap \<Rightarrow>
          a\<lparr>previous_snapshot :=
              (case status_snap a of
                 Some current \<Rightarrow>
                   Some (case status_captured_at a of Some t \<Rightarrow> t | None \<Rightarrow> now, current)
               | None \<Rightarrow> previous_snapshot a),
            status_captured_at := Some now, status_snap := Some snap, status_error := None\<rparr>
      | Inl e \<Rightarrow> a\<lparr>status_snap := None, status_error := Some e\<rparr>)"

text \<open>The two byte differences and the elapsed time that \<open>link_rate\<close> divides.\<close>

definition link_rate :: "string \<Rightarrow> app \<Rightarrow> (u64 \<times> u64 \<times> duration) option" where
  "link_rate i a =
     (case previous_snapshot a of None \<Rightarrow> None
      | Some (prev_at, prev_snap) \<Rightarrow>
     (case status_snap a of None \<Rightarrow> None
      | Some cur_snap \<Rightarrow>
     (case status_captured_at a of None \<Rightarrow> None
      | Some cur_at \<Rightarrow>
         (let elapsed = duration_since cur_at prev_at in
          if elapsed = 0 then None
          else case find (\<lambda>l. snap_id l = i) (snap_links prev_snap) of None \<Rightarrow> None
          | Some prev_link \<Rightarrow>
         (case find (\<lambda>l. snap_id l = i) (snap_links cur_snap) of None \<Rightarrow> None
          | Some cur_link \<Rightarrow>
              Some (saturating_sub (snap_forward cur_link) (snap_forward prev_link),
                    saturating_sub (snap_back cur_link) (snap_back prev_link), elapsed))))))"

fun next_of :: "tab \<Rightarrow> tab" where
  "next_of Tab_Status = Tab_Links"
| "next_of Tab_Links = Tab_Service"
| "next_of Tab_Service = Tab_Peers"
| "next_of Tab_Peers = Tab_Status"

definition next_tab :: "app \<Rightarrow> app" where
  "next_tab a = a\<lparr>tab_of := next_of (tab_of a)\<rparr>"

subsection \<open>Links\<close>

definition selected_link :: "app \<Rightarrow> link_config option" where
  "selected_link a = nth_opt (app_links a) (links_selected a)"

definition move_link_selection :: "int \<Rightarrow> app \<Rightarrow> app" where
  "move_link_selection d a =
     (if app_links a = [] then a
      else a\<lparr>links_selected := wrap_index (links_selected a) d (length (app_links a))\<rparr>)"

definition begin_add_link :: "app \<Rightarrow> app" where
  "begin_add_link a =
     a\<lparr>editing_original_id := None, pending_link_id := None, pending_link_mode := None,
       pending_default_address := None, template_selected := 0, input_buffer := [],
       mode_of := Choose_Template\<rparr>"

definition begin_edit_link :: "app \<Rightarrow> app" where
  "begin_edit_link a =
     (case selected_link a of None \<Rightarrow> a
      | Some link \<Rightarrow>
          a\<lparr>editing_original_id := Some (link_id link), pending_link_id := None,
            pending_link_mode := None,
            pending_default_address := Some (unwrap_or_default
              (case link_listen link of Some x \<Rightarrow> Some x | None \<Rightarrow> link_target link)),
            input_buffer := link_id link, mode_of := Add_Link_Id\<rparr>)"

definition move_template_selection :: "int \<Rightarrow> app \<Rightarrow> app" where
  "move_template_selection d a =
     a\<lparr>template_selected := wrap_index (template_selected a) d menu_len\<rparr>"

definition confirm_template_choice :: "app \<Rightarrow> app" where
  "confirm_template_choice a =
     (let a = (if template_selected a = custom_index then a\<lparr>input_buffer := []\<rparr>
               else case nth_opt templates (template_selected a) of
                 Some t \<Rightarrow>
                   a\<lparr>pending_link_mode := Some (t_mode t),
                     pending_default_address := Some (''127.0.0.1:'' @ show_word (default_port t)),
                     input_buffer := default_id t\<rparr>
               | None \<Rightarrow> a)
      in a\<lparr>mode_of := Add_Link_Id\<rparr>)"

definition cancel_link_wizard :: "app \<Rightarrow> app" where
  "cancel_link_wizard a =
     a\<lparr>pending_link_id := None, pending_link_mode := None, pending_default_address := None,
       editing_original_id := None, input_buffer := [], mode_of := Normal\<rparr>"

definition confirm_link_id :: "app \<Rightarrow> app" where
  "confirm_link_id a =
     (let i = trim (input_buffer a) in
      if i = [] then cancel_link_wizard a
      else if pending_link_mode a \<noteq> None then
        a\<lparr>pending_link_id := Some i,
          input_buffer := unwrap_or_default (pending_default_address a), mode_of := Add_Link_Address\<rparr>
      else a\<lparr>pending_link_id := Some i, input_buffer := [], mode_of := Add_Link_Direction\<rparr>)"

definition choose_link_mode :: "link_mode \<Rightarrow> app \<Rightarrow> app" where
  "choose_link_mode m a =
     a\<lparr>pending_link_mode := Some m,
       input_buffer := unwrap_or_default (pending_default_address a), mode_of := Add_Link_Address\<rparr>"

definition pending_link_needs_listen :: "app \<Rightarrow> bool option" where
  "pending_link_needs_listen a =
     map_option (link_needs_listen (cfg_role (app_config a))) (pending_link_mode a)"

definition link_address_input_status :: "app \<Rightarrow> bool option" where
  "link_address_input_status a =
     (let trimmed = trim (input_buffer a) in
      if trimmed = [] then None else Some (parse_socket_addr trimmed \<noteq> None))"

text \<open>The list edit of both wizards.\<close>

definition upsert :: "('a \<Rightarrow> string) \<Rightarrow> string option \<Rightarrow> 'a \<Rightarrow> 'a list \<Rightarrow> 'a list" where
  "upsert key editing x xs =
     (let xs = (case editing of
                  Some old \<Rightarrow> if old \<noteq> key x then filter (\<lambda>y. key y \<noteq> old) xs else xs
                | None \<Rightarrow> xs)
      in filter (\<lambda>y. key y \<noteq> key x) xs @ [x])"

definition wizard_link :: "config \<Rightarrow> string \<Rightarrow> link_mode \<Rightarrow> string \<Rightarrow> link_config" where
  "wizard_link cfg i m addr =
     (if link_needs_listen (cfg_role cfg) m
      then \<lparr>link_id = i, link_mode = m, link_transport = Tcp, link_listen = Some addr, link_target = None\<rparr>
      else \<lparr>link_id = i, link_mode = m, link_transport = Tcp, link_listen = None, link_target = Some addr\<rparr>)"

definition unsaved_note :: string where
  "unsaved_note = '' (unsaved '' @ [CHR 0xE2, CHR 0x80, CHR 0x94] @
     '' press s to write, or the daemon won't see it until restart)''"

definition bad_address_note :: "string \<Rightarrow> string" where
  "bad_address_note addr =
     quoted addr @ '' isn't a valid host:port (e.g. 127.0.0.1:5432) '' @
     [CHR 0xE2, CHR 0x80, CHR 0x94] @ '' fix it and press enter''"

text \<open>The last step of \<open>confirm_link_address\<close>, once id, mode and address are there.\<close>

definition store_link :: "string \<Rightarrow> link_mode \<Rightarrow> string \<Rightarrow> app \<Rightarrow> app" where
  "store_link i m addr a =
     (let editing = editing_original_id a;
          ls = upsert link_id editing (wizard_link (app_config a) i m addr) (app_links a);
          verb = (if editing \<noteq> None then ''updated'' else ''added'')
      in (set_links ls a)
           \<lparr>pending_link_id := None, pending_link_mode := None, input_buffer := [],
            mode_of := Normal, editing_original_id := None, dirty := True,
            links_selected :=
              (case position (\<lambda>l. link_id l = i) ls of Some k \<Rightarrow> k | None \<Rightarrow> 0),
            pending_default_address := None,
            message := Some (verb @ '' '' @ quoted i @ unsaved_note)\<rparr>)"

definition confirm_link_address :: "app \<Rightarrow> app" where
  "confirm_link_address a =
     (case (pending_link_id a, pending_link_mode a) of
        (Some i, Some m) \<Rightarrow>
          (let addr = trim (input_buffer a) in
           if addr = [] then
             a\<lparr>pending_link_id := None, pending_link_mode := None, input_buffer := [],
               mode_of := Normal, editing_original_id := None, pending_default_address := None,
               message := Some ''cancelled: address can't be empty''\<rparr>
           else if parse_socket_addr addr = None then
             a\<lparr>pending_link_id := Some i, pending_link_mode := Some m,
               message := Some (bad_address_note addr)\<rparr>
           else store_link i m addr a)
      | _ \<Rightarrow> a\<lparr>pending_link_id := None, pending_link_mode := None, mode_of := Normal\<rparr>)"

definition remove_selected_link :: "app \<Rightarrow> app" where
  "remove_selected_link a =
     (if links_selected a < length (app_links a) then
        (set_links (remove_at (links_selected a) (app_links a)) a)
          \<lparr>links_selected := links_selected a - 1, dirty := True,
           message := Some (''removed '' @ quoted (link_id (app_links a ! links_selected a)) @
             '' (unsaved '' @ [CHR 0xE2, CHR 0x80, CHR 0x94] @ '' press s to write)''),
           mode_of := Normal\<rparr>
      else a\<lparr>mode_of := Normal\<rparr>)"

definition save_config ::
  "b64_decoder \<Rightarrow> (config \<Rightarrow> string + string) \<Rightarrow> fs_env \<Rightarrow> app \<Rightarrow> fs \<Rightarrow> app \<times> fs" where
  "save_config b64_dec toml_to env a s =
     (case save b64_dec toml_to env (app_config a) (config_path a) s of
        Inr s' \<Rightarrow> (a\<lparr>dirty := False, message := Some (''saved '' @ config_path a)\<rparr>, s')
      | Inl errors \<Rightarrow>
          (a\<lparr>message := Some (''refused to save '' @ [CHR 0xE2, CHR 0x80, CHR 0x94] @ '' '' @
               show_nat (length errors) @ '' problem(s): '' @ join ''; '' errors)\<rparr>,
           store_after_save b64_dec toml_to env (app_config a) (config_path a) s))"

subsection \<open>Peers\<close>

definition selected_peer :: "app \<Rightarrow> peer_config option" where
  "selected_peer a = nth_opt (app_peers a) (peers_selected a)"

definition move_peer_selection :: "int \<Rightarrow> app \<Rightarrow> app" where
  "move_peer_selection d a =
     (if app_peers a = [] then a
      else a\<lparr>peers_selected := wrap_index (peers_selected a) d (length (app_peers a))\<rparr>)"

definition begin_add_peer :: "app \<Rightarrow> app" where
  "begin_add_peer a =
     (if cfg_role (app_config a) \<noteq> Server
      then a\<lparr>message := Some (''peers are a server-role feature '' @ [CHR 0xE2, CHR 0x80, CHR 0x94] @
             '' this config's role is client'')\<rparr>
      else a\<lparr>editing_original_peer_name := None, pending_peer_name := None,
             pending_peer_public_key := None, pending_default_peer_public_key := None,
             pending_peer_links := [], peer_links_cursor := 0, input_buffer := [],
             mode_of := Add_Peer_Name\<rparr>)"

definition begin_edit_peer :: "app \<Rightarrow> app" where
  "begin_edit_peer a =
     (if cfg_role (app_config a) \<noteq> Server then a
      else case selected_peer a of None \<Rightarrow> a
      | Some p \<Rightarrow>
          a\<lparr>editing_original_peer_name := Some (peer_name p), pending_peer_name := None,
            pending_peer_public_key := None,
            pending_default_peer_public_key := Some (peer_key p),
            pending_peer_links := peer_links p, peer_links_cursor := 0,
            input_buffer := peer_name p, mode_of := Add_Peer_Name\<rparr>)"

definition cancel_peer_wizard :: "app \<Rightarrow> app" where
  "cancel_peer_wizard a =
     a\<lparr>pending_peer_name := None, pending_peer_public_key := None,
       pending_default_peer_public_key := None, pending_peer_links := [],
       editing_original_peer_name := None, input_buffer := [], mode_of := Normal\<rparr>"

definition confirm_peer_name :: "app \<Rightarrow> app" where
  "confirm_peer_name a =
     (let name = trim (input_buffer a) in
      if name = [] then cancel_peer_wizard a
      else a\<lparr>pending_peer_name := Some name,
             input_buffer := unwrap_or_default (pending_default_peer_public_key a),
             mode_of := Add_Peer_Public_Key\<rparr>)"

definition peer_public_key_input_status :: "b64_decoder \<Rightarrow> app \<Rightarrow> bool option" where
  "peer_public_key_input_status b64_dec a =
     (let trimmed = trim (input_buffer a) in
      if trimmed = [] then None else Some (\<not> isl (decode_public_key b64_dec trimmed)))"

definition confirm_peer_public_key :: "b64_decoder \<Rightarrow> app \<Rightarrow> app" where
  "confirm_peer_public_key b64_dec a =
     (if pending_peer_name a = None then a\<lparr>mode_of := Normal\<rparr>
      else let key = trim (input_buffer a) in
        if key = [] then
          a\<lparr>input_buffer := [], mode_of := Normal, editing_original_peer_name := None,
            pending_peer_name := None, pending_default_peer_public_key := None,
            message := Some ''cancelled: public key can't be empty''\<rparr>
        else if isl (decode_public_key b64_dec key) then
          a\<lparr>message := Some (''not a valid base64-encoded 32-byte key '' @
              [CHR 0xE2, CHR 0x80, CHR 0x94] @ '' fix it and press enter'')\<rparr>
        else a\<lparr>pending_peer_public_key := Some key, peer_links_cursor := 0,
               mode_of := Add_Peer_Links\<rparr>)"

definition move_peer_links_cursor :: "int \<Rightarrow> app \<Rightarrow> app" where
  "move_peer_links_cursor d a =
     (if app_links a = [] then a
      else a\<lparr>peer_links_cursor := wrap_index (peer_links_cursor a) d (length (app_links a))\<rparr>)"

definition toggle_peer_link :: "app \<Rightarrow> app" where
  "toggle_peer_link a =
     (case nth_opt (app_links a) (peer_links_cursor a) of None \<Rightarrow> a
      | Some link \<Rightarrow>
         (case position (\<lambda>l. l = link_id link) (pending_peer_links a) of
            Some pos \<Rightarrow> a\<lparr>pending_peer_links := remove_at pos (pending_peer_links a)\<rparr>
          | None \<Rightarrow> a\<lparr>pending_peer_links := pending_peer_links a @ [link_id link]\<rparr>))"

definition peer_link_is_checked :: "string \<Rightarrow> app \<Rightarrow> bool" where
  "peer_link_is_checked i a \<longleftrightarrow> list_ex (\<lambda>l. l = i) (pending_peer_links a)"

definition store_peer :: "string \<Rightarrow> string \<Rightarrow> app \<Rightarrow> app" where
  "store_peer name key a =
     (let editing = editing_original_peer_name a;
          p = \<lparr>peer_name = name, peer_key = key, peer_links = pending_peer_links a\<rparr>;
          ps = upsert peer_name editing p (app_peers a);
          verb = (if editing \<noteq> None then ''updated'' else ''added'')
      in (set_peers ps a)
           \<lparr>pending_peer_name := None, pending_peer_public_key := None, pending_peer_links := [],
            pending_default_peer_public_key := None, input_buffer := [], mode_of := Normal,
            editing_original_peer_name := None, dirty := True,
            peers_selected := (case position (\<lambda>q. peer_name q = name) ps of Some k \<Rightarrow> k | None \<Rightarrow> 0),
            message := Some (verb @ '' peer '' @ quoted name @ unsaved_note)\<rparr>)"

definition confirm_peer_links :: "app \<Rightarrow> app" where
  "confirm_peer_links a =
     (case (pending_peer_name a, pending_peer_public_key a) of
        (Some name, Some key) \<Rightarrow> store_peer name key a
      | _ \<Rightarrow> a\<lparr>pending_peer_name := None, pending_peer_public_key := None, mode_of := Normal\<rparr>)"

definition remove_selected_peer :: "app \<Rightarrow> app" where
  "remove_selected_peer a =
     (if peers_selected a < length (app_peers a) then
        (set_peers (remove_at (peers_selected a) (app_peers a)) a)
          \<lparr>peers_selected := peers_selected a - 1, dirty := True,
           message := Some (''removed peer '' @ quoted (peer_name (app_peers a ! peers_selected a)) @
             '' (unsaved '' @ [CHR 0xE2, CHR 0x80, CHR 0x94] @ '' press s to write)''),
           mode_of := Normal\<rparr>
      else a\<lparr>mode_of := Normal\<rparr>)"

subsection \<open>Service\<close>

definition move_service_selection :: "int \<Rightarrow> app \<Rightarrow> app" where
  "move_service_selection d a =
     a\<lparr>service_menu_selected := wrap_index (service_menu_selected a) d (length service_menu)\<rparr>"

definition selected_service_action :: "app \<Rightarrow> service_action" where
  "selected_service_action a = service_menu ! service_menu_selected a"

definition activate_selected_service_action :: "app \<Rightarrow> app" where
  "activate_selected_service_action a =
     (let act = selected_service_action a in
      if needs_confirm act
      then a\<lparr>pending_service_action := Some act, mode_of := Confirm_Service_Action\<rparr>
      else a\<lparr>pending_service_action := Some act\<rparr>)"

definition cancel_service_action :: "app \<Rightarrow> app" where
  "cancel_service_action a = a\<lparr>pending_service_action := None, mode_of := Normal\<rparr>"

subsection \<open>Durations\<close>

definition show_duration :: "u64 \<Rightarrow> string" where
  "show_duration total_secs =
     (let t = unat total_secs;
          days = t div 86400; hours = t mod 86400 div 3600; mins = t mod 3600 div 60; s = t mod 60
      in if 0 < days then show_nat days @ ''d '' @ show_nat hours @ ''h '' @ show_nat mins @ ''m''
         else if 0 < hours then show_nat hours @ ''h '' @ show_nat mins @ ''m '' @ show_nat s @ ''s''
         else if 0 < mins then show_nat mins @ ''m '' @ show_nat s @ ''s''
         else show_nat s @ ''s'')"

subsection \<open>The lists are keyed stores, the cursors wrap\<close>

lemma upsert_set:
  "y \<in> set (upsert key old x xs) \<longleftrightarrow> y = x \<or> (y \<in> set xs \<and> key y \<noteq> key x \<and> old \<noteq> Some (key y))"
  by (auto simp: upsert_def Let_def split: option.splits if_splits)

lemma upsert_keys_distinct: "distinct (map key xs) \<Longrightarrow> distinct (map key (upsert key old x xs))"
  by (auto simp: upsert_def Let_def distinct_map_filter' split: option.split)

interpretation link_store: keyed_store link_id "upsert link_id"
  by unfold_locales (auto simp: upsert_set upsert_keys_distinct)

interpretation peer_store: keyed_store peer_name "upsert peer_name"
  by unfold_locales (auto simp: upsert_set upsert_keys_distinct)

interpretation link_cursor: wrapping_cursor "\<lambda>a. length (app_links a)" links_selected move_link_selection
  by unfold_locales (auto simp: move_link_selection_def)

interpretation peer_cursor: wrapping_cursor "\<lambda>a. length (app_peers a)" peers_selected move_peer_selection
  by unfold_locales (auto simp: move_peer_selection_def)

interpretation checklist_cursor: wrapping_cursor "\<lambda>a. length (app_links a)" peer_links_cursor
  move_peer_links_cursor
  by unfold_locales (auto simp: move_peer_links_cursor_def)

interpretation template_cursor: wrapping_cursor "\<lambda>_. menu_len" template_selected
  move_template_selection
  by unfold_locales (auto simp: move_template_selection_def menu_len_def)

interpretation service_cursor: wrapping_cursor "\<lambda>_. length service_menu" service_menu_selected
  move_service_selection
  by unfold_locales (auto simp: move_service_selection_def service_menu_def)

lemma upsert_position:
  "\<exists>k. position (\<lambda>y. key y = key x) (upsert key old x xs) = Some k \<and> k < length (upsert key old x xs)"
proof -
  have "\<forall>y \<in> set (filter (\<lambda>y. key y \<noteq> key x) zs). \<not> key y = key x" for zs by simp
  then show ?thesis by (auto simp: upsert_def Let_def position_append_new split: option.split)
qed

subsection \<open>What the wizards store\<close>

lemma wizard_link_valid:
  "parse_socket_addr addr \<noteq> None \<Longrightarrow> valid_link (cfg_role cfg) (wizard_link cfg i m addr)"
  by (auto simp: wizard_link_def valid_link_def valid_addr_def)

lemma wizard_link_fields [simp]:
  "link_id (wizard_link cfg i m addr) = i" "link_mode (wizard_link cfg i m addr) = m"
  "link_transport (wizard_link cfg i m addr) = Tcp"
  by (simp_all add: wizard_link_def)

lemma store_link_fields [simp]:
  "app_links (store_link i m addr a) =
     upsert link_id (editing_original_id a) (wizard_link (app_config a) i m addr) (app_links a)"
  "app_peers (store_link i m addr a) = app_peers a"
  "cfg_role (app_config (store_link i m addr a)) = cfg_role (app_config a)"
  "mode_of (store_link i m addr a) = Normal" "dirty (store_link i m addr a)"
  by (simp_all add: store_link_def set_links_def Let_def)

lemma store_peer_fields [simp]:
  "app_peers (store_peer name key a) = upsert peer_name (editing_original_peer_name a)
     \<lparr>peer_name = name, peer_key = key, peer_links = pending_peer_links a\<rparr> (app_peers a)"
  "app_links (store_peer name key a) = app_links a"
  "cfg_role (app_config (store_peer name key a)) = cfg_role (app_config a)"
  "mode_of (store_peer name key a) = Normal" "dirty (store_peer name key a)"
  by (simp_all add: store_peer_def set_peers_def Let_def)

lemma store_link_config:
  "app_config (store_link i m addr a) = (app_config a)\<lparr>cfg_links :=
     upsert link_id (editing_original_id a) (wizard_link (app_config a) i m addr) (app_links a)\<rparr>"
  by (simp add: store_link_def set_links_def Let_def)

lemma store_peer_config:
  "app_config (store_peer name key a) = (app_config a)\<lparr>cfg_peers :=
     upsert peer_name (editing_original_peer_name a)
       \<lparr>peer_name = name, peer_key = key, peer_links = pending_peer_links a\<rparr> (app_peers a)\<rparr>"
  by (simp add: store_peer_def set_peers_def Let_def)

text \<open>A new link under an unused id keeps a valid config valid.\<close>

lemma upsert_new: "\<forall>y \<in> set xs. key y \<noteq> key x \<Longrightarrow> upsert key None x xs = xs @ [x]"
  by (simp add: upsert_def)

lemma store_new_link_valid:
  assumes "valid_config b64_dec (app_config a)" and "editing_original_id a = None"
    and "i \<notin> link_id ` set (app_links a)" and "parse_socket_addr addr \<noteq> None"
  shows "valid_config b64_dec (app_config (store_link i m addr a))"
proof -
  let ?l = "wizard_link (app_config a) i m addr"
  have ls: "app_links (store_link i m addr a) = app_links a @ [?l]"
    using assms(2,3) upsert_new [of "app_links a" link_id ?l] by auto
  have cfg: "app_config (store_link i m addr a) = (app_config a)\<lparr>cfg_links := app_links a @ [?l]\<rparr>"
    using ls by (simp add: store_link_config)
  have "valid_role b64_dec (app_config (store_link i m addr a))"
    using assms(1) unfolding cfg
    by (cases "cfg_role (app_config a)")
      (auto simp: valid_config_def valid_role_def valid_peers_def decoded_keys_def)
  moreover have "valid_udp (app_config (store_link i m addr a))"
    using assms(1) unfolding cfg
    by (cases "cfg_role (app_config a)") (auto simp: valid_config_def valid_udp_def)
  ultimately show ?thesis
    using assms(1,3) wizard_link_valid [OF assms(4), of "app_config a" i m]
    by (auto simp: valid_config_def cfg)
qed

text \<open>Whatever is replaced, the links stay well-formed and their ids distinct.\<close>

definition links_ok :: "app \<Rightarrow> bool" where
  "links_ok a \<longleftrightarrow> distinct (map link_id (app_links a)) \<and>
     (\<forall>l \<in> set (app_links a). valid_link (cfg_role (app_config a)) l)"

lemma store_link_ok:
  assumes "links_ok a" and "parse_socket_addr addr \<noteq> None"
  shows "links_ok (store_link i m addr a)"
  using assms wizard_link_valid [OF assms(2), of "app_config a" i m]
  by (auto simp: links_ok_def upsert_keys_distinct link_store.upsert_member)

lemma remove_link_ok: "links_ok a \<Longrightarrow> links_ok (remove_selected_link a)"
  using set_remove_at_subset [of "links_selected a" "app_links a"]
  by (auto simp: links_ok_def remove_selected_link_def set_links_def distinct_remove_at)

definition peers_ok :: "b64_decoder \<Rightarrow> app \<Rightarrow> bool" where
  "peers_ok b64_dec a \<longleftrightarrow> distinct (map peer_name (app_peers a)) \<and>
     (\<forall>p \<in> set (app_peers a). \<not> isl (decode_public_key b64_dec (peer_key p)))"

lemma store_peer_ok:
  assumes "peers_ok b64_dec a" and "\<not> isl (decode_public_key b64_dec key)"
  shows "peers_ok b64_dec (store_peer name key a)"
  using assms by (auto simp: peers_ok_def upsert_keys_distinct peer_store.upsert_member)

lemma remove_peer_ok: "peers_ok b64_dec a \<Longrightarrow> peers_ok b64_dec (remove_selected_peer a)"
  using set_remove_at_subset [of "peers_selected a" "app_peers a"]
  by (auto simp: peers_ok_def remove_selected_peer_def set_peers_def distinct_remove_at)

subsection \<open>Saving\<close>

lemma save_config_valid:
  assumes "save_config b64_dec toml_to env a s = (a', s')" and "\<not> dirty a'" and "dirty a"
  shows "valid_config b64_dec (app_config a) \<and>
    (\<exists>out f. toml_to (app_config a) = Inr out \<and> fs_files s' (config_path a) = Some f \<and> f_data f = out)"
proof -
  have sv: "save b64_dec toml_to env (app_config a) (config_path a) s = Inr s'"
    using assms by (auto simp: save_config_def split: sum.splits)
  then obtain out where v: "validate b64_dec (app_config a) = []"
    and t: "toml_to (app_config a) = Inr out" and w: "fs_write env (config_path a) out s = Inr s'"
    by (auto simp: save_def Let_def split: if_splits sum.splits)
  show ?thesis using v t fs_write_ok(1) [OF w] by (auto simp: validate_Nil_iff)
qed

lemma save_config_refused:
  assumes "\<not> valid_config b64_dec (app_config a)"
  shows "snd (save_config b64_dec toml_to env a s) = s \<and>
    dirty (fst (save_config b64_dec toml_to env a s)) = dirty a \<and>
    app_config (fst (save_config b64_dec toml_to env a s)) = app_config a"
proof -
  have "validate b64_dec (app_config a) \<noteq> []" using assms by (simp add: validate_Nil_iff)
  then show ?thesis by (simp add: save_config_def save_def store_after_save_def Let_def)
qed

lemma save_config_fields:
  "app_config (fst (save_config b64_dec toml_to env a s)) = app_config a"
  "mode_of (fst (save_config b64_dec toml_to env a s)) = mode_of a"
  by (simp_all add: save_config_def split: sum.split)

subsection \<open>The checklist\<close>

lemma toggle_twice:
  assumes "distinct (pending_peer_links a)" and "peer_links_cursor a < length (app_links a)"
  shows "set (pending_peer_links (toggle_peer_link (toggle_peer_link a))) = set (pending_peer_links a)"
    and "distinct (pending_peer_links (toggle_peer_link a))"
proof -
  let ?i = "link_id (app_links a ! peer_links_cursor a)" and ?ps = "pending_peer_links a"
  have cur: "nth_opt (app_links a) (peer_links_cursor a) = Some (app_links a ! peer_links_cursor a)"
    using assms(2) by (simp add: nth_opt_def)
  show "set (pending_peer_links (toggle_peer_link (toggle_peer_link a))) = set ?ps"
    and "distinct (pending_peer_links (toggle_peer_link a))"
  proof (atomize (full), cases "position (\<lambda>l. l = ?i) ?ps")
    case None
    then have "?i \<notin> set ?ps" by (auto simp: position_None)
    moreover from this have "position (\<lambda>l. l = ?i) (?ps @ [?i]) = Some (length ?ps)"
      by (intro position_append_new) auto
    ultimately show "set (pending_peer_links (toggle_peer_link (toggle_peer_link a))) = set ?ps \<and>
        distinct (pending_peer_links (toggle_peer_link a))"
      using None assms(1) cur by (simp add: toggle_peer_link_def remove_at_def)
  next
    case (Some k)
    then have k: "k < length ?ps" "?ps ! k = ?i" using position_Some [OF Some] by simp_all
    have "?i \<notin> set (remove_at k ?ps)" using remove_at_notin [OF assms(1) k(1)] k(2) by simp
    then have "position (\<lambda>l. l = ?i) (remove_at k ?ps) = None" by (auto simp: position_None)
    moreover have "insert ?i (set (remove_at k ?ps)) = set ?ps"
      using remove_at_split [OF k(1)] k(2) set_remove_at_subset [of k ?ps] nth_mem [OF k(1)]
      by (metis Un_insert_right insert_absorb list.simps(15) remove_at_def set_append)
    moreover have "distinct (remove_at k ?ps)" using distinct_remove_at [of id ?ps k] assms(1) by simp
    ultimately show "set (pending_peer_links (toggle_peer_link (toggle_peer_link a))) = set ?ps \<and>
        distinct (pending_peer_links (toggle_peer_link a))"
      using Some cur by (simp add: toggle_peer_link_def)
  qed
qed

text \<open>The checklist offers the existing links only: a grant of a link that is gone stays.\<close>

lemma toggle_keeps_dangling:
  assumes "i \<in> set (pending_peer_links a)" and "i \<notin> link_id ` set (app_links a)"
  shows "i \<in> set (pending_peer_links (toggle_peer_link a))"
proof (cases "nth_opt (app_links a) (peer_links_cursor a)")
  case (Some link)
  then have ne: "i \<noteq> link_id link" using assms(2) nth_opt_in_set [OF Some] by auto
  show ?thesis
  proof (cases "position (\<lambda>l. l = link_id link) (pending_peer_links a)")
    case (Some pos)
    then have pos: "pos < length (pending_peer_links a)" "pending_peer_links a ! pos = link_id link"
      using position_Some [OF Some] by simp_all
    then have "set (pending_peer_links a) = insert (link_id link) (set (remove_at pos (pending_peer_links a)))"
      using remove_at_split [OF pos(1)]
      by (metis Un_insert_right list.simps(15) remove_at_def set_append)
    then show ?thesis
      using assms(1) ne Some \<open>nth_opt (app_links a) (peer_links_cursor a) = Some link\<close>
      by (simp add: toggle_peer_link_def)
  next
    case None
    then show ?thesis using assms(1) Some by (simp add: toggle_peer_link_def)
  qed
qed (use assms(1) in \<open>simp add: toggle_peer_link_def\<close>)

subsection \<open>Rates and durations\<close>

lemma link_rate_needs_two:
  "previous_snapshot a = None \<Longrightarrow> link_rate i a = None"
  by (simp add: link_rate_def)

lemma duration_digits:
  fixes t :: nat
  shows "t = t div 86400 * 86400 + t mod 86400 div 3600 * 3600 + t mod 3600 div 60 * 60 + t mod 60"
    and "t mod 86400 div 3600 < 24" and "t mod 3600 div 60 < 60" and "t mod 60 < 60"
proof -
  have "t mod 3600 = t mod 86400 mod 3600" "t mod 60 = t mod 3600 mod 60"
    by (simp_all add: mod_mod_cancel)
  moreover have "t = t div 86400 * 86400 + t mod 86400" by simp
  moreover have "t mod 86400 = t mod 86400 div 3600 * 3600 + t mod 86400 mod 3600" by simp
  moreover have "t mod 3600 = t mod 3600 div 60 * 60 + t mod 3600 mod 60" by simp
  ultimately show "t = t div 86400 * 86400 + t mod 86400 div 3600 * 3600 + t mod 3600 div 60 * 60 + t mod 60"
    by linarith
  show "t mod 86400 div 3600 < 24" "t mod 3600 div 60 < 60" "t mod 60 < 60"
    by (simp_all add: less_mult_imp_div_less)
qed

end
