(* ===== verification/Tui_Format.thy ===== *)
theory Tui_Format
  imports F64 Tui_App
begin

section \<open>Amounts and rates on the screen (\<open>tui/format.rs\<close>)\<close>

text \<open>
  The texts of byte counts and transfer rates, in the floating-point numbers of \<open>F64\<close>, and what
  a count's text says about the count.
\<close>

definition units :: "string list" where
  "units = [''B'', ''KB'', ''MB'', ''GB'', ''TB'']"

function scale_bytes :: "f64 \<Rightarrow> nat \<Rightarrow> f64 \<times> nat" where
  "scale_bytes value unit =
     (if 1024 \<le> value \<and> unit < length units - 1 then scale_bytes (f64_div value 1024) (unit + 1)
      else (value, unit))"
  by pat_completeness auto
termination
  by (relation "measure (\<lambda>(value, unit). length units - unit)") auto

declare scale_bytes.simps [simp del]

definition show_bytes :: "u64 \<Rightarrow> string" where
  "show_bytes n =
     (if n < 1024 then show_word n @ '' B''
      else let (value, unit) = scale_bytes (f64_of_nat (unat n)) 0
           in show_tenths value @ '' '' @ units ! unit)"

definition show_rate :: "f64 \<Rightarrow> string" where
  "show_rate bytes_per_sec = show_bytes (round_to_u64 bytes_per_sec) @ ''/s''"

text \<open>\<open>App::link_rate\<close>, from the operands of \<open>Tui_App\<close>.\<close>

definition link_rates :: "string \<Rightarrow> app \<Rightarrow> (f64 \<times> f64) option" where
  "link_rates i a =
     map_option (\<lambda>(fwd, back, elapsed).
         (f64_div (f64_of_nat (unat fwd)) (as_secs_f64 elapsed),
          f64_div (f64_of_nat (unat back)) (as_secs_f64 elapsed)))
       (link_rate i a)"

subsection \<open>What the text of a count says\<close>

text \<open>The loop stops at the largest unit that leaves at least one, without any rounding.\<close>

lemma scale_bytes_exact:
  assumes "n < 2 ^ 53" and "1024 ^ u \<le> n" and "u < length units"
  shows "\<exists>v. scale_bytes (of_nat n / 1024 ^ u) u = (of_nat n / 1024 ^ v, v) \<and> u \<le> v \<and>
    v < length units \<and> 1024 ^ v \<le> n \<and> (n < 1024 * 1024 ^ v \<or> v = length units - 1)"
  using assms(2,3)
proof (induction "length units - u" arbitrary: u)
  case (Suc k)
  have ge: "1024 \<le> (of_nat n / 1024 ^ u :: rat) \<longleftrightarrow> 1024 * 1024 ^ u \<le> n"
    by (simp add: field_simps flip: of_nat_le_iff [where 'a = rat])
  show ?case
  proof (cases "1024 * 1024 ^ u \<le> n \<and> u < length units - 1")
    case True
    have p: "(1024::nat) ^ Suc u = 2 ^ (10 * Suc u)" by (simp only: power_mult) simp
    have q: "(1024::rat) ^ Suc u = 2 ^ (10 * Suc u)" by (simp only: power_mult) simp
    have "f64_div (of_nat n / 1024 ^ u) 1024 = f64_round (of_nat n / 1024 ^ Suc u)"
      by (simp add: f64_div_def field_simps)
    also have "\<dots> = of_nat n / 1024 ^ Suc u"
      unfolding q by (rule f64_round_dyadic [OF assms(1)]) (use True p in simp)
    finally have "scale_bytes (of_nat n / 1024 ^ u) u = scale_bytes (of_nat n / 1024 ^ Suc u) (Suc u)"
      using True ge by (simp add: scale_bytes.simps [of "of_nat n / 1024 ^ u"])
    moreover have "k = length units - Suc u" using Suc.hyps(2) by simp
    moreover have "1024 ^ Suc u \<le> n" "Suc u < length units" using True by (simp_all add: units_def)
    ultimately show ?thesis using Suc.hyps(1) [of "Suc u"] Suc_leD by fastforce
  next
    case False
    then show ?thesis using Suc.prems ge
      by (subst scale_bytes.simps) (auto simp: not_le)
  qed
qed simp

lemma show_bytes_scaled:
  assumes "1024 \<le> unat n" and "unat n < 2 ^ 53"
  shows "\<exists>t u. show_bytes n = show_nat (t div 10) @ ''.'' @ show_nat (t mod 10) @ '' '' @ units ! u \<and>
    0 < u \<and> u < length units \<and> 1024 ^ u \<le> unat n \<and>
    (unat n < 1024 * 1024 ^ u \<or> u = length units - 1) \<and>
    \<bar>of_nat t / 10 - of_nat (unat n) / 1024 ^ u\<bar> \<le> (1 / 20 :: rat)"
proof -
  define m where "m = unat n"
  have m: "1024 \<le> m" "m < 2 ^ 53" using assms by (simp_all add: m_def)
  obtain u where u: "scale_bytes (of_nat m) 0 = (of_nat m / 1024 ^ u, u)"
      "u < length units" "1024 ^ u \<le> m" "m < 1024 * 1024 ^ u \<or> u = length units - 1"
    using scale_bytes_exact [of m 0] m by (auto simp: units_def)
  have pos: "0 < u" using u(4) m(1) by (cases u) (auto simp: units_def)
  let ?v = "of_nat m / 1024 ^ u :: rat" and ?r = "round_half_even (10 * (of_nat m / 1024 ^ u))"
  have "0 \<le> ?r" by (intro round_half_even_nonneg) simp
  then have t: "(of_nat (nat ?r) :: rat) = of_int ?r" by simp
  have "\<bar>of_int ?r - 10 * ?v\<bar> \<le> 1 / 2" by (rule round_half_even_error)
  then have "\<bar>of_nat (nat ?r) / 10 - ?v\<bar> \<le> 1 / 20" unfolding t by (simp add: abs_le_iff field_simps)
  moreover have "\<not> n < 1024" using assms(1) by (simp add: word_less_nat_alt)
  then have "show_bytes n = show_nat (nat ?r div 10) @ ''.'' @ show_nat (nat ?r mod 10) @ '' '' @ units ! u"
    using u(1) by (simp add: show_bytes_def m_def [symmetric] f64_of_nat_exact [OF m(2)] show_tenths_def Let_def)
  ultimately show ?thesis using u pos unfolding m_def by blast
qed

end
