(* ===== verification/Tui_Terminal.thy ===== *)
theory Tui_Terminal
  imports Tui_App
begin

section \<open>The terminal and the processes of a service action (\<open>tui/mod.rs\<close>)\<close>

text \<open>
  While the console runs, the terminal is in raw mode and shows the alternate screen. A service
  action gives the terminal back, runs its processes with the console's own input and output, waits
  for Enter and takes the terminal again. Every call can fail; what fails is a record \<open>term_env\<close>.
  A call that fails leaves the terminal as it was. An operation returns whether it was \<open>Ok\<close>, and
  \<open>chain\<close> is a sequence of calls with \<open>?\<close>.
\<close>

record console =
  raw_mode :: bool
  alternate :: bool
  shown :: "string list" \<comment> \<open>lines printed outside the screen\<close>
  processes :: "string list list" \<comment> \<open>command lines of the processes started\<close>

record term_env =
  raw_off :: bool
  leave_screen :: bool
  flushed :: "string \<Rightarrow> bool" \<comment> \<open>the flush after this line\<close>
  started :: "string list \<Rightarrow> string option" \<comment> \<open>\<open>None\<close>: the process starts\<close>
  fed :: bool \<comment> \<open>writing the unit file into \<open>tee\<close>\<close>
  waited :: "string list \<Rightarrow> string + bool \<times> string" \<comment> \<open>success and the status as text\<close>
  enter_screen :: bool
  raw_on :: bool
  cleared :: bool

type_synonym term_op = "console \<Rightarrow> bool \<times> console"

primrec chain :: "term_op list \<Rightarrow> term_op" where
  "chain [] c = (True, c)"
| "chain (op # ops) c = (let (ok, c') = op c in if ok then chain ops c' else (False, c'))"

definition set_raw :: "bool \<Rightarrow> bool \<Rightarrow> term_op" where
  "set_raw ok b c = (ok, if ok then c\<lparr>raw_mode := b\<rparr> else c)"

definition set_screen :: "bool \<Rightarrow> bool \<Rightarrow> term_op" where
  "set_screen ok b c = (ok, if ok then c\<lparr>alternate := b\<rparr> else c)"

definition show_line :: "string \<Rightarrow> console \<Rightarrow> console" where
  "show_line line c = c\<lparr>shown := shown c @ [line]\<rparr>"

definition print_flush :: "term_env \<Rightarrow> string \<Rightarrow> term_op" where
  "print_flush env line c = (flushed env line, show_line line c)"

subsection \<open>Processes\<close>

definition spawn :: "term_env \<Rightarrow> string list \<Rightarrow> console \<Rightarrow> string option \<times> console" where
  "spawn env argv c =
     (case started env argv of
        None \<Rightarrow> (None, c\<lparr>processes := processes c @ [argv]\<rparr>)
      | Some e \<Rightarrow> (Some e, c))"

text \<open>\<open>Command::status\<close>: the process is started and waited for.\<close>

definition status_of :: "term_env \<Rightarrow> string list \<Rightarrow> console \<Rightarrow> (string + bool \<times> string) \<times> console" where
  "status_of env argv c =
     (let (e, c') = spawn env argv c
      in (case e of Some e \<Rightarrow> Inl e | None \<Rightarrow> waited env argv, c'))"

definition service_name :: string where
  "service_name = ''ghostport''"

definition sudo_systemctl :: "term_env \<Rightarrow> string \<Rightarrow> term_op" where
  "sudo_systemctl env verb =
     chain
       [print_flush env (''[ghostport] running: sudo systemctl '' @ verb @ '' '' @ service_name),
        (\<lambda>c. let (r, c') = status_of env [''sudo'', ''systemctl'', verb, service_name] c
             in (True, show_line (case r of
                   Inr (ok, s) \<Rightarrow> ''[ghostport] '' @ verb @ (if ok then '' succeeded'' else '' exited with '' @ s)
                 | Inl e \<Rightarrow> ''[ghostport] failed to run systemctl: '' @ e) c'))]"

definition view_logs :: "term_env \<Rightarrow> term_op" where
  "view_logs env =
     chain
       [print_flush env (''[ghostport] running: journalctl -u '' @ service_name @ '' -n 50 --no-pager''),
        (\<lambda>c. let (r, c') = status_of env [''journalctl'', ''-u'', service_name, ''-n'', ''50'', ''--no-pager''] c
             in (True, case r of
                   Inr _ \<Rightarrow> c'
                 | Inl e \<Rightarrow> show_line (''[ghostport] failed to run journalctl: '' @ e) c'))]"

definition tee_argv :: "string list" where
  "tee_argv = [''sudo'', ''tee'', ''/etc/systemd/system/ghostport.service'']"

definition daemon_reload :: "term_env \<Rightarrow> term_op" where
  "daemon_reload env =
     chain
       [print_flush env ''[ghostport] running: sudo systemctl daemon-reload'',
        (\<lambda>c. let (r, c') = status_of env [''sudo'', ''systemctl'', ''daemon-reload''] c
             in (True, show_line (case r of
                   Inr (ok, s) \<Rightarrow> if ok then ''[ghostport] daemon-reload succeeded''
                                   else ''[ghostport] daemon-reload exited with '' @ s
                 | Inl e \<Rightarrow> ''[ghostport] failed to run systemctl daemon-reload: '' @ e) c'))]"

definition install_unit :: "term_env \<Rightarrow> term_op" where
  "install_unit env =
     chain
       [print_flush env ''[ghostport] installing systemd/ghostport.service to /etc/systemd/system/ (sudo tee)'',
        (\<lambda>c. let (e, c') = spawn env tee_argv c in (e = None, c')),
        (\<lambda>c. (fed env, c)),
        (\<lambda>c. case waited env tee_argv of
               Inr (ok, s) \<Rightarrow>
                 if ok then daemon_reload env (show_line ''[ghostport] unit file installed'' c)
                 else (True, show_line (''[ghostport] install failed (sudo tee exited with '' @ s @ '')'') c)
             | Inl e \<Rightarrow> (True, show_line (''[ghostport] failed to run sudo tee: '' @ e) c))]"

definition perform :: "term_env \<Rightarrow> service_action \<Rightarrow> term_op" where
  "perform env act =
     (case act of Install_Unit \<Rightarrow> install_unit env | View_Logs \<Rightarrow> view_logs env
      | _ \<Rightarrow> sudo_systemctl env (systemctl_verb act))"

definition run_service_action_suspended :: "term_env \<Rightarrow> service_action \<Rightarrow> term_op" where
  "run_service_action_suspended env act =
     chain
       [set_raw (raw_off env) False, set_screen (leave_screen env) False, perform env act,
        print_flush env ''Press Enter to return to the TUI...'',
        set_screen (enter_screen env) True, set_raw (raw_on env) True, (\<lambda>c. (cleared env, c))]"

text \<open>The start of the console, and its end, whose errors are ignored (it also shows the cursor).\<close>

definition setup_terminal :: "term_env \<Rightarrow> term_op" where
  "setup_terminal env =
     chain [set_raw (raw_on env) True, set_screen (enter_screen env) True, (\<lambda>c. (cleared env, c))]"

definition restore_terminal :: "term_env \<Rightarrow> console \<Rightarrow> console" where
  "restore_terminal env c = snd (set_screen (leave_screen env) False (snd (set_raw (raw_off env) False c)))"

lemmas term_defs = set_raw_def set_screen_def show_line_def print_flush_def spawn_def status_of_def

subsection \<open>Who has the terminal after an action\<close>

text \<open>The calls on the terminal itself succeed.\<close>

definition terminal_ok :: "term_env \<Rightarrow> bool" where
  "terminal_ok env \<longleftrightarrow> raw_off env \<and> leave_screen env \<and> (\<forall>line. flushed env line) \<and>
     enter_screen env \<and> raw_on env \<and> cleared env"

definition on_screen :: "console \<Rightarrow> bool" where
  "on_screen c \<longleftrightarrow> raw_mode c \<and> alternate c"

definition keeps_modes :: "term_op \<Rightarrow> bool" where
  "keeps_modes op \<longleftrightarrow>
     (\<forall>c. raw_mode (snd (op c)) = raw_mode c \<and> alternate (snd (op c)) = alternate c)"

lemma chain_keeps: "list_all keeps_modes ops \<Longrightarrow> keeps_modes (chain ops)"
  by (induction ops) (auto simp: keeps_modes_def split_beta Let_def)

lemma line_keeps [simp]:
  "raw_mode (show_line line c) = raw_mode c" "alternate (show_line line c) = alternate c"
  "keeps_modes (print_flush env line)"
  by (simp_all add: term_defs keeps_modes_def)

lemma process_keeps [simp]:
  "raw_mode (snd (spawn env argv c)) = raw_mode c" "alternate (snd (spawn env argv c)) = alternate c"
  "raw_mode (snd (status_of env argv c)) = raw_mode c" "alternate (snd (status_of env argv c)) = alternate c"
  by (simp_all add: term_defs Let_def split: option.split)

lemma reload_keeps: "keeps_modes (daemon_reload env)"
  unfolding daemon_reload_def
  by (rule chain_keeps) (simp, simp add: keeps_modes_def split_beta Let_def)

lemma perform_keeps: "keeps_modes (perform env act)"
proof -
  have "keeps_modes (sudo_systemctl env verb)" for verb
    unfolding sudo_systemctl_def
    by (rule chain_keeps) (simp, simp add: keeps_modes_def split_beta Let_def)
  moreover have "keeps_modes (view_logs env)"
    unfolding view_logs_def
    by (rule chain_keeps) (simp, simp add: keeps_modes_def split_beta Let_def split: sum.split)
  moreover have "keeps_modes (install_unit env)"
    unfolding install_unit_def
    by (rule chain_keeps)
      (simp, use reload_keeps in \<open>simp add: keeps_modes_def split_beta Let_def split: sum.split\<close>)
  ultimately show ?thesis by (cases act) (simp_all add: perform_def)
qed

text \<open>Only the unit's installation can fail once the terminal is given back.\<close>

definition unit_piped :: "term_env \<Rightarrow> bool" where
  "unit_piped env \<longleftrightarrow> started env tee_argv = None \<and> fed env"

lemma perform_ok:
  assumes "\<forall>line. flushed env line"
  shows "fst (perform env act c) \<longleftrightarrow> (act = Install_Unit \<longrightarrow> unit_piped env)"
proof -
  have "fst (daemon_reload env c')" for c'
    using assms by (simp add: daemon_reload_def print_flush_def split_beta Let_def)
  then have "fst (install_unit env c) \<longleftrightarrow> unit_piped env"
    using assms
    by (simp add: install_unit_def print_flush_def spawn_def unit_piped_def split_beta Let_def split: option.split sum.split)
  moreover have "fst (sudo_systemctl env verb c)" "fst (view_logs env c)" for verb
    using assms by (simp_all add: sudo_systemctl_def view_logs_def print_flush_def split_beta Let_def)
  ultimately show ?thesis by (cases act) (simp_all add: perform_def)
qed

text \<open>
  After an action the console has its screen again, unless the unit could not be piped to \<open>tee\<close>:
  then the terminal stays as it was given to the processes.
\<close>

lemma action_screen:
  assumes "terminal_ok env" and "c' = snd (run_service_action_suspended env act c)"
  shows "raw_mode c' = alternate c' \<and> (on_screen c' \<longleftrightarrow> (act = Install_Unit \<longrightarrow> unit_piped env))"
proof -
  let ?c1 = "c\<lparr>raw_mode := False, alternate := False\<rparr>"
  obtain r c2 where p: "perform env act ?c1 = (r, c2)" by (cases "perform env act ?c1")
  have modes: "\<not> raw_mode c2 \<and> \<not> alternate c2"
    using perform_keeps [of env act, unfolded keeps_modes_def, THEN spec, of ?c1] by (simp add: p)
  have "r \<longleftrightarrow> (act = Install_Unit \<longrightarrow> unit_piped env)"
    using assms(1) perform_ok [of env act ?c1] by (simp add: p terminal_ok_def)
  then show ?thesis
    using assms modes p
    by (cases r) (simp_all add: run_service_action_suspended_def terminal_ok_def set_raw_def set_screen_def print_flush_def
        show_line_def on_screen_def split_beta Let_def)
qed

subsection \<open>Which processes an action starts\<close>

definition action_commands :: "service_action \<Rightarrow> string list list" where
  "action_commands act =
     (case act of
        Install_Unit \<Rightarrow> [tee_argv, [''sudo'', ''systemctl'', ''daemon-reload'']]
      | View_Logs \<Rightarrow> [[''journalctl'', ''-u'', service_name, ''-n'', ''50'', ''--no-pager'']]
      | _ \<Rightarrow> [[''sudo'', ''systemctl'', systemctl_verb act, service_name]])"

definition starts_within :: "string list set \<Rightarrow> term_op \<Rightarrow> bool" where
  "starts_within cmds op \<longleftrightarrow> (\<forall>c. set (processes (snd (op c))) \<subseteq> set (processes c) \<union> cmds)"

lemma chain_starts: "list_all (starts_within cmds) ops \<Longrightarrow> starts_within cmds (chain ops)"
  by (induction ops) (fastforce simp: starts_within_def split_beta Let_def)+

lemma line_starts [simp]:
  "processes (show_line line c) = processes c" "starts_within cmds (print_flush env line)"
  "starts_within cmds (set_raw ok b)" "starts_within cmds (set_screen ok b)"
  by (simp_all add: term_defs starts_within_def)

lemma process_starts:
  "set (processes (snd (spawn env argv c))) \<subseteq> insert argv (set (processes c))"
  "set (processes (snd (status_of env argv c))) \<subseteq> insert argv (set (processes c))"
  by (auto simp: spawn_def status_of_def Let_def split: option.split)

lemma perform_starts: "starts_within (set (action_commands act)) (perform env act)"
proof -
  have sys: "starts_within {[''sudo'', ''systemctl'', verb, service_name]} (sudo_systemctl env verb)" for verb
    unfolding sudo_systemctl_def
    by (rule chain_starts)
      (use process_starts in \<open>fastforce simp: starts_within_def split_beta Let_def print_flush_def\<close>)
  have logs: "starts_within (set (action_commands View_Logs)) (view_logs env)"
    unfolding view_logs_def action_commands_def
    by (rule chain_starts)
      (use process_starts in \<open>fastforce simp: starts_within_def split_beta Let_def print_flush_def split: sum.split\<close>)
  have reload: "starts_within (set (action_commands Install_Unit)) (daemon_reload env)"
    unfolding daemon_reload_def action_commands_def
    by (rule chain_starts)
      (use process_starts in \<open>fastforce simp: starts_within_def split_beta Let_def print_flush_def\<close>)
  have "starts_within (set (action_commands Install_Unit)) (install_unit env)"
    unfolding install_unit_def
    by (rule chain_starts)
      (use process_starts(1) [of env tee_argv] reload in
        \<open>fastforce simp: starts_within_def split_beta Let_def action_commands_def print_flush_def
          split: sum.split\<close>)
  then show ?thesis using sys logs by (cases act) (simp_all add: perform_def action_commands_def)
qed

lemma action_starts:
  "set (processes (snd (run_service_action_suspended env act c))) \<subseteq> set (processes c) \<union> set (action_commands act)"
proof -
  have "starts_within (set (action_commands act)) (run_service_action_suspended env act)"
    unfolding run_service_action_suspended_def
    by (rule chain_starts) (simp add: perform_starts, simp add: starts_within_def)
  then show ?thesis by (simp add: starts_within_def)
qed

end
