(* ===== verification/Tui_Events.thy ===== *)
theory Tui_Events
  imports Tui_Terminal
begin

section \<open>The console's event loop (\<open>tui/mod.rs\<close>)\<close>

text \<open>
  A key goes to the handler of the current mode; without a key for half a second the tab's live
  data is refreshed. What the outside gives while one event is handled (the clock, the status
  query, \<open>systemctl\<close>'s answers, what the terminal and the processes do) is a record \<open>tui_env\<close>. The
  console's world is its \<open>App\<close>, the file system, the service actions it ran, and the terminal with
  the processes started on it.
\<close>

subsection \<open>Keys and the world\<close>

datatype key = Char nat | Enter | Esc | Tab_Key | Backspace | Up | Down | Other_Key

record tui_env =
  env_now :: instant
  env_query :: "string + status_snapshot"
  env_systemctl :: "string \<Rightarrow> string option"
  env_term :: term_env
  env_fs :: fs_env
  env_toml :: "config \<Rightarrow> string + string"
  env_b64 :: b64_decoder

record tui =
  ui :: app
  store :: fs
  ran :: "service_action list"
  console_of :: console

abbreviation on_ui :: "(app \<Rightarrow> app) \<Rightarrow> tui \<Rightarrow> tui" where
  "on_ui f t \<equiv> t\<lparr>ui := f (ui t)\<rparr>"

definition is_key :: "string \<Rightarrow> key \<Rightarrow> bool" where
  "is_key s k \<longleftrightarrow> (\<exists>c \<in> set s. k = Char (byte c))"

lemma is_key_code [code]: "is_key s k \<longleftrightarrow> list_ex (\<lambda>c. k = Char (byte c)) s"
  by (simp add: is_key_def list_ex_iff)

subsection \<open>Running a service action\<close>

definition systemctl_field :: "string option \<Rightarrow> string option" where
  "systemctl_field out =
     (case out of None \<Rightarrow> None
      | Some stdout \<Rightarrow> let state = trim (from_utf8_lossy stdout) in if state = [] then None else Some state)"

definition refresh_service_info :: "tui_env \<Rightarrow> app \<Rightarrow> app" where
  "refresh_service_info env a =
     a\<lparr>service_state := systemctl_field (env_systemctl env ''is-active''),
       enabled_state := systemctl_field (env_systemctl env ''is-enabled'')\<rparr>"

definition run_pending_service_action :: "tui_env \<Rightarrow> tui \<Rightarrow> tui" where
  "run_pending_service_action env t =
     (case pending_service_action (ui t) of
        None \<Rightarrow> t
      | Some act \<Rightarrow>
          t\<lparr>ui := apply_status (env_now env) (env_query env)
                   (refresh_service_info env ((ui t)\<lparr>pending_service_action := None\<rparr>)),
            ran := ran t @ [act],
            console_of := snd (run_service_action_suspended (env_term env) act (console_of t))\<rparr>)"

subsection \<open>The handlers\<close>

definition save_key :: "tui_env \<Rightarrow> tui \<Rightarrow> tui" where
  "save_key env t =
     (let (a, s) = save_config (env_b64 env) (env_toml env) (env_fs env) (ui t) (store t)
      in t\<lparr>ui := a, store := s\<rparr>)"

definition links_key :: "tui_env \<Rightarrow> key \<Rightarrow> tui \<Rightarrow> tui" where
  "links_key env k t =
     (if is_key ''j'' k \<or> k = Down then on_ui (move_link_selection 1) t
      else if is_key ''k'' k \<or> k = Up then on_ui (move_link_selection (- 1)) t
      else if is_key ''a'' k then on_ui begin_add_link t
      else if is_key ''e'' k then
        (if selected_link (ui t) \<noteq> None then on_ui begin_edit_link t else t)
      else if is_key ''d'' k then
        (if selected_link (ui t) \<noteq> None then on_ui (mode_of_update (\<lambda>_. Confirm_Remove_Link)) t else t)
      else if is_key ''s'' k then save_key env t
      else t)"

definition peers_key :: "tui_env \<Rightarrow> key \<Rightarrow> tui \<Rightarrow> tui" where
  "peers_key env k t =
     (if is_key ''j'' k \<or> k = Down then on_ui (move_peer_selection 1) t
      else if is_key ''k'' k \<or> k = Up then on_ui (move_peer_selection (- 1)) t
      else if is_key ''a'' k then on_ui begin_add_peer t
      else if is_key ''e'' k then
        (if selected_peer (ui t) \<noteq> None then on_ui begin_edit_peer t else t)
      else if is_key ''d'' k then
        (if selected_peer (ui t) \<noteq> None then on_ui (mode_of_update (\<lambda>_. Confirm_Remove_Peer)) t else t)
      else if is_key ''s'' k then save_key env t
      else t)"

definition service_key :: "tui_env \<Rightarrow> key \<Rightarrow> tui \<Rightarrow> tui" where
  "service_key env k t =
     (if is_key ''j'' k \<or> k = Down then on_ui (move_service_selection 1) t
      else if is_key ''k'' k \<or> k = Up then on_ui (move_service_selection (- 1)) t
      else if k = Enter then
        (let t = on_ui activate_selected_service_action t
         in if mode_of (ui t) = Normal then run_pending_service_action env t else t)
      else t)"

definition handle_normal :: "tui_env \<Rightarrow> key \<Rightarrow> tui \<Rightarrow> tui" where
  "handle_normal env k t =
     (if is_key ''q'' k \<or> k = Esc then on_ui (should_quit_update (\<lambda>_. True)) t
      else if k = Tab_Key then on_ui next_tab t
      else if is_key ''1'' k then on_ui (tab_of_update (\<lambda>_. Tab_Status)) t
      else if is_key ''2'' k then on_ui (tab_of_update (\<lambda>_. Tab_Links)) t
      else if is_key ''3'' k then on_ui (tab_of_update (\<lambda>_. Tab_Service)) t
      else if is_key ''4'' k then on_ui (tab_of_update (\<lambda>_. Tab_Peers)) t
      else case tab_of (ui t) of
        Tab_Links \<Rightarrow> links_key env k t
      | Tab_Service \<Rightarrow> service_key env k t
      | Tab_Status \<Rightarrow>
          if is_key ''r'' k then on_ui (apply_status (env_now env) (env_query env)) t else t
      | Tab_Peers \<Rightarrow> peers_key env k t)"

definition handle_choose_template :: "key \<Rightarrow> app \<Rightarrow> app" where
  "handle_choose_template k a =
     (if k = Esc then cancel_link_wizard a
      else if is_key ''j'' k \<or> k = Down then move_template_selection 1 a
      else if is_key ''k'' k \<or> k = Up then move_template_selection (- 1) a
      else if k = Enter then confirm_template_choice a
      else a)"

fun edit_buffer :: "key \<Rightarrow> app \<Rightarrow> app" where
  "edit_buffer Backspace a = a\<lparr>input_buffer := pop_char (input_buffer a)\<rparr>"
| "edit_buffer (Char c) a = a\<lparr>input_buffer := push_char (input_buffer a) c\<rparr>"
| "edit_buffer _ a = a"

definition handle_link_text_input :: "key \<Rightarrow> app \<Rightarrow> app" where
  "handle_link_text_input k a =
     (if k = Esc then cancel_link_wizard a
      else if k = Enter then
        (case mode_of a of Add_Link_Id \<Rightarrow> confirm_link_id a
         | Add_Link_Address \<Rightarrow> confirm_link_address a | _ \<Rightarrow> a)
      else edit_buffer k a)"

definition handle_link_mode_choice :: "key \<Rightarrow> app \<Rightarrow> app" where
  "handle_link_mode_choice k a =
     (if k = Esc then cancel_link_wizard a
      else if is_key ''fF'' k then choose_link_mode Forward a
      else if is_key ''rR'' k then choose_link_mode Reverse a
      else a)"

definition handle_peer_text_input :: "b64_decoder \<Rightarrow> key \<Rightarrow> app \<Rightarrow> app" where
  "handle_peer_text_input b64_dec k a =
     (if k = Esc then cancel_peer_wizard a
      else if k = Enter then
        (case mode_of a of Add_Peer_Name \<Rightarrow> confirm_peer_name a
         | Add_Peer_Public_Key \<Rightarrow> confirm_peer_public_key b64_dec a | _ \<Rightarrow> a)
      else edit_buffer k a)"

definition handle_peer_links_checklist :: "key \<Rightarrow> app \<Rightarrow> app" where
  "handle_peer_links_checklist k a =
     (if k = Esc then cancel_peer_wizard a
      else if is_key ''j'' k \<or> k = Down then move_peer_links_cursor 1 a
      else if is_key ''k'' k \<or> k = Up then move_peer_links_cursor (- 1) a
      else if is_key '' '' k then toggle_peer_link a
      else if k = Enter then confirm_peer_links a
      else a)"

definition handle_confirm_remove_peer :: "key \<Rightarrow> app \<Rightarrow> app" where
  "handle_confirm_remove_peer k a =
     (if is_key ''yY'' k then remove_selected_peer a else a\<lparr>mode_of := Normal\<rparr>)"

definition handle_confirm_remove_link :: "key \<Rightarrow> app \<Rightarrow> app" where
  "handle_confirm_remove_link k a =
     (if is_key ''yY'' k then remove_selected_link a else a\<lparr>mode_of := Normal\<rparr>)"

definition handle_confirm_service_action :: "tui_env \<Rightarrow> key \<Rightarrow> tui \<Rightarrow> tui" where
  "handle_confirm_service_action env k t =
     (if is_key ''yY'' k
      then run_pending_service_action env (on_ui (mode_of_update (\<lambda>_. Normal)) t)
      else on_ui cancel_service_action t)"

definition handle_key :: "tui_env \<Rightarrow> key \<Rightarrow> tui \<Rightarrow> tui" where
  "handle_key env k t =
     (case mode_of (ui t) of
        Normal \<Rightarrow> handle_normal env k t
      | Choose_Template \<Rightarrow> on_ui (handle_choose_template k) t
      | Add_Link_Id \<Rightarrow> on_ui (handle_link_text_input k) t
      | Add_Link_Address \<Rightarrow> on_ui (handle_link_text_input k) t
      | Add_Link_Direction \<Rightarrow> on_ui (handle_link_mode_choice k) t
      | Confirm_Remove_Link \<Rightarrow> on_ui (handle_confirm_remove_link k) t
      | Confirm_Service_Action \<Rightarrow> handle_confirm_service_action env k t
      | Add_Peer_Name \<Rightarrow> on_ui (handle_peer_text_input (env_b64 env) k) t
      | Add_Peer_Public_Key \<Rightarrow> on_ui (handle_peer_text_input (env_b64 env) k) t
      | Add_Peer_Links \<Rightarrow> on_ui (handle_peer_links_checklist k) t
      | Confirm_Remove_Peer \<Rightarrow> on_ui (handle_confirm_remove_peer k) t)"

subsection \<open>The loop\<close>

datatype tui_event = Key key | Idle

definition idle_tick :: "tui_env \<Rightarrow> app \<Rightarrow> app" where
  "idle_tick env a =
     (case tab_of a of
        Tab_Status \<Rightarrow> apply_status (env_now env) (env_query env) a
      | Tab_Service \<Rightarrow> refresh_service_info env a
      | _ \<Rightarrow> a)"

fun tui_step :: "tui_env \<times> tui_event \<Rightarrow> tui \<Rightarrow> tui" where
  "tui_step (env, ev) t =
     (if should_quit (ui t) then t
      else case ev of
        Key k \<Rightarrow> handle_key env k (on_ui (message_update (\<lambda>_. None)) t)
      | Idle \<Rightarrow> on_ui (idle_tick env) t)"

definition run_event_loop :: "(tui_env \<times> tui_event) list \<Rightarrow> tui \<Rightarrow> tui" where
  "run_event_loop evs = fold tui_step evs"

text \<open>\<open>run\<close>: the state before the first event, or the error of \<open>App::new\<close>.\<close>

definition start_tui ::
  "(string \<Rightarrow> string + config) \<Rightarrow> tui_env \<Rightarrow> string \<Rightarrow> fs \<Rightarrow> console \<Rightarrow> string + tui" where
  "start_tui toml_from env path s c =
     (case load toml_from (env_fs env) path s of
        Inl e \<Rightarrow> Inl e
      | Inr cfg \<Rightarrow> Inr
          \<lparr>ui = apply_status (env_now env) (env_query env) (refresh_service_info env (new_app path cfg)),
           store = s, ran = [], console_of = c\<rparr>)"

text \<open>
  One turn of the loop with its errors: the draw, the poll or the read of the event fails, an event
  that is no key arrives, or a key or half a second without one. \<open>None\<close>: the loop still runs.
\<close>

datatype loop_turn = Draw_Fails string | Poll_Fails string | Other_Event | Happens tui_event

fun event_loop :: "(tui_env \<times> loop_turn) list \<Rightarrow> tui \<Rightarrow> (string + unit) option \<times> tui" where
  "event_loop [] t = (None, t)"
| "event_loop ((env, turn) # turns) t =
     (case turn of Draw_Fails e \<Rightarrow> (Some (Inl e), t)
      | _ \<Rightarrow>
         if should_quit (ui t) then (Some (Inr ()), t)
         else case turn of
           Poll_Fails e \<Rightarrow> (Some (Inl e), t)
         | Happens ev \<Rightarrow>
             (let t' = tui_step (env, ev) t
              in if should_quit (ui t') then (Some (Inr ()), t') else event_loop turns t')
         | _ \<Rightarrow> event_loop turns t)"

subsection \<open>What holds between events\<close>

definition cursors_ok :: "app \<Rightarrow> bool" where
  "cursors_ok a \<longleftrightarrow>
     (app_links a = [] \<or> links_selected a < length (app_links a)) \<and>
     (app_peers a = [] \<or> peers_selected a < length (app_peers a)) \<and>
     template_selected a < menu_len \<and> service_menu_selected a < length service_menu"

definition wizards_ok :: "app \<Rightarrow> bool" where
  "wizards_ok a \<longleftrightarrow>
     (mode_of a = Add_Link_Direction \<longrightarrow> pending_link_id a \<noteq> None) \<and>
     (mode_of a = Add_Link_Address \<longrightarrow> pending_link_id a \<noteq> None \<and> pending_link_mode a \<noteq> None) \<and>
     (mode_of a = Add_Peer_Public_Key \<longrightarrow> pending_peer_name a \<noteq> None) \<and>
     (mode_of a = Add_Peer_Links \<longrightarrow> pending_peer_name a \<noteq> None \<and> pending_peer_public_key a \<noteq> None \<and>
        (app_links a = [] \<or> peer_links_cursor a < length (app_links a)))"

definition service_ok :: "app \<Rightarrow> bool" where
  "service_ok a \<longleftrightarrow>
     (if mode_of a = Confirm_Service_Action
      then \<exists>act. pending_service_action a = Some act \<and> needs_confirm act
      else pending_service_action a = None)"

definition removal_ok :: "app \<Rightarrow> bool" where
  "removal_ok a \<longleftrightarrow>
     (mode_of a = Confirm_Remove_Link \<longrightarrow> links_selected a < length (app_links a)) \<and>
     (mode_of a = Confirm_Remove_Peer \<longrightarrow> peers_selected a < length (app_peers a))"

definition ui_ok :: "app \<Rightarrow> bool" where
  "ui_ok a \<longleftrightarrow> cursors_ok a \<and> wizards_ok a \<and> service_ok a \<and> removal_ok a"

lemmas ui_ok_defs = ui_ok_def cursors_ok_def wizards_ok_def service_ok_def removal_ok_def

subsection \<open>Every event keeps it\<close>

lemma ui_ok_neutral [simp]:
  "ui_ok (apply_status now r a) = ui_ok a"
  "ui_ok (refresh_service_info env a) = ui_ok a"
  "ui_ok (message_update f a) = ui_ok a"
  "ui_ok (tab_of_update g a) = ui_ok a"
  "ui_ok (should_quit_update h a) = ui_ok a"
  "ui_ok (next_tab a) = ui_ok a"
  "ui_ok (input_buffer_update i a) = ui_ok a"
  by (simp_all add: apply_status_def refresh_service_info_def next_tab_def ui_ok_defs split: sum.split)

lemma pos_menus: "0 < menu_len" "0 < length service_menu"
  by (simp_all add: menu_len_def service_menu_def)

lemma wrap_service: "wrap_index i d (length service_menu) < length service_menu"
  by (rule wrap_index_bound) (rule pos_menus)

lemma remove_cursor: "i < length xs \<Longrightarrow> remove_at i xs = [] \<or> i - 1 < length (remove_at i xs)"
  by (cases "length xs = 1") (auto simp: length_remove_at remove_at_def)

lemma normal_ok: "ui_ok a \<Longrightarrow> mode_of a \<noteq> Confirm_Service_Action \<Longrightarrow> ui_ok (a\<lparr>mode_of := Normal\<rparr>)"
  by (simp add: ui_ok_defs)

lemma move_ok:
  "ui_ok a \<Longrightarrow> mode_of a = Normal \<Longrightarrow> ui_ok (move_link_selection d a)"
  "ui_ok a \<Longrightarrow> mode_of a = Normal \<Longrightarrow> ui_ok (move_peer_selection d a)"
  "ui_ok a \<Longrightarrow> mode_of a = Normal \<Longrightarrow> ui_ok (move_service_selection d a)"
  "ui_ok a \<Longrightarrow> ui_ok (move_template_selection d a)"
  "ui_ok a \<Longrightarrow> ui_ok (move_peer_links_cursor d a)"
  by (auto simp: ui_ok_defs move_link_selection_def move_peer_selection_def pos_menus
      move_service_selection_def move_template_selection_def move_peer_links_cursor_def
      wrap_index_bound wrap_service)

lemma begin_ok:
  "ui_ok a \<Longrightarrow> mode_of a = Normal \<Longrightarrow> ui_ok (begin_add_link a)"
  "ui_ok a \<Longrightarrow> mode_of a = Normal \<Longrightarrow> ui_ok (begin_edit_link a)"
  "ui_ok a \<Longrightarrow> mode_of a = Normal \<Longrightarrow> ui_ok (begin_add_peer a)"
  "ui_ok a \<Longrightarrow> mode_of a = Normal \<Longrightarrow> ui_ok (begin_edit_peer a)"
  by (auto simp: ui_ok_defs begin_add_link_def begin_edit_link_def begin_add_peer_def
      begin_edit_peer_def pos_menus split: option.split)

lemma cancel_ok:
  "ui_ok a \<Longrightarrow> mode_of a \<noteq> Confirm_Service_Action \<Longrightarrow> ui_ok (cancel_link_wizard a)"
  "ui_ok a \<Longrightarrow> mode_of a \<noteq> Confirm_Service_Action \<Longrightarrow> ui_ok (cancel_peer_wizard a)"
  "ui_ok a \<Longrightarrow> ui_ok (cancel_service_action a)"
  by (simp_all add: ui_ok_defs cancel_link_wizard_def cancel_peer_wizard_def cancel_service_action_def)

lemma template_ok: "ui_ok a \<Longrightarrow> mode_of a = Choose_Template \<Longrightarrow> ui_ok (confirm_template_choice a)"
  by (auto simp: ui_ok_defs confirm_template_choice_def Let_def split: option.split)

lemma link_id_ok: "ui_ok a \<Longrightarrow> mode_of a = Add_Link_Id \<Longrightarrow> ui_ok (confirm_link_id a)"
  by (auto simp: ui_ok_defs confirm_link_id_def cancel_link_wizard_def Let_def)

lemma link_mode_ok: "ui_ok a \<Longrightarrow> mode_of a = Add_Link_Direction \<Longrightarrow> ui_ok (choose_link_mode m a)"
  by (auto simp: ui_ok_defs choose_link_mode_def)

lemma upsert_key_position:
  "key x = i \<Longrightarrow> \<exists>k. position (\<lambda>y. key y = i) (upsert key old x xs) = Some k \<and> k < length (upsert key old x xs)"
  using upsert_position [of key x old xs] by auto

lemma store_link_cursor:
  "links_selected (store_link i m addr a) < length (app_links (store_link i m addr a))"
proof -
  obtain k where "position (\<lambda>l. link_id l = i) (upsert link_id (editing_original_id a)
      (wizard_link (app_config a) i m addr) (app_links a)) = Some k"
    and "k < length (upsert link_id (editing_original_id a)
      (wizard_link (app_config a) i m addr) (app_links a))"
    using upsert_key_position [of link_id "wizard_link (app_config a) i m addr" i
        "editing_original_id a" "app_links a"] by auto
  then show ?thesis by (simp add: store_link_def set_links_def Let_def)
qed

lemma store_peer_cursor:
  "peers_selected (store_peer name key a) < length (app_peers (store_peer name key a))"
proof -
  let ?p = "\<lparr>peer_name = name, peer_key = key, peer_links = pending_peer_links a\<rparr>"
  obtain k where "position (\<lambda>p. peer_name p = name)
      (upsert peer_name (editing_original_peer_name a) ?p (app_peers a)) = Some k"
    and "k < length (upsert peer_name (editing_original_peer_name a) ?p (app_peers a))"
    using upsert_key_position [of peer_name ?p name "editing_original_peer_name a" "app_peers a"]
    by auto
  then show ?thesis by (simp add: store_peer_def set_peers_def Let_def)
qed

lemma store_link_rest [simp]:
  "peers_selected (store_link i m addr a) = peers_selected a"
  "template_selected (store_link i m addr a) = template_selected a"
  "service_menu_selected (store_link i m addr a) = service_menu_selected a"
  "pending_service_action (store_link i m addr a) = pending_service_action a"
  by (simp_all add: store_link_def set_links_def Let_def)

lemma store_peer_rest [simp]:
  "links_selected (store_peer name key a) = links_selected a"
  "template_selected (store_peer name key a) = template_selected a"
  "service_menu_selected (store_peer name key a) = service_menu_selected a"
  "pending_service_action (store_peer name key a) = pending_service_action a"
  by (simp_all add: store_peer_def set_peers_def Let_def)

lemma store_ok:
  "ui_ok a \<Longrightarrow> mode_of a \<noteq> Confirm_Service_Action \<Longrightarrow> ui_ok (store_link i m addr a)"
  "ui_ok a \<Longrightarrow> mode_of a \<noteq> Confirm_Service_Action \<Longrightarrow> ui_ok (store_peer name key a)"
  using store_link_cursor [of i m addr a] store_peer_cursor [of name key a]
  by (simp_all add: ui_ok_defs del: store_link_fields(1) store_peer_fields(1))

lemma link_address_ok:
  assumes "ui_ok a" and "mode_of a = Add_Link_Address"
  shows "ui_ok (confirm_link_address a)"
proof -
  obtain i m where p: "pending_link_id a = Some i" "pending_link_mode a = Some m"
    using assms by (auto simp: ui_ok_def wizards_ok_def)
  have "ui_ok (store_link i m addr a)" for addr using store_ok(1) assms by simp
  then show ?thesis using assms p
    by (auto simp: confirm_link_address_def Let_def) (simp_all add: ui_ok_defs)
qed

lemma peer_name_ok: "ui_ok a \<Longrightarrow> mode_of a = Add_Peer_Name \<Longrightarrow> ui_ok (confirm_peer_name a)"
  by (auto simp: ui_ok_defs confirm_peer_name_def cancel_peer_wizard_def Let_def)

lemma peer_key_ok:
  "ui_ok a \<Longrightarrow> mode_of a = Add_Peer_Public_Key \<Longrightarrow> ui_ok (confirm_peer_public_key b64_dec a)"
  by (auto simp: ui_ok_defs confirm_peer_public_key_def Let_def)

lemma toggle_rest:
  "ui_ok a \<Longrightarrow> ui_ok (toggle_peer_link a)"
  by (auto simp: ui_ok_defs toggle_peer_link_def split: option.split)

lemma peer_links_ok:
  assumes "ui_ok a" and "mode_of a = Add_Peer_Links"
  shows "ui_ok (confirm_peer_links a)"
proof -
  obtain n k where p: "pending_peer_name a = Some n" "pending_peer_public_key a = Some k"
    using assms by (auto simp: ui_ok_def wizards_ok_def)
  then show ?thesis using store_ok(2) [OF assms(1)] assms(2) by (simp add: confirm_peer_links_def)
qed

lemma remove_ok:
  "ui_ok a \<Longrightarrow> mode_of a = Confirm_Remove_Link \<Longrightarrow> ui_ok (remove_selected_link a)"
  "ui_ok a \<Longrightarrow> mode_of a = Confirm_Remove_Peer \<Longrightarrow> ui_ok (remove_selected_peer a)"
  using remove_cursor [of "links_selected a" "app_links a"]
    remove_cursor [of "peers_selected a" "app_peers a"]
  by (simp_all add: ui_ok_defs remove_selected_link_def remove_selected_peer_def set_links_def
      set_peers_def)

lemma save_key_ui: "ui (save_key env t) =
    fst (save_config (env_b64 env) (env_toml env) (env_fs env) (ui t) (store t))"
  "ran (save_key env t) = ran t" "console_of (save_key env t) = console_of t"
  by (simp_all add: save_key_def case_prod_unfold Let_def)

lemma save_config_ok: "ui_ok (fst (save_config b64_dec toml_to env a s)) = ui_ok a"
  by (simp add: save_config_def ui_ok_defs split: sum.split)

lemma run_pending_ok:
  assumes "ui_ok (ui t) \<or> ui_ok ((ui t)\<lparr>pending_service_action := None\<rparr>)" and "mode_of (ui t) = Normal"
  shows "ui_ok (ui (run_pending_service_action env t))"
proof -
  have "ui_ok ((ui t)\<lparr>pending_service_action := None\<rparr>)"
    using assms by (auto simp: ui_ok_defs)
  then show ?thesis using assms
    by (auto simp: run_pending_service_action_def ui_ok_defs(4) split: option.split)
      (simp_all add: ui_ok_defs)
qed

lemma handler_ok:
  "ui_ok a \<Longrightarrow> mode_of a = Choose_Template \<Longrightarrow> ui_ok (handle_choose_template k a)"
  "ui_ok a \<Longrightarrow> mode_of a = Add_Link_Direction \<Longrightarrow> ui_ok (handle_link_mode_choice k a)"
  "ui_ok a \<Longrightarrow> mode_of a = Add_Peer_Links \<Longrightarrow> ui_ok (handle_peer_links_checklist k a)"
  "ui_ok a \<Longrightarrow> mode_of a = Confirm_Remove_Link \<Longrightarrow> ui_ok (handle_confirm_remove_link k a)"
  "ui_ok a \<Longrightarrow> mode_of a = Confirm_Remove_Peer \<Longrightarrow> ui_ok (handle_confirm_remove_peer k a)"
  by (simp_all add: handle_choose_template_def handle_link_mode_choice_def
      handle_peer_links_checklist_def handle_confirm_remove_link_def handle_confirm_remove_peer_def
      cancel_ok move_ok template_ok link_mode_ok toggle_rest peer_links_ok remove_ok normal_ok)

lemma edit_buffer_ok: "ui_ok a \<Longrightarrow> ui_ok (edit_buffer k a)"
  by (cases k) simp_all

lemma text_input_ok:
  "ui_ok a \<Longrightarrow> mode_of a = Add_Link_Id \<or> mode_of a = Add_Link_Address \<Longrightarrow>
     ui_ok (handle_link_text_input k a)"
  "ui_ok a \<Longrightarrow> mode_of a = Add_Peer_Name \<or> mode_of a = Add_Peer_Public_Key \<Longrightarrow>
     ui_ok (handle_peer_text_input b64_dec k a)"
  by (auto simp: handle_link_text_input_def handle_peer_text_input_def cancel_ok link_id_ok
      link_address_ok peer_name_ok peer_key_ok edit_buffer_ok)

lemma confirm_modes_ok:
  "ui_ok a \<Longrightarrow> selected_link a \<noteq> None \<Longrightarrow> mode_of a = Normal \<Longrightarrow>
     ui_ok (mode_of_update (\<lambda>_. Confirm_Remove_Link) a)"
  "ui_ok a \<Longrightarrow> selected_peer a \<noteq> None \<Longrightarrow> mode_of a = Normal \<Longrightarrow>
     ui_ok (mode_of_update (\<lambda>_. Confirm_Remove_Peer) a)"
  by (auto simp: ui_ok_defs selected_link_def selected_peer_def nth_opt_def split: if_splits)

lemma activate_ok:
  assumes "ui_ok a" and "mode_of a = Normal"
  shows "mode_of (activate_selected_service_action a) = Normal \<Longrightarrow>
      ui_ok ((activate_selected_service_action a)\<lparr>pending_service_action := None\<rparr>)"
    and "mode_of (activate_selected_service_action a) \<noteq> Normal \<Longrightarrow>
      ui_ok (activate_selected_service_action a)"
  using assms
  by (auto simp: activate_selected_service_action_def Let_def ui_ok_defs split: if_splits)

lemma normal_handlers_ok:
  assumes "ui_ok (ui t)" and "mode_of (ui t) = Normal"
  shows "ui_ok (ui (links_key env k t))" and "ui_ok (ui (peers_key env k t))"
    and "ui_ok (ui (service_key env k t))"
proof -
  show "ui_ok (ui (links_key env k t))" "ui_ok (ui (peers_key env k t))"
    using assms by (simp_all add: links_key_def peers_key_def move_ok begin_ok confirm_modes_ok
        save_key_ui save_config_ok)
  show "ui_ok (ui (service_key env k t))"
    using assms activate_ok [OF assms]
      run_pending_ok [of "on_ui activate_selected_service_action t" env]
    by (auto simp: service_key_def Let_def move_ok)
qed

lemma handle_normal_ok:
  "ui_ok (ui t) \<Longrightarrow> mode_of (ui t) = Normal \<Longrightarrow> ui_ok (ui (handle_normal env k t))"
  by (simp add: handle_normal_def normal_handlers_ok split: tab.split)

lemma confirm_service_ok:
  assumes "ui_ok (ui t)" and "mode_of (ui t) = Confirm_Service_Action"
  shows "ui_ok (ui (handle_confirm_service_action env k t))"
proof -
  have "ui_ok ((mode_of_update (\<lambda>_. Normal) (ui t))\<lparr>pending_service_action := None\<rparr>)"
    using assms by (simp add: ui_ok_defs)
  then show ?thesis
    using assms run_pending_ok [of "on_ui (mode_of_update (\<lambda>_. Normal)) t" env]
    by (simp add: handle_confirm_service_action_def cancel_ok)
qed

lemma handle_key_ok: "ui_ok (ui t) \<Longrightarrow> ui_ok (ui (handle_key env k t))"
  by (cases "mode_of (ui t)")
    (simp_all add: handle_key_def handle_normal_ok handler_ok text_input_ok confirm_service_ok)

lemma tui_step_ok: "ui_ok (ui t) \<Longrightarrow> ui_ok (ui (tui_step e t))"
proof (cases e)
  case (Pair env ev)
  assume "ui_ok (ui t)"
  then show ?thesis using handle_key_ok [of "on_ui (message_update (\<lambda>_. None)) t" env] Pair
    by (cases ev) (simp_all add: idle_tick_def split: tab.split)
qed

lemma start_ok: "start_tui toml_from env path s c = Inr t \<Longrightarrow> ui_ok (ui t)"
proof -
  assume "start_tui toml_from env path s c = Inr t"
  then obtain cfg where "ui t = apply_status (env_now env) (env_query env)
      (refresh_service_info env (new_app path cfg))"
    by (auto simp: start_tui_def split: sum.splits)
  moreover have "ui_ok (new_app path cfg)" by (simp add: new_app_def ui_ok_defs menu_len_def service_menu_def)
  ultimately show ?thesis by simp
qed

lemma run_ok: "ui_ok (ui t) \<Longrightarrow> ui_ok (ui (run_event_loop evs t))"
  by (induction evs arbitrary: t) (simp_all add: run_event_loop_def tui_step_ok del: tui_step.simps)

subsection \<open>Which actions run\<close>

lemma run_pending_ran:
  "ran (run_pending_service_action env t) =
     ran t @ (case pending_service_action (ui t) of None \<Rightarrow> [] | Some act \<Rightarrow> [act])"
  by (simp add: run_pending_service_action_def split: option.split)

lemma normal_ran:
  assumes "service_ok (ui t)" and "mode_of (ui t) = Normal"
  shows "\<exists>new. ran (handle_normal env k t) = ran t @ new \<and> (\<forall>act \<in> set new. \<not> needs_confirm act)"
proof -
  have "\<exists>new. ran (service_key env k t) = ran t @ new \<and> (\<forall>act \<in> set new. \<not> needs_confirm act)"
    using assms by (auto simp: service_key_def Let_def run_pending_ran
        activate_selected_service_action_def split: if_splits)
  moreover have "ran (links_key env k t) = ran t" "ran (peers_key env k t) = ran t"
    by (simp_all add: links_key_def peers_key_def save_key_ui)
  ultimately show ?thesis by (auto simp: handle_normal_def split: tab.split)
qed

text \<open>An event runs no action and leaves the terminal alone, or runs one action on the terminal.\<close>

definition runs_action :: "tui_env \<Rightarrow> tui \<Rightarrow> tui \<Rightarrow> bool" where
  "runs_action env t t' \<longleftrightarrow> ran t' = ran t \<and> console_of t' = console_of t \<or>
     (\<exists>act. ran t' = ran t @ [act] \<and>
        console_of t' = snd (run_service_action_suspended (env_term env) act (console_of t)))"

lemma runs_action_simps [simp]:
  "runs_action env t t" "runs_action env t (on_ui f t')\<longleftrightarrow> runs_action env t t'"
  "runs_action env (on_ui f t) t' \<longleftrightarrow> runs_action env t t'" "runs_action env t (save_key env' t)"
  "runs_action env t (run_pending_service_action env t)"
  by (simp_all add: runs_action_def save_key_ui run_pending_service_action_def split: option.split)

lemma runs_pending [simp]: "runs_action env t (run_pending_service_action env (on_ui f t))"
  using runs_action_simps(5) [of env "on_ui f t"] by (simp del: runs_action_simps(5))

lemma handle_key_runs: "runs_action env t (handle_key env k t)"
proof -
  have "runs_action env t (links_key env k t)" "runs_action env t (peers_key env k t)"
    "runs_action env t (service_key env k t)"
    by (simp_all add: links_key_def peers_key_def service_key_def Let_def)
  then have "runs_action env t (handle_normal env k t)" by (simp add: handle_normal_def split: tab.split)
  moreover have "runs_action env t (handle_confirm_service_action env k t)"
    by (simp add: handle_confirm_service_action_def)
  ultimately show ?thesis by (simp add: handle_key_def split: ui_mode.split)
qed

lemma tui_step_runs: "runs_action env t (tui_step (env, ev) t)"
  using handle_key_runs [of env "on_ui (message_update (\<lambda>_. None)) t"]
  by (simp split: tui_event.split)

text \<open>Between events the console has its screen, unless the terminal or \<open>tee\<close> failed.\<close>

lemma step_screen:
  assumes "on_screen (console_of t)" and "terminal_ok (env_term env)" and "unit_piped (env_term env)"
  shows "on_screen (console_of (tui_step (env, ev) t))"
  using tui_step_runs [of env t ev] action_screen [OF assms(2) refl] assms(1,3)
  unfolding runs_action_def by metis

lemma run_screen:
  "on_screen (console_of t) \<Longrightarrow> \<forall>(env, ev) \<in> set evs. terminal_ok (env_term env) \<and> unit_piped (env_term env) \<Longrightarrow>
     on_screen (console_of (run_event_loop evs t))"
proof (induction evs arbitrary: t)
  case (Cons e evs)
  obtain env ev where e: "e = (env, ev)" by (cases e)
  have "on_screen (console_of (tui_step (env, ev) t))" using Cons.prems e by (intro step_screen) auto
  from Cons.IH [OF this] show ?case using Cons.prems(2) e by (simp add: run_event_loop_def del: tui_step.simps)
qed (simp add: run_event_loop_def)

text \<open>An event that runs an action needing confirmation is \<open>y\<close> on the prompt for that action.\<close>

lemma confirmed_ran:
  assumes "ui_ok (ui t)" and "ran (tui_step (env, ev) t) \<noteq> ran t"
  shows "\<exists>act. ran (tui_step (env, ev) t) = ran t @ [act] \<and>
    (needs_confirm act \<longrightarrow> mode_of (ui t) = Confirm_Service_Action \<and>
       pending_service_action (ui t) = Some act \<and> (\<exists>k. ev = Key k \<and> is_key ''yY'' k))"
proof -
  let ?t = "on_ui (message_update (\<lambda>_. None)) t"
  obtain k where ev: "ev = Key k" "\<not> should_quit (ui t)"
    using assms(2) by (cases ev) (auto split: if_splits)
  then have step: "tui_step (env, ev) t = handle_key env k ?t" by simp
  consider (normal) "mode_of (ui t) = Normal" | (confirm) "mode_of (ui t) = Confirm_Service_Action"
    using assms(2) step by (cases "mode_of (ui t)") (auto simp: handle_key_def simp del: tui_step.simps)
  then show ?thesis
  proof cases
    case normal
    have "pending_service_action (ui t) = None" using assms(1) normal by (simp add: ui_ok_defs)
    then have r: "ran (handle_normal env k ?t) \<noteq> ran ?t \<Longrightarrow> \<exists>act. ran (handle_normal env k ?t) = ran ?t @ [act]"
      by (auto simp: handle_normal_def links_key_def peers_key_def save_key_ui service_key_def Let_def
          run_pending_ran activate_selected_service_action_def split: tab.splits if_splits)
    have "service_ok (ui ?t)" using assms(1) by (simp add: ui_ok_defs)
    from normal_ran [OF this, of env k] obtain new where
      "ran (handle_normal env k ?t) = ran ?t @ new" "\<forall>act \<in> set new. \<not> needs_confirm act"
      using normal by auto
    then show ?thesis
      using r assms(2) step normal by (auto simp: handle_key_def simp del: tui_step.simps)
  next
    case confirm
    then obtain act where "pending_service_action (ui t) = Some act"
      using assms(1) by (auto simp: ui_ok_defs)
    then show ?thesis using assms(2) step confirm ev
      by (auto simp: handle_key_def handle_confirm_service_action_def run_pending_ran
          simp del: tui_step.simps split: if_splits)
  qed
qed

subsection \<open>What the console does to the configuration\<close>

text \<open>
  Links and peers are well-formed, and a key waiting for the checklist has been checked. Nothing
  else of the configuration is ever changed.
\<close>

definition config_wf :: "b64_decoder \<Rightarrow> app \<Rightarrow> bool" where
  "config_wf b64_dec a \<longleftrightarrow> links_ok a \<and> peers_ok b64_dec a \<and>
     (\<forall>key. pending_peer_public_key a = Some key \<longrightarrow> \<not> isl (decode_public_key b64_dec key))"

lemmas config_wf_defs = config_wf_def links_ok_def peers_ok_def

text \<open>Operations that only touch the console's own fields.\<close>

definition same_config :: "app \<Rightarrow> app \<Rightarrow> bool" where
  "same_config a a' \<longleftrightarrow> app_config a' = app_config a \<and>
     (pending_peer_public_key a' = pending_peer_public_key a \<or> pending_peer_public_key a' = None)"

lemma same_config_wf: "same_config a a' \<Longrightarrow> config_wf b64_dec a \<Longrightarrow> config_wf b64_dec a'"
  by (auto simp: same_config_def config_wf_defs)

lemma same_config_ops:
  "same_config a (move_link_selection d a)" "same_config a (move_peer_selection d a)"
  "same_config a (move_service_selection d a)" "same_config a (move_template_selection d a)"
  "same_config a (move_peer_links_cursor d a)" "same_config a (begin_add_link a)"
  "same_config a (begin_edit_link a)" "same_config a (begin_add_peer a)"
  "same_config a (begin_edit_peer a)" "same_config a (cancel_link_wizard a)"
  "same_config a (cancel_peer_wizard a)" "same_config a (cancel_service_action a)"
  "same_config a (confirm_template_choice a)" "same_config a (confirm_link_id a)"
  "same_config a (choose_link_mode m a)" "same_config a (confirm_peer_name a)"
  "same_config a (toggle_peer_link a)" "same_config a (edit_buffer k a)"
  "same_config a (next_tab a)" "same_config a (a\<lparr>mode_of := md\<rparr>)"
  "same_config a (a\<lparr>message := None\<rparr>)" "same_config a (tab_of_update g a)"
  "same_config a (should_quit_update h a)"
  by (simp_all add: same_config_def move_link_selection_def move_peer_selection_def
      move_service_selection_def move_template_selection_def move_peer_links_cursor_def
      begin_add_link_def begin_edit_link_def begin_add_peer_def begin_edit_peer_def
      cancel_link_wizard_def cancel_peer_wizard_def cancel_service_action_def
      confirm_template_choice_def confirm_link_id_def choose_link_mode_def confirm_peer_name_def
      toggle_peer_link_def next_tab_def Let_def split: option.split)
    (cases k; simp)+

lemma same_config_env:
  "same_config a (apply_status now r a)" "same_config a (refresh_service_info env a)"
  "same_config a (activate_selected_service_action a)" "same_config a (idle_tick env a)"
  "same_config a (fst (save_config b64_dec toml_to fe a s))"
  by (simp_all add: same_config_def apply_status_def refresh_service_info_def idle_tick_def
      activate_selected_service_action_def save_config_def Let_def split: sum.split tab.split)

lemmas same_wf = same_config_ops [THEN same_config_wf] same_config_env [THEN same_config_wf]

lemma store_link_key [simp]:
  "pending_peer_public_key (store_link i m addr a) = pending_peer_public_key a"
  by (simp add: store_link_def set_links_def Let_def)

lemma store_peer_key [simp]: "pending_peer_public_key (store_peer name key a) = None"
  by (simp add: store_peer_def set_peers_def Let_def)

lemma link_address_wf:
  assumes "config_wf b64_dec a"
  shows "config_wf b64_dec (confirm_link_address a)"
proof -
  have "config_wf b64_dec (store_link i m addr a)" if "parse_socket_addr addr \<noteq> None" for i m addr
    using assms that store_link_ok [of a addr i m] by (simp add: config_wf_def peers_ok_def)
  then show ?thesis using assms
    by (auto simp: confirm_link_address_def Let_def split: option.split)
      (simp_all add: config_wf_defs)
qed

lemma peer_key_wf:
  "config_wf b64_dec a \<Longrightarrow> config_wf b64_dec (confirm_peer_public_key b64_dec a)"
  by (auto simp: confirm_peer_public_key_def Let_def config_wf_defs)

lemma peer_links_wf:
  assumes "config_wf b64_dec a"
  shows "config_wf b64_dec (confirm_peer_links a)"
proof -
  have "config_wf b64_dec (store_peer name key a)" if "pending_peer_public_key a = Some key" for name key
    using assms that store_peer_ok [of b64_dec a key name] by (simp add: config_wf_def links_ok_def)
  then show ?thesis using assms
    by (auto simp: confirm_peer_links_def split: option.split) (simp_all add: config_wf_defs)
qed

lemma remove_key [simp]:
  "pending_peer_public_key (remove_selected_link a) = pending_peer_public_key a"
  "pending_peer_public_key (remove_selected_peer a) = pending_peer_public_key a"
  "app_peers (remove_selected_link a) = app_peers a"
  "app_links (remove_selected_peer a) = app_links a"
  "cfg_role (app_config (remove_selected_peer a)) = cfg_role (app_config a)"
  by (simp_all add: remove_selected_link_def remove_selected_peer_def set_links_def set_peers_def)

lemma remove_wf:
  "config_wf b64_dec a \<Longrightarrow> config_wf b64_dec (remove_selected_link a)"
  "config_wf b64_dec a \<Longrightarrow> config_wf b64_dec (remove_selected_peer a)"
proof -
  assume wf: "config_wf b64_dec a"
  show "config_wf b64_dec (remove_selected_link a)"
    using wf remove_link_ok [of a] by (simp add: config_wf_def peers_ok_def)
  show "config_wf b64_dec (remove_selected_peer a)"
    using wf remove_peer_ok [of b64_dec a] by (simp add: config_wf_def links_ok_def)
qed

lemma run_pending_wf:
  "config_wf b64_dec (ui t) \<Longrightarrow> config_wf b64_dec (ui (run_pending_service_action env t))"
  by (simp add: run_pending_service_action_def split: option.split)
    (intro allI impI same_wf(24) same_wf(25), simp add: config_wf_defs)

lemma normal_wf:
  assumes "config_wf b64_dec (ui t)"
  shows "config_wf b64_dec (ui (handle_normal env k t))"
proof -
  have "config_wf b64_dec (ui (links_key env k t))" "config_wf b64_dec (ui (peers_key env k t))"
    using assms by (simp_all add: links_key_def peers_key_def same_wf save_key_ui)
  moreover have "config_wf b64_dec (ui (service_key env k t))"
    using assms by (simp add: service_key_def Let_def same_wf run_pending_wf)
  ultimately show ?thesis using assms by (simp add: handle_normal_def same_wf split: tab.split)
qed

lemma handle_key_wf:
  assumes "config_wf (env_b64 env) (ui t)"
  shows "config_wf (env_b64 env) (ui (handle_key env k t))"
  using assms
  by (cases "mode_of (ui t)")
    (simp_all add: handle_key_def normal_wf handle_choose_template_def handle_link_text_input_def
      handle_link_mode_choice_def handle_peer_text_input_def handle_peer_links_checklist_def
      handle_confirm_remove_link_def handle_confirm_remove_peer_def handle_confirm_service_action_def
      same_wf link_address_wf peer_key_wf peer_links_wf remove_wf run_pending_wf)

lemma step_wf:
  assumes "config_wf (env_b64 env) (ui t)"
  shows "config_wf (env_b64 env) (ui (tui_step (env, ev) t))"
proof -
  have "config_wf (env_b64 env) (ui (handle_key env k (on_ui (message_update (\<lambda>_. None)) t)))" for k
    using assms by (intro handle_key_wf) (simp add: config_wf_defs)
  then show ?thesis using assms by (cases ev) (simp_all add: same_wf)
qed

lemma run_wf:
  assumes "\<forall>(env, ev) \<in> set evs. env_b64 env = b64_dec" and "config_wf b64_dec (ui t)"
  shows "config_wf b64_dec (ui (run_event_loop evs t))"
  using assms
proof (induction evs arbitrary: t)
  case (Cons e evs)
  obtain env ev where e: "e = (env, ev)" by (cases e)
  then have "config_wf b64_dec (ui (tui_step (env, ev) t))" using step_wf [of env t ev] Cons.prems by simp
  then show ?case using Cons e by (simp add: run_event_loop_def del: tui_step.simps)
qed (simp add: run_event_loop_def)

subsection \<open>What the console writes\<close>

lemma run_pending_store: "store (run_pending_service_action env t) = store t"
  by (simp add: run_pending_service_action_def split: option.split)

lemma tab_keys_store:
  "store (links_key env k t) = store t \<or> is_key ''s'' k \<and> links_key env k t = save_key env t"
  "store (peers_key env k t) = store t \<or> is_key ''s'' k \<and> peers_key env k t = save_key env t"
  "store (service_key env k t) = store t"
  by (simp_all add: links_key_def peers_key_def service_key_def Let_def run_pending_store)

lemma normal_store:
  "store (handle_normal env k t) = store t \<or> is_key ''s'' k \<and> handle_normal env k t = save_key env t"
  using tab_keys_store [of env k t]
  by (cases "tab_of (ui t)") (auto simp: handle_normal_def simp del: ex_simps)

lemma handle_key_store:
  "store (handle_key env k t) = store t \<or>
     mode_of (ui t) = Normal \<and> is_key ''s'' k \<and> handle_key env k t = save_key env t"
  using normal_store [of env k t]
  by (cases "mode_of (ui t)")
    (simp_all add: handle_key_def handle_confirm_service_action_def run_pending_store)

lemma save_key_store:
  "store (save_key env t) = store_after_save (env_b64 env) (env_toml env) (env_fs env)
     (app_config (ui t)) (config_path (ui t)) (store t)"
  using store_after_save_ok [of "env_b64 env" "env_toml env" "env_fs env" "app_config (ui t)"
      "config_path (ui t)" "store t"]
  by (simp add: save_key_def save_config_def split: sum.split)

text \<open>An event changes the store only as the save key, and then only the configuration's file.\<close>

lemma step_store:
  assumes "store (tui_step (env, ev) t) \<noteq> store t"
  shows "ev = Key (Char (byte CHR ''s'')) \<and> mode_of (ui t) = Normal \<and>
    valid_config (env_b64 env) (app_config (ui t)) \<and>
    store (tui_step (env, ev) t) =
      store_after_save (env_b64 env) (env_toml env) (env_fs env) (app_config (ui t))
        (config_path (ui t)) (store t)"
proof -
  let ?t = "on_ui (message_update (\<lambda>_. None)) t"
  obtain k where ev: "ev = Key k" "\<not> should_quit (ui t)"
    using assms by (cases ev) (auto split: if_splits)
  then have step: "tui_step (env, ev) t = handle_key env k ?t" by simp
  have h: "mode_of (ui t) = Normal" "is_key ''s'' k" "handle_key env k ?t = save_key env ?t"
    using handle_key_store [of env k ?t] assms step by (simp_all del: tui_step.simps)
  then have st: "store (tui_step (env, ev) t) =
      store_after_save (env_b64 env) (env_toml env) (env_fs env) (app_config (ui t))
        (config_path (ui t)) (store t)"
    using save_key_store [of env ?t] step by (simp del: tui_step.simps)
  then have "validate (env_b64 env) (app_config (ui t)) = []"
    using assms by (simp add: store_after_save_def del: tui_step.simps split: if_splits)
  then show ?thesis using st h ev by (simp add: validate_Nil_iff is_key_def del: tui_step.simps)
qed

end
