(* ===== verification/Tui_View.thy ===== *)
theory Tui_View
  imports Tui_Format Tui_Events
begin

section \<open>What the console draws (\<open>tui/ui.rs\<close>)\<close>

text \<open>
  Drawing builds widgets and hands each to the terminal library with an area. Here a widget is the
  description the code builds (texts, colours, borders, the selected row), and drawing returns the
  widgets in the order they are handed over. How the library divides an area and what a block
  leaves inside its border are parameters (\<open>screen_lib\<close>). \<open>None\<close> is a panic: the code indexes the
  parts of a divided area. Sums and sizes wrap around as in a release build.
\<close>

subsection \<open>Colours\<close>

datatype color = Rgb u8 u8 u8

record hex_palette =
  hex_purple :: string
  hex_cyan :: string
  hex_acid_green :: string
  hex_hot_pink :: string
  hex_red :: string
  hex_orange :: string
  hex_muted :: string
  hex_line :: string
  hex_white :: string

record theme =
  th_purple :: color
  th_cyan :: color
  th_acid_green :: color
  th_hot_pink :: color
  th_red :: color
  th_orange :: color
  th_muted :: color
  th_line :: color
  th_white :: color

text \<open>\<open>str::get\<close> of a range, and \<open>u8::from_str_radix\<close> in base 16, which takes one plus sign.\<close>

definition is_char_boundary :: "string \<Rightarrow> nat \<Rightarrow> bool" where
  "is_char_boundary s i \<longleftrightarrow> i = 0 \<or> i = length s \<or> (i < length s \<and> \<not> is_continuation (s ! i))"

definition str_get :: "nat \<Rightarrow> nat \<Rightarrow> string \<Rightarrow> string option" where
  "str_get i j s =
     (if i \<le> j \<and> is_char_boundary s i \<and> is_char_boundary s j then Some (take (j - i) (drop i s)) else None)"

definition parse_hex_u8 :: "string \<Rightarrow> u8 option" where
  "parse_hex_u8 s =
     (let digits = (if take 1 s = ''+'' then drop 1 s else s) in
      if digits = [] \<or> \<not> list_all (is_radix_digit 16) digits \<or> 256 \<le> radix_val 16 0 digits then None
      else Some (of_nat (radix_val 16 0 digits)))"

definition hex_part :: "nat \<Rightarrow> nat \<Rightarrow> string \<Rightarrow> u8" where
  "hex_part i j hex =
     (case parse_hex_u8 (case str_get i j hex of Some s \<Rightarrow> s | None \<Rightarrow> ''ff'') of
        Some v \<Rightarrow> v | None \<Rightarrow> 255)"

definition hex_to_color :: "string \<Rightarrow> color" where
  "hex_to_color hex =
     (let hex = dropWhile (\<lambda>c. c = CHR ''#'') hex
      in Rgb (hex_part 0 2 hex) (hex_part 2 4 hex) (hex_part 4 6 hex))"

definition load_theme :: "hex_palette \<Rightarrow> theme" where
  "load_theme p =
     \<lparr>th_purple = hex_to_color (hex_purple p), th_cyan = hex_to_color (hex_cyan p),
      th_acid_green = hex_to_color (hex_acid_green p), th_hot_pink = hex_to_color (hex_hot_pink p),
      th_red = hex_to_color (hex_red p), th_orange = hex_to_color (hex_orange p),
      th_muted = hex_to_color (hex_muted p), th_line = hex_to_color (hex_line p),
      th_white = hex_to_color (hex_white p)\<rparr>"

definition mode_color :: "theme \<Rightarrow> bool \<Rightarrow> color" where
  "mode_color th mode_is_forward = (if mode_is_forward then th_cyan th else th_hot_pink th)"

subsection \<open>Widgets\<close>

record style =
  fg_color :: "color option"
  bg_color :: "color option"
  bold_face :: bool

definition raw_style :: style where
  "raw_style = \<lparr>fg_color = None, bg_color = None, bold_face = False\<rparr>"

definition fg :: "color \<Rightarrow> style" where
  "fg c = \<lparr>fg_color = Some c, bg_color = None, bold_face = False\<rparr>"

definition fg_bold :: "color \<Rightarrow> style" where
  "fg_bold c = \<lparr>fg_color = Some c, bg_color = None, bold_face = True\<rparr>"

text \<open>A span of text, also a table cell; a line is a list of spans. Every block of the code has
  all four borders.\<close>

type_synonym span = "string \<times> style"

abbreviation raw :: "string \<Rightarrow> span" where
  "raw s \<equiv> (s, raw_style)"

record block =
  border_style :: style
  block_title :: "span option"

record rect =
  rect_x :: u16
  rect_y :: u16
  rect_width :: u16
  rect_height :: u16

datatype size = Exactly u16 | At_Least u16

datatype widget =
    Block_Only block
  | Paragraph "span list list" "block option"
  | Choice (choice_items: "span list list") "block option" style string (choice_selected: nat)
      \<comment> \<open>items, highlight style and symbol, selected row\<close>
  | Grid (grid_header: "span list") (grid_rows: "span list list") "size list" nat "block option"
      \<comment> \<open>header and rows of cells, column widths and spacing\<close>

type_synonym drawing = "(rect \<times> widget) list"

record screen_lib =
  split_rows :: "size list \<Rightarrow> rect \<Rightarrow> rect list"
  block_inner :: "block \<Rightarrow> rect \<Rightarrow> rect"

definition titled :: "style \<Rightarrow> span \<Rightarrow> block" where
  "titled border title = \<lparr>border_style = border, block_title = Some title\<rparr>"

text \<open>The border of every input step.\<close>

definition step_block :: "theme \<Rightarrow> string \<Rightarrow> block" where
  "step_block th title = titled (fg (th_cyan th)) (title, fg_bold (th_cyan th))"

definition check_mark :: string where
  "check_mark = [CHR 0xE2, CHR 0x9C, CHR 0x93]"

definition cross_mark :: string where
  "cross_mark = [CHR 0xE2, CHR 0x9C, CHR 0x97]"

definition ellipsis :: string where
  "ellipsis = [CHR 0xE2, CHR 0x80, CHR 0xA6]"

definition mode_text :: "link_mode \<Rightarrow> string" where
  "mode_text m = to_lowercase (debug_mode m)"

subsection \<open>The tab bar and the steps of the wizards\<close>

definition draw_tabs :: "theme \<Rightarrow> app \<Rightarrow> rect \<Rightarrow> drawing" where
  "draw_tabs th a area =
     (let tab_style = (\<lambda>t. if tab_of a = t then fg_bold (th_acid_green th) else fg (th_muted th))
      in [(area, Paragraph
           [[('' GHOSTPORT '', fg_bold (th_purple th)), raw ''  '',
             (''[1] status'', tab_style Tab_Status), raw ''  '',
             (''[2] links'', tab_style Tab_Links), raw ''  '',
             (''[3] service'', tab_style Tab_Service), raw ''  '',
             (''[4] peers'', tab_style Tab_Peers)]]
           (Some \<lparr>border_style = fg (th_line th), block_title = None\<rparr>))])"

definition draw_text_step :: "theme \<Rightarrow> rect \<Rightarrow> string \<Rightarrow> app \<Rightarrow> span option \<Rightarrow> drawing" where
  "draw_text_step th area title a trailing_hint =
     [(area, Paragraph
         [[(input_buffer a, fg (th_white th)), (''_'', fg (th_acid_green th))] @
          (case trailing_hint of Some hint \<Rightarrow> [hint] | None \<Rightarrow> [])]
         (Some (step_block th ('' '' @ title @ '' ''))))]"

definition draw_template_menu :: "theme \<Rightarrow> app \<Rightarrow> rect \<Rightarrow> drawing" where
  "draw_template_menu th a area =
     [(area, Choice
         (map (\<lambda>t. [(pad_right 28 (t_name t), fg (th_white th)),
                    (mode_text (t_mode t), fg (mode_color th (t_mode t = Forward))),
                    (''  default port '' @ show_word (default_port t), fg (th_muted th))])
            templates @
          [[(''Custom (type everything yourself)'', fg (th_muted th))]])
         (Some (step_block th ('' new encrypted port '' @ em_dash @ '' choose a template '')))
         (fg_bold (th_acid_green th)) ''> '' (template_selected a))]"

definition verb_of :: "bool \<Rightarrow> string" where
  "verb_of editing = (if editing then ''edit'' else ''new'')"

abbreviation is_editing :: "app \<Rightarrow> bool" where
  "is_editing a \<equiv> editing_original_id a \<noteq> None"

abbreviation is_editing_peer :: "app \<Rightarrow> bool" where
  "is_editing_peer a \<equiv> editing_original_peer_name a \<noteq> None"

definition draw_mode_step :: "theme \<Rightarrow> rect \<Rightarrow> app \<Rightarrow> drawing" where
  "draw_mode_step th area a =
     [(area, Paragraph
         [[(''f'', fg_bold (th_cyan th)), raw '' forward  '',
           (em_dash @ '' reach a service near the peer, from a port here'', fg (th_muted th))],
          [(''r'', fg_bold (th_hot_pink th)), raw '' reverse  '',
           (em_dash @ '' expose a service near here, via a port on the peer'', fg (th_muted th))],
          [(''esc cancel'', fg (th_muted th))]]
         (Some (step_block th
           ('' '' @ verb_of (is_editing a) @ '' encrypted port '' @ em_dash @ '' direction ''))))]"

definition checklist_row :: "theme \<Rightarrow> app \<Rightarrow> link_config \<Rightarrow> span list" where
  "checklist_row th a l =
     (let checked = peer_link_is_checked (link_id l) a in
      [(if checked then ''[x] '' else ''[ ] '',
        if checked then fg_bold (th_acid_green th) else fg (th_muted th)),
       (pad_right 20 (link_id l), fg (th_white th)),
       (mode_text (link_mode l), fg (mode_color th (link_mode l = Forward)))])"

definition draw_peer_links_checklist :: "theme \<Rightarrow> app \<Rightarrow> rect \<Rightarrow> drawing" where
  "draw_peer_links_checklist th a area =
     (let block = step_block th
          ('' '' @ verb_of (is_editing_peer a) @ '' peer '' @ em_dash @ '' links this peer may use '')
      in if app_links a = []
         then [(area, Paragraph
           [[(''no links defined yet '' @ em_dash @
              '' add one on the Links tab (space/enter still confirms with none)'', fg (th_muted th))]]
           (Some block))]
         else [(area, Choice (map (checklist_row th a) (app_links a)) (Some block)
           (fg_bold (th_acid_green th)) ''> '' (peer_links_cursor a))])"

definition input_hint :: "theme \<Rightarrow> string \<Rightarrow> bool option \<Rightarrow> span option" where
  "input_hint th complaint status =
     (case status of None \<Rightarrow> None
      | Some True \<Rightarrow> Some (''  '' @ check_mark @ '' valid'', fg (th_acid_green th))
      | Some False \<Rightarrow> Some (''  '' @ cross_mark @ complaint, fg (th_red th)))"

definition draw_input_line :: "theme \<Rightarrow> b64_decoder \<Rightarrow> app \<Rightarrow> rect \<Rightarrow> drawing" where
  "draw_input_line th b64_dec a area =
     (case mode_of a of
        Choose_Template \<Rightarrow> draw_template_menu th a area
      | Add_Link_Id \<Rightarrow>
          draw_text_step th area
            (verb_of (is_editing a) @ '' encrypted port '' @ em_dash @ '' id'') a None
      | Add_Link_Address \<Rightarrow>
          (let field_label = (case pending_link_needs_listen a of
                 Some True \<Rightarrow> ''listen address'' | Some False \<Rightarrow> ''target address'' | None \<Rightarrow> ''address'')
           in draw_text_step th area
             (verb_of (is_editing a) @ '' encrypted port '' @ em_dash @ '' '' @ field_label @ '' (host:port)'') a
             (input_hint th '' needs host:port, e.g. 127.0.0.1:5432'' (link_address_input_status a)))
      | Add_Link_Direction \<Rightarrow> draw_mode_step th area a
      | Add_Peer_Name \<Rightarrow>
          draw_text_step th area (verb_of (is_editing_peer a) @ '' peer '' @ em_dash @ '' name'') a None
      | Add_Peer_Public_Key \<Rightarrow>
          draw_text_step th area
            (verb_of (is_editing_peer a) @ '' peer '' @ em_dash @
             '' public key (from its own `ghostport keygen`)'') a
            (input_hint th '' not a valid base64-encoded 32-byte key'' (peer_public_key_input_status b64_dec a))
      | Add_Peer_Links \<Rightarrow> draw_peer_links_checklist th a area
      | _ \<Rightarrow> [])"

subsection \<open>The status tab\<close>

definition rate_text :: "string \<Rightarrow> app \<Rightarrow> string" where
  "rate_text i a =
     (case link_rates i a of
        Some (fwd, back) \<Rightarrow>
          if 0 < fwd \<or> 0 < back then show_rate fwd @ '' / '' @ show_rate back else ''idle''
      | None \<Rightarrow> em_dash)"

definition status_row :: "theme \<Rightarrow> app \<Rightarrow> link_snapshot \<Rightarrow> span list" where
  "status_row th a l =
     [(snap_id l, fg (th_white th)),
      (snap_mode l, fg (mode_color th (snap_mode l = ''forward''))),
      (show_word (snap_active l),
       if 0 < snap_active l then fg_bold (th_acid_green th) else fg (th_white th)),
      (show_word (snap_total l), fg (th_white th)),
      (show_bytes (snap_forward l), fg (th_orange th)),
      (show_bytes (snap_back l), fg (th_orange th)),
      (rate_text (snap_id l) a, fg (th_muted th))]"

definition total_row :: "theme \<Rightarrow> link_snapshot list \<Rightarrow> span list" where
  "total_row th ls =
     [(''TOTAL'', fg_bold (th_cyan th)), raw [],
      (show_word (sum_list (map snap_active ls)), fg_bold (th_cyan th)),
      (show_word (sum_list (map snap_total ls)), fg_bold (th_cyan th)),
      (show_bytes (sum_list (map snap_forward ls)), fg_bold (th_cyan th)),
      (show_bytes (sum_list (map snap_back ls)), fg_bold (th_cyan th)), raw []]"

definition header_cells :: "theme \<Rightarrow> string list \<Rightarrow> span list" where
  "header_cells th names = map (\<lambda>n. (n, fg_bold (th_cyan th))) names"

definition status_header :: "theme \<Rightarrow> status_snapshot \<Rightarrow> span list" where
  "status_header th snap =
     [(''role '', fg (th_muted th)), (snap_role snap, fg (th_purple th)), raw ''   '',
      (''uptime '', fg (th_muted th)), (show_duration (uptime_secs snap), fg (th_cyan th)), raw ''   '',
      (''control '', fg (th_muted th)),
      (if snap_connected snap then (''connected'', fg_bold (th_acid_green th))
       else (''disconnected'', fg_bold (th_red th)))] @
     (case (snap_peer_addr snap, connected_since_secs_ago snap) of
        (Some addr, Some since) \<Rightarrow>
          [(''  ('' @ addr @ '', up '' @ show_duration since @ '')'', fg (th_muted th))]
      | _ \<Rightarrow> [])"

definition draw_status :: "screen_lib \<Rightarrow> theme \<Rightarrow> app \<Rightarrow> rect \<Rightarrow> drawing option" where
  "draw_status lib th a area =
     (let block = titled (fg (th_line th)) ('' live status '', fg_bold (th_purple th)) in
      case status_snap a of
        None \<Rightarrow>
          (let msg = (case status_error a of Some e \<Rightarrow> e | None \<Rightarrow> ''no data yet'')
           in Some [(area, Paragraph
                [[(''daemon not reachable: '' @ msg, fg (th_red th))],
                 [(''(is it running? see the Service tab)'', fg (th_muted th))]]
                (Some block))])
      | Some snap \<Rightarrow>
          (let inner = split_rows lib [Exactly 3, At_Least 0] (block_inner lib block area);
               rows = map (status_row th a) (snap_links snap) @
                 (if snap_links snap = [] then [] else [total_row th (snap_links snap)])
           in case (nth_opt inner 0, nth_opt inner 1) of
                (Some head_area, Some table_area) \<Rightarrow> Some
                  [(area, Block_Only block),
                   (head_area, Paragraph [status_header th snap] None),
                   (table_area, Grid
                      (header_cells th [''link'', ''mode'', ''active'', ''total'', ''bytes-fwd'',
                         ''bytes-back'', ''rate (fwd/back)''])
                      rows
                      [Exactly 14, Exactly 9, Exactly 7, Exactly 7, Exactly 10, Exactly 10, Exactly 20]
                      2 None)]
              | _ \<Rightarrow> None))"

subsection \<open>The links and the peers tab\<close>

definition tab_title :: "theme \<Rightarrow> string \<Rightarrow> app \<Rightarrow> span" where
  "tab_title th name a =
     (if dirty a then ('' '' @ name @ '' (unsaved changes) '', fg_bold (th_orange th))
      else ('' '' @ name @ '' '', fg_bold (th_purple th)))"

definition name_style :: "theme \<Rightarrow> bool \<Rightarrow> style" where
  "name_style th selected = (if selected then fg_bold (th_acid_green th) else fg (th_white th))"

definition link_table_row :: "theme \<Rightarrow> app \<Rightarrow> nat \<times> link_config \<Rightarrow> span list" where
  "link_table_row th a = (\<lambda>(i, l).
     (let selected = (i = links_selected a);
          c = mode_color th (link_mode l = Forward);
          addr = unwrap_or_default (case link_listen l of Some x \<Rightarrow> Some x | None \<Rightarrow> link_target l);
          field = (if link_listen l \<noteq> None then ''listen'' else ''target'')
      in [(link_id l, name_style th selected),
          (mode_text (link_mode l), if selected then fg_bold c else fg c),
          (field, fg (th_muted th)),
          (addr, fg (th_white th))]))"

text \<open>The line below the table's header when the list is empty.\<close>

definition empty_hint :: "theme \<Rightarrow> string \<Rightarrow> rect \<Rightarrow> rect \<times> widget" where
  "empty_hint th msg area =
     (area\<lparr>rect_y := rect_y area + 2, rect_height := 1\<rparr>,
      Paragraph [[(msg, fg (th_muted th))]] None)"

definition draw_links :: "theme \<Rightarrow> app \<Rightarrow> rect \<Rightarrow> drawing" where
  "draw_links th a area =
     (area, Grid (header_cells th [''id'', ''mode'', ''field'', ''address''])
        (map (link_table_row th a) (List.enumerate 0 (app_links a)))
        [Exactly 16, Exactly 10, Exactly 8, Exactly 28] 2
        (Some (titled (fg (th_line th)) (tab_title th ''links'' a)))) #
     (if app_links a = []
      then [empty_hint th (''no encrypted ports yet '' @ em_dash @ '' press 'a' to add one'') area]
      else [])"

definition short_fingerprint :: "b64_decoder \<Rightarrow> (bytes \<Rightarrow> bytes) \<Rightarrow> string \<Rightarrow> string" where
  "short_fingerprint b64_dec sha256 key =
     (case decode_public_key b64_dec key of
        Inr k \<Rightarrow> take 23 (fingerprint sha256 k) @ ellipsis
      | Inl _ \<Rightarrow> ''invalid key'')"

definition peer_table_row ::
  "theme \<Rightarrow> b64_decoder \<Rightarrow> (bytes \<Rightarrow> bytes) \<Rightarrow> app \<Rightarrow> nat \<times> peer_config \<Rightarrow> span list" where
  "peer_table_row th b64_dec sha256 a = (\<lambda>(i, p).
     [(peer_name p, name_style th (i = peers_selected a)),
      (short_fingerprint b64_dec sha256 (peer_key p), fg (th_muted th)),
      (if peer_links p = [] then ''(none)'' else join '', '' (peer_links p), fg (th_white th))])"

definition draw_peers :: "theme \<Rightarrow> b64_decoder \<Rightarrow> (bytes \<Rightarrow> bytes) \<Rightarrow> app \<Rightarrow> rect \<Rightarrow> drawing" where
  "draw_peers th b64_dec sha256 a area =
     (let block = titled (fg (th_line th)) (tab_title th ''peers'' a) in
      if cfg_role (app_config a) \<noteq> Server then
        [(area, Paragraph
           [[(''peers are a server-role feature'', fg (th_muted th))],
            [(''this config's role is client '' @ em_dash @
              '' it pins exactly one server via `peer_public_key`'', fg (th_muted th))]]
           (Some block))]
      else
        (area, Grid (header_cells th [''name'', ''fingerprint'', ''links''])
           (map (peer_table_row th b64_dec sha256 a) (List.enumerate 0 (app_peers a)))
           [Exactly 16, Exactly 26, At_Least 20] 2 (Some block)) #
        (if app_peers a = []
         then [empty_hint th (''no peers yet '' @ em_dash @ '' press 'a' to add one'') area]
         else []))"

subsection \<open>The service tab\<close>

fun action_label :: "service_action \<Rightarrow> string" where
  "action_label Start = ''Start''"
| "action_label Stop = ''Stop''"
| "action_label Restart = ''Restart''"
| "action_label Enable = ''Enable at boot''"
| "action_label Disable = ''Disable at boot''"
| "action_label Install_Unit = ''Install systemd unit''"
| "action_label View_Logs = ''View recent logs''"

definition service_action_color :: "theme \<Rightarrow> service_action \<Rightarrow> color" where
  "service_action_color th act =
     (case act of
        Start \<Rightarrow> th_acid_green th | Enable \<Rightarrow> th_acid_green th
      | Stop \<Rightarrow> th_red th | Disable \<Rightarrow> th_red th
      | Restart \<Rightarrow> th_orange th | Install_Unit \<Rightarrow> th_purple th | View_Logs \<Rightarrow> th_cyan th)"

definition service_header :: "theme \<Rightarrow> app \<Rightarrow> span list" where
  "service_header th a =
     [(''state '', fg (th_muted th)),
      (case service_state a of
         Some s \<Rightarrow> (s, fg_bold (if s = ''active'' then th_acid_green th else th_red th))
       | None \<Rightarrow> (''unknown'', fg (th_muted th))),
      raw ''   '', (''boot '', fg (th_muted th)),
      (case enabled_state a of
         Some s \<Rightarrow> (s, fg (if s = ''enabled'' then th_acid_green th else th_muted th))
       | None \<Rightarrow> (''unknown'', fg (th_muted th)))]"

definition service_prompt :: "theme \<Rightarrow> service_action \<Rightarrow> widget" where
  "service_prompt th act =
     Paragraph [[(action_label act @ ''? this needs sudo '' @ em_dash @ '' y/n'', fg_bold (th_orange th))]] None"

definition service_choice :: "theme \<Rightarrow> app \<Rightarrow> widget" where
  "service_choice th a =
     Choice (map (\<lambda>act. [(action_label act, fg (service_action_color th act))]) service_menu) None
       \<lparr>fg_color = None, bg_color = Some (th_line th), bold_face = True\<rparr> ''> '' (service_menu_selected a)"

definition draw_service :: "screen_lib \<Rightarrow> theme \<Rightarrow> app \<Rightarrow> rect \<Rightarrow> drawing option" where
  "draw_service lib th a area =
     (let block = titled (fg (th_line th)) ('' ghostport.service '', fg_bold (th_purple th));
          inner = split_rows lib [Exactly 2, At_Least 0] (block_inner lib block area)
      in case (nth_opt inner 0, nth_opt inner 1) of
           (Some head_area, Some menu_area) \<Rightarrow> Some
             [(area, Block_Only block),
              (head_area, Paragraph [service_header th a] None),
              (menu_area,
               case (mode_of a, pending_service_action a) of
                 (Confirm_Service_Action, Some act) \<Rightarrow> service_prompt th act
               | _ \<Rightarrow> service_choice th a)]
         | _ \<Rightarrow> None)"

subsection \<open>The footer\<close>

text \<open>The (key, label) pairs, two blanks between them.\<close>

fun key_hints :: "theme \<Rightarrow> (string \<times> string) list \<Rightarrow> span list" where
  "key_hints th [] = []"
| "key_hints th ((k, label) # pairs) =
     [(k, fg_bold (th_acid_green th)), raw '' '', (label, fg (th_muted th))] @
     (if pairs = [] then [] else raw ''  '' # key_hints th pairs)"

definition tab_hints :: "tab \<Rightarrow> (string \<times> string) list" where
  "tab_hints t =
     (let editing = (\<lambda>add. [(''j/k'', ''move''), (''a'', add), (''e'', ''edit''), (''d'', ''delete''),
                            (''s'', ''save'')])
      in (case t of
            Tab_Status \<Rightarrow> [(''r'', ''refresh'')]
          | Tab_Links \<Rightarrow> editing ''add port''
          | Tab_Service \<Rightarrow> [(''j/k'', ''move''), (''enter'', ''select'')]
          | Tab_Peers \<Rightarrow> editing ''add peer'') @
         [(''tab/1-4'', ''switch''), (''q'', ''quit'')])"

definition footer_line :: "theme \<Rightarrow> app \<Rightarrow> span list" where
  "footer_line th a =
     (case message a of
        Some msg \<Rightarrow> [(msg, fg (th_acid_green th))]
      | None \<Rightarrow>
         (let typing = key_hints th [(''enter'', ''confirm''), (''esc'', ''cancel'')] in
          case mode_of a of
            Choose_Template \<Rightarrow>
              key_hints th [(''j/k'', ''move''), (''enter'', ''select''), (''esc'', ''cancel'')]
          | Add_Link_Id \<Rightarrow> typing
          | Add_Link_Address \<Rightarrow> typing
          | Add_Link_Direction \<Rightarrow>
              key_hints th [(''f'', ''forward''), (''r'', ''reverse''), (''esc'', ''cancel'')]
          | Confirm_Remove_Link \<Rightarrow> [(''remove this port? y/n'', fg_bold (th_red th))]
          | Confirm_Service_Action \<Rightarrow> [(''confirm? y/n'', fg_bold (th_orange th))]
          | Add_Peer_Name \<Rightarrow> typing
          | Add_Peer_Public_Key \<Rightarrow> typing
          | Add_Peer_Links \<Rightarrow>
              key_hints th [(''j/k'', ''move''), (''space'', ''toggle''), (''enter'', ''confirm''),
                (''esc'', ''cancel'')]
          | Confirm_Remove_Peer \<Rightarrow> [(''remove this peer? y/n'', fg_bold (th_red th))]
          | Normal \<Rightarrow> key_hints th (tab_hints (tab_of a))))"

definition draw_footer :: "theme \<Rightarrow> app \<Rightarrow> rect \<Rightarrow> drawing" where
  "draw_footer th a area = [(area, Paragraph [footer_line th a] None)]"

subsection \<open>The screen\<close>

definition input_height :: "app \<Rightarrow> u16" where
  "input_height a =
     (case mode_of a of
        Choose_Template \<Rightarrow> of_nat menu_len + 2
      | Add_Link_Direction \<Rightarrow> 6
      | Add_Link_Id \<Rightarrow> 3 | Add_Link_Address \<Rightarrow> 3 | Add_Peer_Name \<Rightarrow> 3 | Add_Peer_Public_Key \<Rightarrow> 3
      | Add_Peer_Links \<Rightarrow> of_nat (max (length (app_links a)) 1) + 2
      | _ \<Rightarrow> 0)"

definition draw_tab ::
  "screen_lib \<Rightarrow> theme \<Rightarrow> b64_decoder \<Rightarrow> (bytes \<Rightarrow> bytes) \<Rightarrow> app \<Rightarrow> rect \<Rightarrow> drawing option" where
  "draw_tab lib th b64_dec sha256 a area =
     (case tab_of a of
        Tab_Status \<Rightarrow> draw_status lib th a area
      | Tab_Links \<Rightarrow> Some (draw_links th a area)
      | Tab_Service \<Rightarrow> draw_service lib th a area
      | Tab_Peers \<Rightarrow> Some (draw_peers th b64_dec sha256 a area))"

definition draw ::
  "screen_lib \<Rightarrow> hex_palette \<Rightarrow> b64_decoder \<Rightarrow> (bytes \<Rightarrow> bytes) \<Rightarrow> app \<Rightarrow> rect \<Rightarrow> drawing option" where
  "draw lib pal b64_dec sha256 a frame_area =
     (let th = load_theme pal;
          chunks = split_rows lib [Exactly 3, Exactly (input_height a), At_Least 0, Exactly 1] frame_area
      in case (nth_opt chunks 0, nth_opt chunks 1, nth_opt chunks 2, nth_opt chunks 3) of
           (Some tabs, Some input, Some body, Some footer) \<Rightarrow>
             map_option (\<lambda>drawn.
                 draw_tabs th a tabs @
                 (if 0 < input_height a then draw_input_line th b64_dec a input else []) @
                 drawn @ draw_footer th a footer)
               (draw_tab lib th b64_dec sha256 a body)
         | _ \<Rightarrow> None)"

end
