(* ===== verification/Tui_Screens.thy ===== *)
theory Tui_Screens
  imports Tui_View
begin

section \<open>What is on the screen when a key arrives\<close>

text \<open>
  Facts that join drawing and event handling: drawing never panics between events, a list is never
  drawn with a selection outside it, a prompt on the screen names what \<open>y\<close> will do, and the
  highlighted row is the one that is removed.
\<close>

subsection \<open>Reading a drawing\<close>

fun widget_texts :: "widget \<Rightarrow> string list" where
  "widget_texts (Block_Only b) = []"
| "widget_texts (Paragraph ls b) = map fst (concat ls)"
| "widget_texts (Choice items b st mark sel) = map fst (concat items)"
| "widget_texts (Grid h rows w sp b) = map fst (h @ concat rows)"

definition screen_texts :: "drawing \<Rightarrow> string list" where
  "screen_texts d = concat (map (widget_texts \<circ> snd) d)"

text \<open>The first cells of the table rows drawn in bold.\<close>

fun bold_rows :: "widget \<Rightarrow> string list" where
  "bold_rows (Grid h rows w sp b) =
     map (\<lambda>r. fst (hd r)) (filter (\<lambda>r. r \<noteq> [] \<and> bold_face (snd (hd r))) rows)"
| "bold_rows _ = []"

definition highlighted :: "drawing \<Rightarrow> string list" where
  "highlighted d = concat (map (bold_rows \<circ> snd) d)"

fun choice_ok :: "widget \<Rightarrow> bool" where
  "choice_ok (Choice items b st mark sel) \<longleftrightarrow> sel < length items"
| "choice_ok _ \<longleftrightarrow> True"

lemma screen_texts_append [simp]: "screen_texts (d @ e) = screen_texts d @ screen_texts e"
  by (simp add: screen_texts_def)

lemma highlighted_append [simp]: "highlighted (d @ e) = highlighted d @ highlighted e"
  by (simp add: highlighted_def)

lemma bold_faces [simp]: "\<not> bold_face (fg c)" "bold_face (fg_bold c)" "\<not> bold_face raw_style"
  by (simp_all add: fg_def fg_bold_def raw_style_def)

text \<open>What the library does: one area for every size asked for.\<close>

definition one_area_each :: "screen_lib \<Rightarrow> bool" where
  "one_area_each lib \<longleftrightarrow> (\<forall>sizes area. length (split_rows lib sizes area) = length sizes)"

lemma split_nth:
  assumes "one_area_each lib" and "k < length sizes"
  shows "\<exists>area. nth_opt (split_rows lib sizes whole) k = Some area"
  using assms by (simp add: one_area_each_def nth_opt_def)

subsection \<open>Drawing succeeds\<close>

lemma draw_tab_total: "one_area_each lib \<Longrightarrow> \<exists>d. draw_tab lib th b64_dec sha256 a area = Some d"
  using split_nth [of lib 0 "[Exactly 3, At_Least 0]"] split_nth [of lib 1 "[Exactly 3, At_Least 0]"]
    split_nth [of lib 0 "[Exactly 2, At_Least 0]"] split_nth [of lib 1 "[Exactly 2, At_Least 0]"]
  by (auto simp: draw_tab_def draw_status_def draw_service_def Let_def split: tab.split option.split)
    (metis option.distinct(1) One_nat_def)+

lemma draw_total:
  assumes "one_area_each lib"
  shows "\<exists>d. draw lib pal b64_dec sha256 a area = Some d"
proof -
  let ?sizes = "[Exactly 3, Exactly (input_height a), At_Least 0, Exactly 1]"
  have nth: "\<exists>r. nth_opt (split_rows lib ?sizes area) k = Some r" if "k < 4" for k
    using split_nth [OF assms, of k ?sizes] that by simp
  then obtain r where r: "\<forall>k < 4. nth_opt (split_rows lib ?sizes area) k = Some (r k)" by metis
  then have "nth_opt (split_rows lib ?sizes area) 0 = Some (r 0)"
    "nth_opt (split_rows lib ?sizes area) 1 = Some (r 1)"
    "nth_opt (split_rows lib ?sizes area) 2 = Some (r 2)"
    "nth_opt (split_rows lib ?sizes area) 3 = Some (r 3)" by simp_all
  moreover obtain d where "draw_tab lib (load_theme pal) b64_dec sha256 a (r 2) = Some d"
    using draw_tab_total [OF assms] by blast
  ultimately show ?thesis by (simp add: draw_def Let_def)
qed

text \<open>The four parts of a screen.\<close>

lemma draw_parts:
  assumes "draw lib pal b64_dec sha256 a area = Some d"
  obtains tabs input body footer drawn where
    "draw_tab lib (load_theme pal) b64_dec sha256 a body = Some drawn"
    "d = draw_tabs (load_theme pal) a tabs @
       (if 0 < input_height a then draw_input_line (load_theme pal) b64_dec a input else []) @
       drawn @ draw_footer (load_theme pal) a footer"
  using assms by (auto simp: draw_def Let_def split: option.splits)

subsection \<open>Selections are inside their lists\<close>

lemma status_choices: "draw_status lib th a area = Some d \<Longrightarrow> \<forall>(r, w) \<in> set d. choice_ok w"
  by (auto simp: draw_status_def Let_def split: option.splits)

lemma service_choices:
  assumes "ui_ok a" and "draw_service lib th a area = Some d"
  shows "\<forall>(r, w) \<in> set d. choice_ok w"
proof -
  have "choice_ok (service_choice th a)"
    using assms(1) by (simp add: service_choice_def ui_ok_defs)
  then show ?thesis using assms(2)
    by (auto simp: draw_service_def Let_def service_prompt_def split: option.splits ui_mode.splits)
qed

lemma tab_choices:
  assumes "ui_ok a" and "draw_tab lib th b64_dec sha256 a area = Some d"
  shows "\<forall>(r, w) \<in> set d. choice_ok w"
proof (cases "tab_of a")
  case Tab_Status
  then show ?thesis using assms(2) status_choices by (simp add: draw_tab_def)
next
  case Tab_Service
  then show ?thesis using assms service_choices by (simp add: draw_tab_def)
qed (use assms(2) in \<open>auto simp: draw_tab_def draw_links_def draw_peers_def empty_hint_def Let_def
  split: if_splits\<close>)

lemma input_choices: "ui_ok a \<Longrightarrow> \<forall>(r, w) \<in> set (draw_input_line th b64_dec a area). choice_ok w"
  by (cases "mode_of a")
    (auto simp: draw_input_line_def draw_text_step_def draw_mode_step_def draw_template_menu_def
      draw_peer_links_checklist_def Let_def ui_ok_defs menu_len_def split: if_splits)

lemma draw_choices:
  assumes "ui_ok a" and "draw lib pal b64_dec sha256 a area = Some d" and "(r, w) \<in> set d"
  shows "choice_ok w"
proof -
  obtain tabs input body footer drawn where
    "draw_tab lib (load_theme pal) b64_dec sha256 a body = Some drawn"
    and d: "d = draw_tabs (load_theme pal) a tabs @
       (if 0 < input_height a then draw_input_line (load_theme pal) b64_dec a input else []) @
       drawn @ draw_footer (load_theme pal) a footer"
    using draw_parts [OF assms(2)] .
  with tab_choices [OF assms(1)] have "\<forall>(r, w) \<in> set drawn. choice_ok w" by blast
  then show ?thesis
    using input_choices [OF assms(1), of "load_theme pal" b64_dec input] assms(3) d
    by (auto simp: draw_tabs_def draw_footer_def Let_def split: if_splits)
qed

subsection \<open>A prompt is alone on its tab, with no old message over it\<close>

definition prompts_ok :: "app \<Rightarrow> bool" where
  "prompts_ok a \<longleftrightarrow>
     (mode_of a = Confirm_Service_Action \<longrightarrow> tab_of a = Tab_Service \<and> message a = None) \<and>
     (mode_of a = Confirm_Remove_Link \<longrightarrow> tab_of a = Tab_Links \<and> message a = None) \<and>
     (mode_of a = Confirm_Remove_Peer \<longrightarrow> tab_of a = Tab_Peers \<and> message a = None)"

definition prompting :: "app \<Rightarrow> bool" where
  "prompting a \<longleftrightarrow> mode_of a \<in> {Confirm_Service_Action, Confirm_Remove_Link, Confirm_Remove_Peer}"

lemma not_prompting_ok: "\<not> prompting a \<Longrightarrow> prompts_ok a"
  by (simp add: prompting_def prompts_ok_def)

text \<open>Operations that leave the mode, and operations that never lead to a prompt.\<close>

lemma same_mode [simp]:
  "mode_of (move_link_selection d a) = mode_of a" "mode_of (move_peer_selection d a) = mode_of a"
  "mode_of (move_service_selection d a) = mode_of a" "mode_of (move_template_selection d a) = mode_of a"
  "mode_of (move_peer_links_cursor d a) = mode_of a" "mode_of (toggle_peer_link a) = mode_of a"
  "mode_of (edit_buffer k a) = mode_of a" "mode_of (next_tab a) = mode_of a"
  "mode_of (apply_status now r a) = mode_of a" "mode_of (refresh_service_info env a) = mode_of a"
  by (simp_all add: move_link_selection_def move_peer_selection_def move_service_selection_def
      move_template_selection_def move_peer_links_cursor_def toggle_peer_link_def next_tab_def
      apply_status_def refresh_service_info_def split: option.split sum.split)
    (cases k; simp)

lemma calm_modes [simp]:
  "mode_of (cancel_link_wizard a) = Normal" "mode_of (cancel_peer_wizard a) = Normal"
  "mode_of (cancel_service_action a) = Normal" "mode_of (begin_add_link a) = Choose_Template"
  "mode_of (confirm_template_choice a) = Add_Link_Id" "mode_of (choose_link_mode m a) = Add_Link_Address"
  "mode_of (remove_selected_link a) = Normal" "mode_of (remove_selected_peer a) = Normal"
  "mode_of (confirm_peer_links a) = Normal"
  by (simp_all add: cancel_link_wizard_def cancel_peer_wizard_def cancel_service_action_def
      begin_add_link_def confirm_template_choice_def choose_link_mode_def remove_selected_link_def
      remove_selected_peer_def confirm_peer_links_def Let_def split: option.split)

lemma calm_steps:
  "\<not> prompting (confirm_link_id a)" "\<not> prompting a \<Longrightarrow> \<not> prompting (confirm_link_address a)"
  "\<not> prompting (confirm_peer_name a)" "\<not> prompting a \<Longrightarrow> \<not> prompting (confirm_peer_public_key b64_dec a)"
  "\<not> prompting a \<Longrightarrow> \<not> prompting (begin_edit_link a)" "\<not> prompting a \<Longrightarrow> \<not> prompting (begin_add_peer a)"
  "\<not> prompting a \<Longrightarrow> \<not> prompting (begin_edit_peer a)"
  by (simp_all add: prompting_def confirm_link_id_def confirm_link_address_def confirm_peer_name_def
      confirm_peer_public_key_def begin_edit_link_def begin_add_peer_def begin_edit_peer_def Let_def
      split: option.split)

lemma wizard_steps_do_not_prompt:
  assumes "\<not> prompting a"
  shows "\<not> prompting (handle_choose_template k a)" "\<not> prompting (handle_link_text_input k a)"
    "\<not> prompting (handle_link_mode_choice k a)" "\<not> prompting (handle_peer_text_input b64_dec k a)"
    "\<not> prompting (handle_peer_links_checklist k a)"
  using assms calm_steps [of a]
  by (simp_all add: prompting_def handle_choose_template_def handle_link_text_input_def
      handle_link_mode_choice_def handle_peer_text_input_def handle_peer_links_checklist_def
      split: ui_mode.split)

lemma removals_do_not_prompt:
  "\<not> prompting (handle_confirm_remove_link k a)" "\<not> prompting (handle_confirm_remove_peer k a)"
  by (simp_all add: prompting_def handle_confirm_remove_link_def handle_confirm_remove_peer_def)

lemma run_pending_mode [simp]: "mode_of (ui (run_pending_service_action env t)) = mode_of (ui t)"
  by (simp add: run_pending_service_action_def split: option.split)

lemma save_key_mode [simp]: "mode_of (ui (save_key env t)) = mode_of (ui t)"
  by (simp add: save_key_ui save_config_fields)

text \<open>Outside every dialog, \<open>d\<close> and Enter lead to a prompt, on the tab where they are pressed.\<close>

lemma normal_prompts_ok:
  assumes "mode_of (ui t) = Normal" and "message (ui t) = None"
  shows "prompts_ok (ui (handle_normal env k t))"
proof -
  have calm: "\<not> prompting (ui t)" using assms(1) by (simp add: prompting_def)
  have "prompts_ok (ui (links_key env k t))" if "tab_of (ui t) = Tab_Links"
    using assms that calm calm_steps [of "ui t"]
    by (auto simp: links_key_def prompts_ok_def prompting_def)
  moreover have "prompts_ok (ui (peers_key env k t))" if "tab_of (ui t) = Tab_Peers"
    using assms that calm calm_steps [of "ui t"]
    by (auto simp: peers_key_def prompts_ok_def prompting_def)
  moreover have "prompts_ok (ui (service_key env k t))" if "tab_of (ui t) = Tab_Service"
    using assms that
    by (auto simp: service_key_def prompts_ok_def activate_selected_service_action_def Let_def)
  ultimately show ?thesis using assms
    by (auto simp: handle_normal_def prompts_ok_def split: tab.split)
qed

lemma handle_key_prompts:
  assumes "message (ui t) = None"
  shows "prompts_ok (ui (handle_key env k t))"
proof (cases "prompting (ui t)")
  case True
  then show ?thesis
    using not_prompting_ok [OF removals_do_not_prompt(1)] not_prompting_ok [OF removals_do_not_prompt(2)]
    by (auto simp: prompting_def handle_key_def handle_confirm_service_action_def prompts_ok_def)
next
  case False
  show ?thesis
  proof (cases "mode_of (ui t) = Normal")
    case True
    then show ?thesis using normal_prompts_ok assms by (simp add: handle_key_def)
  next
    case no: False
    show ?thesis
      by (rule not_prompting_ok)
        (use no False wizard_steps_do_not_prompt [OF False] in
          \<open>simp add: handle_key_def prompting_def split: ui_mode.split\<close>)
  qed
qed

lemma tui_step_prompts: "prompts_ok (ui t) \<Longrightarrow> prompts_ok (ui (tui_step e t))"
proof (cases e)
  case (Pair env ev)
  assume "prompts_ok (ui t)"
  moreover have "prompts_ok (idle_tick env (ui t)) = prompts_ok (ui t)"
    by (simp add: idle_tick_def prompts_ok_def apply_status_def refresh_service_info_def
        split: tab.split sum.split)
  ultimately show ?thesis using Pair handle_key_prompts [of "on_ui (message_update (\<lambda>_. None)) t" env]
    by (cases ev) simp_all
qed

lemma run_prompts: "prompts_ok (ui t) \<Longrightarrow> prompts_ok (ui (run_event_loop evs t))"
  by (induction evs arbitrary: t) (simp_all add: run_event_loop_def tui_step_prompts del: tui_step.simps)

lemma start_prompts: "start_tui toml_from env path s c = Inr t \<Longrightarrow> prompts_ok (ui t)"
  by (auto simp: start_tui_def new_app_def prompts_ok_def split: sum.splits)

subsection \<open>The prompt names the action\<close>

definition asks :: "drawing \<Rightarrow> service_action \<Rightarrow> bool" where
  "asks d act \<longleftrightarrow> (\<exists>r st.
     (r, Paragraph [[(action_label act @ ''? this needs sudo '' @ em_dash @ '' y/n'', st)]] None) \<in> set d)"

lemma action_label_inject: "action_label a = action_label b \<longleftrightarrow> a = b"
  by (cases a; cases b) simp_all

lemma not_confirm: "action_label act @ ''? this needs sudo '' @ s \<noteq> ''confirm? y/n''"
  by (cases act) simp_all

text \<open>In the dialog, the screen asks for the pending action and for no other.\<close>

lemma dialog_asks:
  assumes "ui_ok a" and "prompts_ok a" and "mode_of a = Confirm_Service_Action"
    and "draw lib pal b64_dec sha256 a area = Some d" and "pending_service_action a = Some act"
  shows "asks d act' \<longleftrightarrow> act' = act"
proof -
  have at: "tab_of a = Tab_Service" "message a = None" using assms(2,3) by (simp_all add: prompts_ok_def)
  obtain tabs input body footer drawn where
    s: "draw_tab lib (load_theme pal) b64_dec sha256 a body = Some drawn"
    and d: "d = draw_tabs (load_theme pal) a tabs @
       (if 0 < input_height a then draw_input_line (load_theme pal) b64_dec a input else []) @
       drawn @ draw_footer (load_theme pal) a footer"
    using draw_parts [OF assms(4)] .
  have "input_height a = 0" using assms(3) by (simp add: input_height_def)
  moreover obtain h m where "drawn =
      [(body, Block_Only (titled (fg (th_line (load_theme pal)))
          ('' ghostport.service '', fg_bold (th_purple (load_theme pal))))),
       (h, Paragraph [service_header (load_theme pal) a] None), (m, service_prompt (load_theme pal) act)]"
    using s at assms(3,5) by (auto simp: draw_tab_def draw_service_def Let_def split: option.splits)
  ultimately show ?thesis
    using d at assms(3) not_confirm [of act']
    by (auto simp: asks_def draw_tabs_def draw_footer_def footer_line_def service_prompt_def
        service_header_def action_label_inject Let_def)
qed

subsection \<open>The highlighted row is the selected one\<close>

lemma filter_enumerate:
  "n \<le> i \<Longrightarrow> i < n + length xs \<Longrightarrow>
     filter (\<lambda>p. fst p = i) (List.enumerate n xs) = [(i, xs ! (i - n))]"
proof (induction xs arbitrary: n)
  case (Cons x xs)
  show ?case
  proof (cases "n = i")
    case True
    then have "filter (\<lambda>p. fst p = i) (List.enumerate (Suc n) xs) = []"
      by (auto simp: filter_empty_conv in_set_enumerate_eq)
    then show ?thesis using True by simp
  next
    case False
    then have "(x # xs) ! (i - n) = xs ! (i - Suc n)" using Cons.prems by (simp add: nth_Cons')
    then show ?thesis using False Cons by simp
  qed
qed simp

lemma removed_split:
  "i < length xs \<Longrightarrow> \<exists>before after. xs = before @ xs ! i # after \<and> remove_at i xs = before @ after"
  using id_take_nth_drop by (fastforce simp: remove_at_def)

lemma link_row_bold:
  "link_table_row th a p \<noteq> []" "fst (hd (link_table_row th a p)) = link_id (snd p)"
  "bold_face (snd (hd (link_table_row th a p))) \<longleftrightarrow> fst p = links_selected a"
  by (simp_all add: link_table_row_def name_style_def Let_def split: prod.split)

lemma peer_row_bold:
  "peer_table_row th b64_dec sha256 a p \<noteq> []"
  "fst (hd (peer_table_row th b64_dec sha256 a p)) = peer_name (snd p)"
  "bold_face (snd (hd (peer_table_row th b64_dec sha256 a p))) \<longleftrightarrow> fst p = peers_selected a"
  by (simp_all add: peer_table_row_def name_style_def split: prod.split)

lemma draw_links_highlighted:
  assumes "links_selected a < length (app_links a)"
  shows "highlighted (draw_links th a area) = [link_id (app_links a ! links_selected a)]"
  using assms filter_enumerate [of 0 "links_selected a" "app_links a"]
  by (auto simp: highlighted_def draw_links_def filter_map o_def link_row_bold)

lemma draw_peers_highlighted:
  assumes "peers_selected a < length (app_peers a)" and "cfg_role (app_config a) = Server"
  shows "highlighted (draw_peers th b64_dec sha256 a area) = [peer_name (app_peers a ! peers_selected a)]"
  using assms filter_enumerate [of 0 "peers_selected a" "app_peers a"]
  by (auto simp: highlighted_def draw_peers_def filter_map o_def peer_row_bold Let_def)

lemma nothing_highlighted [simp]:
  "highlighted (draw_tabs th a area) = []" "highlighted (draw_footer th a area) = []"
  by (simp_all add: highlighted_def draw_tabs_def draw_footer_def Let_def)

lemma removal_screen:
  assumes "draw lib pal b64_dec sha256 a area = Some d" and "prompts_ok a" and "removal_ok a"
  shows "mode_of a = Confirm_Remove_Link \<Longrightarrow>
      highlighted d = [link_id (app_links a ! links_selected a)] \<and>
      ''remove this port? y/n'' \<in> set (screen_texts d)"
    and "mode_of a = Confirm_Remove_Peer \<Longrightarrow> cfg_role (app_config a) = Server \<Longrightarrow>
      highlighted d = [peer_name (app_peers a ! peers_selected a)] \<and>
      ''remove this peer? y/n'' \<in> set (screen_texts d)"
proof -
  obtain tabs input body footer drawn where
    s: "draw_tab lib (load_theme pal) b64_dec sha256 a body = Some drawn"
    and d: "d = draw_tabs (load_theme pal) a tabs @
       (if 0 < input_height a then draw_input_line (load_theme pal) b64_dec a input else []) @
       drawn @ draw_footer (load_theme pal) a footer"
    using draw_parts [OF assms(1)] .
  have hl: "highlighted d = highlighted drawn" if "input_height a = 0" using d that by simp
  have ft: "set (screen_texts d) \<supseteq> set (map fst (footer_line (load_theme pal) a))"
    using d by (auto simp: screen_texts_def draw_footer_def)
  {
    assume m: "mode_of a = Confirm_Remove_Link"
    moreover have "drawn = draw_links (load_theme pal) a body" "message a = None"
      using m assms(2) s by (simp_all add: prompts_ok_def draw_tab_def)
    ultimately show "highlighted d = [link_id (app_links a ! links_selected a)] \<and>
        ''remove this port? y/n'' \<in> set (screen_texts d)"
      using assms(3) hl ft draw_links_highlighted
      by (simp add: removal_ok_def input_height_def footer_line_def)
  next
    assume m: "mode_of a = Confirm_Remove_Peer" and srv: "cfg_role (app_config a) = Server"
    moreover have "drawn = draw_peers (load_theme pal) b64_dec sha256 a body" "message a = None"
      using m assms(2) s by (simp_all add: prompts_ok_def draw_tab_def)
    ultimately show "highlighted d = [peer_name (app_peers a ! peers_selected a)] \<and>
        ''remove this peer? y/n'' \<in> set (screen_texts d)"
      using assms(3) hl ft draw_peers_highlighted
      by (simp add: removal_ok_def input_height_def footer_line_def)
  }
qed

subsection \<open>The status table\<close>

text \<open>The rows of the tables on a screen.\<close>

fun table_rows :: "widget \<Rightarrow> span list list" where
  "table_rows (Grid h rows w sp b) = rows"
| "table_rows _ = []"

definition shown_rows :: "drawing \<Rightarrow> span list list" where
  "shown_rows d = concat (map (table_rows \<circ> snd) d)"

lemma shown_rows_append [simp]: "shown_rows (d @ e) = shown_rows d @ shown_rows e"
  by (simp add: shown_rows_def)

lemma no_rows [simp]:
  "shown_rows [] = []" "shown_rows (draw_tabs th a area) = []" "shown_rows (draw_footer th a area) = []"
  "shown_rows (draw_input_line th b64_dec a area) = []"
  by (simp_all add: shown_rows_def draw_tabs_def draw_footer_def draw_input_line_def
      draw_text_step_def draw_mode_step_def draw_template_menu_def draw_peer_links_checklist_def
      Let_def split: ui_mode.split)

lemma status_screen:
  assumes "draw lib pal b64_dec sha256 a area = Some d" and "tab_of a = Tab_Status"
    and "status_snap a = Some snap"
  shows "shown_rows d = map (status_row (load_theme pal) a) (snap_links snap) @
    (if snap_links snap = [] then [] else [total_row (load_theme pal) (snap_links snap)])"
proof -
  obtain tabs input body footer drawn where
    s: "draw_tab lib (load_theme pal) b64_dec sha256 a body = Some drawn"
    and d: "d = draw_tabs (load_theme pal) a tabs @
       (if 0 < input_height a then draw_input_line (load_theme pal) b64_dec a input else []) @
       drawn @ draw_footer (load_theme pal) a footer"
    using draw_parts [OF assms(1)] .
  have "shown_rows drawn = map (status_row (load_theme pal) a) (snap_links snap) @
    (if snap_links snap = [] then [] else [total_row (load_theme pal) (snap_links snap)])"
    using s assms(2,3)
    by (auto simp: draw_tab_def draw_status_def shown_rows_def Let_def split: option.splits)
  then show ?thesis using d by simp
qed

lemma idle_status:
  assumes "tab_of (ui t) = Tab_Status" and "\<not> should_quit (ui t)" and "env_query env = Inr snap"
  shows "status_snap (ui (tui_step (env, Idle) t)) = Some snap \<and>
    tab_of (ui (tui_step (env, Idle) t)) = Tab_Status"
  using assms by (simp add: idle_tick_def apply_status_def)

end
