(* ===== verification/Server_Runs.thy ===== *)
theory Server_Runs
  imports Server_Role
begin

section \<open>Runs of a server\<close>

text \<open>
  The state of one server over time: its reverse listeners, timers and control session step as in
  \<open>Reverse_Streams\<close>, and connections of the two channels come in between. Here a whole
  connection is one step; \<open>Server_Tasks\<close> lets the connections interleave, and shows that these runs
  are among its own.
\<close>

record 'hs deps =
  dep_palette :: palette
  dep_snow :: "'hs snow"
  dep_finish :: "'hs finisher"
  dep_io_text :: "io_error \<Rightarrow> string"
  dep_hello :: "stream_hello reader"

definition accept_data ::
  "'hs deps \<Rightarrow> server_ctx \<Rightarrow> instant \<Rightarrow> instant \<Rightarrow> socket_addr \<Rightarrow> 'c conn_env \<Rightarrow> 'c server
     \<Rightarrow> 'c outcome option \<times> string list \<times> 'c server" where
  "accept_data d ctx =
     data_accept (dep_palette d) (dep_snow d) (dep_finish d) (dep_io_text d) (dep_hello d) ctx"

definition accept_control ::
  "'hs deps \<Rightarrow> server_ctx \<Rightarrow> instant \<Rightarrow> instant \<Rightarrow> socket_addr \<Rightarrow> 'c conn_env \<Rightarrow> 'c server
     \<Rightarrow> (socket_addr \<times> string) option \<times> string list \<times> 'c server" where
  "accept_control d ctx =
     control_accept (dep_palette d) (dep_snow d) (dep_finish d) (dep_io_text d) ctx"

definition start_server :: "server_ctx \<Rightarrow> instant \<Rightarrow> u64 \<Rightarrow> 'c server" where
  "start_server ctx now now_unix =
     \<lparr>srv_limiter = new_limiter, srv_streams = start_streams now,
      srv_state = new_state now_unix (sctx_config ctx)\<rparr>"

inductive server_step :: "'hs deps \<Rightarrow> server_ctx \<Rightarrow> 'c server \<Rightarrow> 'c server \<Rightarrow> bool"
  for d :: "'hs deps" and ctx :: server_ctx where
  Streams: "streams_step (srv_streams srv) sts \<Longrightarrow> server_step d ctx srv (srv\<lparr>srv_streams := sts\<rparr>)"
| Data: "server_step d ctx srv (snd (snd (accept_data d ctx t1 t2 addr env srv)))"
| Control: "server_step d ctx srv (snd (snd (accept_control d ctx t1 t2 addr env srv)))"

inductive_cases server_stepE: "server_step d ctx srv srv'"

inductive server_reaches :: "'hs deps \<Rightarrow> server_ctx \<Rightarrow> 'c server \<Rightarrow> bool"
  for d :: "'hs deps" and ctx :: server_ctx where
  Begin: "server_reaches d ctx (start_server ctx now now_unix)"
| Next: "server_reaches d ctx srv \<Longrightarrow> server_step d ctx srv srv' \<Longrightarrow> server_reaches d ctx srv'"

subsection \<open>What a connection does to the streams and the counters\<close>

lemma claim_reachable: "reachable sts \<Longrightarrow> reachable (snd (claim_stream n sts))"
  by (rule Step) (auto intro: streams_step.intros)

lemma handle_hello_streams:
  "srv_streams (snd (handle_hello cfg peer hello env srv)) = srv_streams srv \<or>
     (\<exists>n. srv_streams (snd (handle_hello cfg peer hello env srv)) =
            snd (claim_stream n (srv_streams srv)))"
proof -
  have "srv_streams (snd (serve_reverse link n env srv)) = srv_streams srv \<or>
      srv_streams (snd (serve_reverse link n env srv)) = snd (claim_stream n (srv_streams srv))" for link n
    by (auto simp: serve_reverse_def count_relay_def split: prod.split option.split)
  moreover have "srv_streams (snd (serve_forward link env srv)) = srv_streams srv" for link
    by (simp add: serve_forward_def count_relay_def split: option.split sum.split)
  ultimately show ?thesis
    unfolding handle_hello_def
    by (simp split: option.split link_mode.split) blast
qed

lemma handle_hello_links:
  assumes "has_links cfg (srv_state srv)"
  shows "has_links cfg (srv_state (snd (handle_hello cfg' peer hello env srv)))"
proof -
  have "has_links cfg (srv_state (snd (serve_reverse link n env srv)))" for link n
    using assms by (auto simp: serve_reverse_def count_relay_def has_links_relay_on
        split: prod.split option.split)
  moreover have "has_links cfg (srv_state (snd (serve_forward link env srv)))" for link
    using assms by (simp add: serve_forward_def count_relay_def has_links_relay_on
        split: option.split sum.split)
  ultimately show ?thesis using assms
    unfolding handle_hello_def by (simp split: option.split link_mode.split)
qed

lemma connection_streams:
  assumes "reachable (srv_streams srv)"
  shows "reachable (srv_streams (snd (handle_data_connection sn finish io_text hello_reader ctx env srv)))"
proof -
  have "reachable (srv_streams (snd (handle_hello cfg peer hello env (drop_permit srv))))"
    for cfg peer hello
    using handle_hello_streams [of cfg peer hello env "drop_permit srv"] assms claim_reachable
    by (auto simp: drop_permit_streams)
  then show ?thesis
    using assms by (auto simp: handle_data_connection_def Let_def drop_permit_streams split: sum.split)
qed

lemma connection_links:
  assumes "has_links cfg (srv_state srv)"
  shows "has_links cfg (srv_state (snd (handle_data_connection sn finish io_text hello_reader ctx env srv)))"
proof -
  have d: "has_links cfg (srv_state (drop_permit srv))" using assms by (simp add: drop_permit_def)
  show ?thesis
    using handle_hello_links [OF d] d
    by (auto simp: handle_data_connection_def Let_def split: sum.split)
qed

subsection \<open>The invariant of a server\<close>

definition server_ok :: "server_ctx \<Rightarrow> 'c server \<Rightarrow> bool" where
  "server_ok ctx srv \<longleftrightarrow>
     permits (srv_limiter srv) = max_concurrent_handshakes \<and> reachable (srv_streams srv) \<and>
     has_links (sctx_config ctx) (srv_state srv)"

lemma accept_data_ok:
  assumes "server_ok ctx srv"
  shows "server_ok ctx (snd (snd (accept_data d ctx t1 t2 addr env srv)))"
proof -
  let ?out = "accept_data d ctx t1 t2 addr env srv"
  obtain g lim where a: "try_acquire t1 t2 (ip_of addr) (srv_limiter srv) = (g, lim)"
    by (cases "try_acquire t1 t2 (ip_of addr) (srv_limiter srv)")
  let ?srv = "srv\<lparr>srv_limiter := lim\<rparr>"
  have r: "reachable (srv_streams ?srv)" "has_links (sctx_config ctx) (srv_state ?srv)"
    using assms by (simp_all add: server_ok_def)
  have "snd (snd ?out) = (if g then snd (handle_data_connection (dep_snow d) (dep_finish d)
      (dep_io_text d) (dep_hello d) ctx env ?srv) else ?srv)"
    by (simp add: accept_data_def data_accept_def a Let_def split: prod.split)
  then have "reachable (srv_streams (snd (snd ?out)))"
    "has_links (sctx_config ctx) (srv_state (snd (snd ?out)))"
    using r connection_streams [OF r(1)] connection_links [OF r(2)]
    by (simp_all only: split: if_split) blast+
  moreover have "permits (srv_limiter (snd (snd ?out))) = permits (srv_limiter srv)"
    unfolding accept_data_def by (rule permits_balanced)
  ultimately show ?thesis using assms by (simp add: server_ok_def)
qed

lemma accept_control_ok:
  assumes "server_ok ctx srv"
  shows "server_ok ctx (snd (snd (accept_control d ctx t1 t2 addr env srv)))"
proof -
  let ?out = "accept_control d ctx t1 t2 addr env srv"
  have "srv_streams (snd (snd ?out)) = srv_streams srv" "srv_state (snd (snd ?out)) = srv_state srv"
    by (simp_all add: accept_control_def control_accept_def Let_def drop_permit_def
        split: prod.split sum.split)
  moreover have "permits (srv_limiter (snd (snd ?out))) = permits (srv_limiter srv)"
    unfolding accept_control_def by (rule control_permits_balanced)
  ultimately show ?thesis using assms by (simp add: server_ok_def)
qed

lemma server_step_ok: "server_step d ctx srv srv' \<Longrightarrow> server_ok ctx srv \<Longrightarrow> server_ok ctx srv'"
proof (erule server_stepE)
  fix sts
  assume "streams_step (srv_streams srv) sts" "srv' = srv\<lparr>srv_streams := sts\<rparr>" "server_ok ctx srv"
  then show "server_ok ctx srv'" by (auto simp: server_ok_def intro: Step)
qed (simp_all add: accept_data_ok accept_control_ok)

lemma server_reaches_ok: "server_reaches d ctx srv \<Longrightarrow> server_ok ctx srv"
proof (induction rule: server_reaches.induct)
  case (Begin now now_unix)
  show ?case
    by (simp add: server_ok_def start_server_def new_limiter_def has_links_new reachable.Start)
next
  case (Next srv srv')
  then show ?case using server_step_ok by blast
qed

end
