(* ===== verification/Relay_Counters.thy ===== *)
theory Relay_Counters
  imports Stats
begin

section \<open>Books of relays\<close>

text \<open>
  Both roles run one task per relayed connection, and every task updates the counters of its link
  one atomic operation at a time. This theory holds the abstract machine behind both: a list of
  parts, each with the result its copy loop will have and, once it relays, its link and the
  updates it still has to make, beside the counters of the links. A system refines it when each of
  its steps is a number of steps of the machine; for such a system the counters are, at any
  moment, those of its tasks. The server and the client are interpretations of \<open>relay_system\<close>.
\<close>

subsection \<open>The machine\<close>

record relay_part =
  r_result :: "string + u64 \<times> u64"
  r_progress :: "(string \<times> counter_op list) option"

record relay_book =
  parts :: "relay_part list"
  book :: "string \<Rightarrow> link_stats option"

definition set_progress :: "nat \<Rightarrow> string \<Rightarrow> counter_op list \<Rightarrow> relay_book \<Rightarrow> relay_book" where
  "set_progress k i ops b = b\<lparr>parts := (parts b)[k := (parts b ! k)\<lparr>r_progress := Some (i, ops)\<rparr>]\<rparr>"

inductive book_step :: "relay_book \<Rightarrow> relay_book \<Rightarrow> bool" where
  Spawned: "r_progress p = None \<Longrightarrow> book_step b (b\<lparr>parts := parts b @ [p]\<rparr>)"
| Started: "k < length (parts b) \<Longrightarrow> r_progress (parts b ! k) = None \<Longrightarrow>
    book_step b (set_progress k i (relay_ops (r_result (parts b ! k))) b)"
| Counted: "k < length (parts b) \<Longrightarrow> r_progress (parts b ! k) = Some (i, op # ops) \<Longrightarrow>
    book_step b ((set_progress k i ops b)\<lparr>book := (book b)(i := map_option (apply_op op) (book b i))\<rparr>)"

inductive_cases book_stepE: "book_step b b'"

text \<open>One part goes on, or nothing happens to it: the form in which a system shows its steps.\<close>

definition progress_step ::
  "string + u64 \<times> u64 \<Rightarrow> (string \<times> counter_op list) option \<Rightarrow> (string \<Rightarrow> link_stats option) \<Rightarrow>
     (string \<times> counter_op list) option \<Rightarrow> (string \<Rightarrow> link_stats option) \<Rightarrow> bool" where
  "progress_step r pr l pr' l' \<longleftrightarrow>
     pr' = pr \<and> l' = l \<or>
     pr = None \<and> (\<exists>i. pr' = Some (i, relay_ops r)) \<and> l' = l \<or>
     (\<exists>i op ops. pr = Some (i, op # ops) \<and> pr' = Some (i, ops) \<and> l' = l(i := map_option (apply_op op) (l i)))"

lemma book_progress:
  assumes "k < length (parts b)" and "parts b ! k = \<lparr>r_result = r, r_progress = pr\<rparr>"
    and "progress_step r pr (book b) pr' l'"
  shows "\<lparr>parts = (parts b)[k := \<lparr>r_result = r, r_progress = pr'\<rparr>], book = l'\<rparr> = b \<or>
    book_step b \<lparr>parts = (parts b)[k := \<lparr>r_result = r, r_progress = pr'\<rparr>], book = l'\<rparr>"
proof -
  consider "pr' = pr" "l' = book b" | i where "pr = None" "pr' = Some (i, relay_ops r)" "l' = book b"
    | i op ops where "pr = Some (i, op # ops)" "pr' = Some (i, ops)"
      "l' = (book b)(i := map_option (apply_op op) (book b i))"
    using assms(3) unfolding progress_step_def by blast
  then show ?thesis
  proof cases
    case 1
    then show ?thesis using assms(2) by (metis list_update_id relay_book.surjective unit.exhaust)
  next
    case (2 i)
    have "\<lparr>parts = (parts b)[k := \<lparr>r_result = r, r_progress = pr'\<rparr>], book = l'\<rparr> =
        set_progress k i (relay_ops r) b"
      using 2 assms(2) by (simp add: set_progress_def)
    then show ?thesis using Started [OF assms(1), of i] assms(2) 2(1) by simp
  next
    case (3 i op ops)
    have "\<lparr>parts = (parts b)[k := \<lparr>r_result = r, r_progress = pr'\<rparr>], book = l'\<rparr> =
        (set_progress k i ops b)\<lparr>book := (book b)(i := map_option (apply_op op) (book b i))\<rparr>"
      using 3 assms(2) by (simp add: set_progress_def)
    then show ?thesis using Counted [OF assms(1), of i op ops] assms(2) 3(1) by simp
  qed
qed

lemma spawn_many:
  "\<forall>p \<in> set ps. r_progress p = None \<Longrightarrow> book_step\<^sup>*\<^sup>* b (b\<lparr>parts := parts b @ ps\<rparr>)"
proof (induction ps arbitrary: b)
  case (Cons p ps)
  have "book_step b (b\<lparr>parts := parts b @ [p]\<rparr>)" using Cons.prems by (intro Spawned) simp
  then show ?case using Cons.IH [of "b\<lparr>parts := parts b @ [p]\<rparr>"] Cons.prems
    by (simp add: converse_rtranclp_into_rtranclp)
qed simp

text \<open>The counter updates a part has made on link \<open>i\<close>, and the books that agree with them.\<close>

definition counted_on :: "string \<Rightarrow> relay_part \<Rightarrow> counter_op list" where
  "counted_on i p = (case r_progress p of
     Some (j, left) \<Rightarrow>
       if j = i then take (length (relay_ops (r_result p)) - length left) (relay_ops (r_result p)) else []
   | None \<Rightarrow> [])"

definition in_order :: "relay_part \<Rightarrow> bool" where
  "in_order p \<longleftrightarrow> (\<forall>i left. r_progress p = Some (i, left) \<longrightarrow>
     (\<exists>n \<le> length (relay_ops (r_result p)). left = drop n (relay_ops (r_result p))))"

definition balanced :: "relay_book \<Rightarrow> bool" where
  "balanced b \<longleftrightarrow> (\<forall>p \<in> set (parts b). in_order p) \<and>
     (\<forall>i st. book b i = Some st \<longrightarrow> st = fold apply_op (concat (map (counted_on i) (parts b))) zero_stats)"

lemma concat_update:
  assumes "k < length xs" and "f y = f (xs ! k) @ extra"
  shows "mset (concat (map f (xs[k := y]))) = mset (extra @ concat (map f xs))"
  using assms
proof (induction xs arbitrary: k)
  case (Cons x xs)
  then show ?case by (cases k) auto
qed simp

lemma map_update_same: "k < length xs \<Longrightarrow> f q = f (xs ! k) \<Longrightarrow> map f (xs[k := q]) = map f xs"
  by (simp add: map_update list_update_same_conv)

lemma in_order_update:
  "\<forall>p \<in> set ps. in_order p \<Longrightarrow> in_order q \<Longrightarrow> \<forall>p \<in> set (ps[k := q]). in_order p"
  by (auto dest: set_update_subset_insert [THEN subsetD])

lemma counted_step:
  assumes "in_order p" and "r_progress p = Some (i, op # ops)"
  shows "in_order (p\<lparr>r_progress := Some (i, ops)\<rparr>)"
    and "counted_on j (p\<lparr>r_progress := Some (i, ops)\<rparr>) = counted_on j p @ (if j = i then [op] else [])"
proof -
  let ?all = "relay_ops (r_result p)"
  obtain n where n: "n \<le> length ?all" "op # ops = drop n ?all"
    using assms by (auto simp: in_order_def)
  then have lt: "n < length ?all" by (metis drop_eq_Nil linorder_not_less list.distinct(1))
  then have ops: "op = ?all ! n" "ops = drop (Suc n) ?all"
    using n(2) by (simp_all flip: Cons_nth_drop_Suc)
  show "in_order (p\<lparr>r_progress := Some (i, ops)\<rparr>)"
    using lt ops(2) by (auto simp: in_order_def intro!: exI [of _ "Suc n"])
  have "length ops = length ?all - Suc n" using ops(2) by simp
  then have "length ?all - length ops = Suc n" "length ?all - length (op # ops) = n" using lt by simp_all
  moreover have "take (Suc n) ?all = take n ?all @ [op]" using lt ops(1) by (simp add: take_Suc_conv_app_nth)
  ultimately show "counted_on j (p\<lparr>r_progress := Some (i, ops)\<rparr>) = counted_on j p @ (if j = i then [op] else [])"
    using assms(2) by (simp add: counted_on_def)
qed

lemma balanced_step:
  assumes "book_step b b'" and "balanced b"
  shows "balanced b'"
  using assms(1)
proof (cases rule: book_step.cases)
  case (Spawned p)
  then show ?thesis using assms(2) by (auto simp: balanced_def in_order_def counted_on_def)
next
  case (Started k i)
  let ?p = "parts b ! k"
  let ?q = "?p\<lparr>r_progress := Some (i, relay_ops (r_result ?p))\<rparr>"
  have "in_order ?q" by (auto simp: in_order_def intro!: exI [of _ 0])
  moreover have "map (counted_on j) ((parts b)[k := ?q]) = map (counted_on j) (parts b)" for j
    using Started by (intro map_update_same) (simp_all add: counted_on_def)
  ultimately show ?thesis
    using assms(2) in_order_update [of "parts b" ?q k] by (simp add: balanced_def set_progress_def Started(1))
next
  case (Counted k i op ops)
  let ?p = "parts b ! k"
  let ?q = "?p\<lparr>r_progress := Some (i, ops)\<rparr>"
  have "in_order ?p" using assms(2) Counted(2) by (simp add: balanced_def)
  note q = counted_step [OF this Counted(3)]
  have "st = fold apply_op (concat (map (counted_on j) ((parts b)[k := ?q]))) zero_stats"
    if st: "((book b)(i := map_option (apply_op op) (book b i))) j = Some st" for j st
  proof -
    obtain st0 where st0: "book b j = Some st0" "st = fold apply_op (if j = i then [op] else []) st0"
      using st by (auto split: if_splits)
    then have "st = fold apply_op (concat (map (counted_on j) (parts b)) @ (if j = i then [op] else [])) zero_stats"
      using assms(2) by (simp add: balanced_def)
    moreover have "mset (concat (map (counted_on j) ((parts b)[k := ?q]))) =
        mset (concat (map (counted_on j) (parts b)) @ (if j = i then [op] else []))"
      using concat_update [OF Counted(2) q(2) [of j]] by simp
    ultimately show ?thesis using interleaving_irrelevant by metis
  qed
  moreover have "\<forall>p \<in> set ((parts b)[k := ?q]). in_order p"
    using assms(2) in_order_update [of "parts b" ?q k] q(1) unfolding balanced_def by blast
  ultimately show ?thesis by (simp add: balanced_def set_progress_def Counted(1))
qed

lemma balanced_steps: "book_step\<^sup>*\<^sup>* b b' \<Longrightarrow> balanced b \<Longrightarrow> balanced b'"
  by (induction rule: rtranclp_induct) (auto intro: balanced_step)

subsection \<open>Active counts and totals\<close>

definition active_on :: "string \<Rightarrow> relay_part \<Rightarrow> bool" where
  "active_on i p \<longleftrightarrow>
     (\<exists>left. r_progress p = Some (i, left) \<and> Active_Add \<notin> set left \<and> Active_Sub \<in> set left)"

definition ended_on :: "string \<Rightarrow> relay_part \<Rightarrow> bool" where
  "ended_on i p \<longleftrightarrow> r_progress p = Some (i, [])"

lemma active_diff:
  assumes "in_order p"
  shows "int (count_list (counted_on i p) Active_Add) - int (count_list (counted_on i p) Active_Sub) =
     (if active_on i p then 1 else 0)"
proof (cases "\<exists>left. r_progress p = Some (i, left)")
  case True
  then obtain left where r: "r_progress p = Some (i, left)" by blast
  then obtain n where n: "n \<le> length (relay_ops (r_result p))" "left = drop n (relay_ops (r_result p))"
    using assms by (auto simp: in_order_def)
  then have "counted_on i p = take n (relay_ops (r_result p))" using r by (simp add: counted_on_def)
  moreover have "n = 0 \<or> n = 1 \<or> n = 2 \<or> n = 3 \<or> n = 4 \<or> n = 5"
    using n(1) by (auto simp: relay_ops_def split: sum.splits)
  ultimately show ?thesis using r n
    by (auto simp: active_on_def relay_ops_def numeral_eq_Suc split: sum.splits)
next
  case False
  then show ?thesis by (auto simp: active_on_def counted_on_def split: option.split)
qed

lemma active_sum:
  assumes "\<forall>p \<in> set ps. in_order p"
  shows "int (count_list (concat (map (counted_on i) ps)) Active_Add) -
    int (count_list (concat (map (counted_on i) ps)) Active_Sub) = int (length (filter (active_on i) ps))"
  using assms
proof (induction ps)
  case (Cons p ps)
  then show ?case using active_diff [of p i] by auto
qed simp

lemma balanced_active:
  assumes "balanced b" and "book b i = Some st"
  shows "active_streams st = of_nat (length (filter (active_on i) (parts b)))"
proof -
  let ?ops = "concat (map (counted_on i) (parts b))"
  have "st = fold apply_op ?ops zero_stats" using assms by (simp add: balanced_def)
  then have "active_streams st = of_nat (count_list ?ops Active_Add) - of_nat (count_list ?ops Active_Sub)"
    by (simp add: active_count zero_stats_def)
  also have "\<dots> = of_int (int (count_list ?ops Active_Add) - int (count_list ?ops Active_Sub))" by simp
  also have "\<dots> = of_nat (length (filter (active_on i) (parts b)))"
    using active_sum [of "parts b" i] assms(1) by (simp add: balanced_def)
  finally show ?thesis .
qed

lemma balanced_settled:
  assumes "balanced b" and "book b i = Some st"
    and "\<forall>p \<in> set (parts b). \<forall>left. r_progress p = Some (i, left) \<longrightarrow> left = []"
  shows "st = account (map r_result (filter (ended_on i) (parts b))) zero_stats"
proof -
  have "concat (map (counted_on i) ps) = concat (map relay_ops (map r_result (filter (ended_on i) ps)))"
    if "\<forall>p \<in> set ps. \<forall>left. r_progress p = Some (i, left) \<longrightarrow> left = []" for ps
    using that
  proof (induction ps)
    case (Cons p ps)
    then show ?case by (auto simp: counted_on_def ended_on_def split: option.split)
  qed simp
  note flat = this [OF assms(3)]
  have "st = fold apply_op (concat (map (counted_on i) (parts b))) zero_stats"
    using assms(1,2) by (simp add: balanced_def)
  then show ?thesis unfolding flat relays_sequential .
qed

subsection \<open>Systems that keep the books\<close>

locale relay_system =
  fixes book_of :: "'s \<Rightarrow> relay_book" and start :: "'s \<Rightarrow> bool" and step :: "'s \<Rightarrow> 's \<Rightarrow> bool"
  assumes start_empty: "start s \<Longrightarrow> parts (book_of s) = []"
    and start_zero: "start s \<Longrightarrow> book (book_of s) i = Some st \<Longrightarrow> st = zero_stats"
    and step_refines: "step s s' \<Longrightarrow> book_step\<^sup>*\<^sup>* (book_of s) (book_of s')"
begin

lemma runs_balanced:
  assumes "start s" and "step\<^sup>*\<^sup>* s s'"
  shows "balanced (book_of s')"
  using assms(2)
proof (induction rule: rtranclp_induct)
  case base
  show ?case using start_empty [OF assms(1)] start_zero [OF assms(1)] by (simp add: balanced_def)
next
  case (step s1 s2)
  then show ?case using step_refines balanced_steps by blast
qed

lemmas active_now = balanced_active [OF runs_balanced]
lemmas settled_now = balanced_settled [OF runs_balanced]

end

end
