(* ===== verification/Server_Tasks.thy ===== *)
theory Server_Tasks
  imports Server_Runs Relay_Counters
begin

section \<open>The server as interleaved tasks\<close>

text \<open>
  The server spawns one task per connection. Here the tasks of all connections, of both channels,
  the reverse listeners, the timers and the control session interleave freely: a step is one access
  to the shared state. A data connection holds its permit until the handshake is over, then reads
  the hello, claims or dials, and updates the counters of its link one atomic operation at a time.
  \<open>Server_Role\<close> describes the same connection as one function; the last section relates the two.
\<close>

subsection \<open>Tasks\<close>

datatype 'c phase =
    Handshake
  | Control_Handshake
  | Hello nat string \<comment> \<open>the peer's index and the plaintext of the tunnel\<close>
  | Relay string 'c "counter_op list" \<comment> \<open>the link, the other end, the counter updates to come\<close>
  | Finished "'c outcome"
  | Control_Finished "string option" \<comment> \<open>the name of the peer, queued for a session\<close>

record 'c task =
  task_addr :: socket_addr
  task_env :: "'c conn_env"
  task_phase :: "'c phase"

record 'c system =
  sys_server :: "'c server"
  sys_tasks :: "'c task list"

text \<open>One \<open>fetch_add\<close> or \<open>fetch_sub\<close> of \<open>relay\<close>.\<close>

definition on_stats :: "string \<Rightarrow> (link_stats \<Rightarrow> link_stats) \<Rightarrow> 'c server \<Rightarrow> 'c server" where
  "on_stats i f srv = srv\<lparr>srv_state := (srv_state srv)\<lparr>st_links :=
     (st_links (srv_state srv))(i := map_option f (st_links (srv_state srv) i))\<rparr>\<rparr>"

definition count_op :: "string \<Rightarrow> counter_op \<Rightarrow> 'c server \<Rightarrow> 'c server" where
  "count_op i op srv = on_stats i (apply_op op) srv"

text \<open>
  After the hello the outcome is decided and a waiting stream is taken as in \<open>handle_hello\<close>; the
  counters are left to the steps of the relay.
\<close>

definition phase_of :: "'c conn_env \<Rightarrow> 'c outcome \<Rightarrow> 'c phase" where
  "phase_of env out =
     (case out of Relayed i c \<Rightarrow> Relay i c (relay_ops (env_copied env)) | _ \<Rightarrow> Finished out)"

definition start_relay ::
  "config \<Rightarrow> resolved_peer \<Rightarrow> stream_hello \<Rightarrow> 'c conn_env \<Rightarrow> 'c server \<Rightarrow> 'c phase \<times> 'c server" where
  "start_relay cfg peer hello env srv =
     (let (out, srv') = handle_hello cfg peer hello env srv
      in (phase_of env out, srv\<lparr>srv_streams := srv_streams srv'\<rparr>))"

definition control_result :: "'hs deps \<Rightarrow> server_ctx \<Rightarrow> 'c conn_env \<Rightarrow> string option" where
  "control_result d ctx env =
     (if \<not> handshake_in_time env then None
      else case server_handshake (dep_snow d) (dep_finish d) (dep_io_text d) ctx (env_bytes env) of
        Inl e \<Rightarrow> None | Inr (peer_index, plain) \<Rightarrow> Some (rp_name (sctx_peers ctx ! peer_index)))"

fun advance ::
  "'hs deps \<Rightarrow> server_ctx \<Rightarrow> 'c conn_env \<Rightarrow> 'c phase \<Rightarrow> 'c server \<Rightarrow> 'c phase \<times> 'c server" where
  "advance d ctx env Handshake srv =
     (case data_handshake (dep_snow d) (dep_finish d) (dep_io_text d) ctx (handshake_in_time env)
             (env_bytes env) of
        Inl e \<Rightarrow> Finished (Failed e) | Inr (peer_index, plain) \<Rightarrow> Hello peer_index plain,
      drop_permit srv)"
| "advance d ctx env Control_Handshake srv = (Control_Finished (control_result d ctx env), drop_permit srv)"
| "advance d ctx env (Hello peer_index plain) srv =
     (if \<not> hello_in_time env
      then (Finished (Failed (Timed_Out ''peer completed the handshake but never sent a StreamHello'')), srv)
      else case recv_json (dep_hello d) plain of
        Inl e \<Rightarrow> (Finished (Failed e), srv)
      | Inr (hello, rest) \<Rightarrow>
          start_relay (sctx_config ctx) (sctx_peers ctx ! peer_index) hello env srv)"
| "advance d ctx env (Relay i c (op # ops)) srv = (Relay i c ops, count_op i op srv)"
| "advance d ctx env (Relay i c []) srv = (Finished (Relayed i c), srv)"
| "advance d ctx env (Finished out) srv = (Finished out, srv)"
| "advance d ctx env (Control_Finished r) srv = (Control_Finished r, srv)"

text \<open>An accept: the limiter is asked; without a permit no task is spawned.\<close>

definition arrive ::
  "'c phase \<Rightarrow> instant \<Rightarrow> instant \<Rightarrow> socket_addr \<Rightarrow> 'c conn_env \<Rightarrow> 'c system \<Rightarrow> 'c system" where
  "arrive ph t1 t2 addr env sys =
     (let (granted, lim) = try_acquire t1 t2 (ip_of addr) (srv_limiter (sys_server sys))
      in \<lparr>sys_server = (sys_server sys)\<lparr>srv_limiter := lim\<rparr>,
          sys_tasks = sys_tasks sys @
            (if granted then [\<lparr>task_addr = addr, task_env = env, task_phase = ph\<rparr>] else [])\<rparr>)"

definition turn :: "'hs deps \<Rightarrow> server_ctx \<Rightarrow> nat \<Rightarrow> 'c system \<Rightarrow> 'c system" where
  "turn d ctx k sys =
     (let t = sys_tasks sys ! k;
          (ph, srv) = advance d ctx (task_env t) (task_phase t) (sys_server sys)
      in \<lparr>sys_server = srv, sys_tasks = (sys_tasks sys)[k := t\<lparr>task_phase := ph\<rparr>]\<rparr>)"

text \<open>The session loop sets the status of the control connection.\<close>

definition set_control :: "control_status \<Rightarrow> 'c system \<Rightarrow> 'c system" where
  "set_control c sys = sys\<lparr>sys_server := (sys_server sys)\<lparr>srv_state :=
     (srv_state (sys_server sys))\<lparr>st_control := c\<rparr>\<rparr>\<rparr>"

inductive sys_step :: "'hs deps \<Rightarrow> server_ctx \<Rightarrow> 'c system \<Rightarrow> 'c system \<Rightarrow> bool"
  for d :: "'hs deps" and ctx :: server_ctx where
  Sys_Streams: "streams_step (srv_streams (sys_server sys)) sts \<Longrightarrow>
    sys_step d ctx sys (sys\<lparr>sys_server := (sys_server sys)\<lparr>srv_streams := sts\<rparr>\<rparr>)"
| Sys_Data: "sys_step d ctx sys (arrive Handshake t1 t2 addr env sys)"
| Sys_Control: "sys_step d ctx sys (arrive Control_Handshake t1 t2 addr env sys)"
| Sys_Turn: "k < length (sys_tasks sys) \<Longrightarrow> sys_step d ctx sys (turn d ctx k sys)"
| Sys_Session_Up: "t \<in> set (sys_tasks sys) \<Longrightarrow> task_phase t = Control_Finished (Some name) \<Longrightarrow>
    sys_step d ctx sys (set_control (set_connected now_unix (show_socket_addr (task_addr t)) (Some name)
      (st_control (srv_state (sys_server sys)))) sys)"
| Sys_Session_Down:
    "sys_step d ctx sys (set_control (set_disconnected (st_control (srv_state (sys_server sys)))) sys)"

inductive_cases sys_stepE: "sys_step d ctx sys sys'"

definition start_system :: "server_ctx \<Rightarrow> instant \<Rightarrow> u64 \<Rightarrow> 'c system" where
  "start_system ctx now now_unix = \<lparr>sys_server = start_server ctx now now_unix, sys_tasks = []\<rparr>"

inductive sys_reaches :: "'hs deps \<Rightarrow> server_ctx \<Rightarrow> 'c system \<Rightarrow> bool"
  for d :: "'hs deps" and ctx :: server_ctx where
  Sys_Begin: "sys_reaches d ctx (start_system ctx now now_unix)"
| Sys_Next: "sys_reaches d ctx sys \<Longrightarrow> sys_step d ctx sys sys' \<Longrightarrow> sys_reaches d ctx sys'"

subsection \<open>One task alone is the connection of \<open>Server_Role\<close>\<close>

fun settle :: "'hs deps \<Rightarrow> server_ctx \<Rightarrow> 'c conn_env \<Rightarrow> nat \<Rightarrow> 'c phase \<times> 'c server \<Rightarrow> 'c phase \<times> 'c server" where
  "settle d ctx env 0 r = r"
| "settle d ctx env (Suc n) (ph, srv) = settle d ctx env n (advance d ctx env ph srv)"

lemma on_stats_comp: "on_stats i g (on_stats i f srv) = on_stats i (g \<circ> f) srv"
  by (simp add: on_stats_def option.map_comp)

lemma on_stats_id: "on_stats i id srv = srv"
  by (simp add: on_stats_def option.map_id)

lemma count_ops: "fold (count_op i) ops srv = on_stats i (fold apply_op ops) srv"
  by (induction ops arbitrary: srv)
    (simp_all add: on_stats_id [unfolded id_def] id_def count_op_def on_stats_comp)

lemma count_relay_ops: "count_relay i env srv = fold (count_op i) (relay_ops (env_copied env)) srv"
  by (simp add: count_ops on_stats_def count_relay_def relay_on_def relay_def)

lemma settle_relay:
  "settle d ctx env (Suc (length ops)) (Relay i c ops, srv) = (Finished (Relayed i c), fold (count_op i) ops srv)"
  by (induction ops arbitrary: srv) simp_all

lemma settle_add: "settle d ctx env (m + n) x = settle d ctx env n (settle d ctx env m x)"
proof (induction m arbitrary: x)
  case (Suc m)
  then show ?case by (cases x) simp
qed simp

lemma settle_finished: "settle d ctx env n (Finished out, srv) = (Finished out, srv)"
  by (induction n) simp_all

lemma handle_hello_split:
  assumes "handle_hello cfg peer hello env srv = (out, srv')"
  shows "srv' = (case out of Relayed i c \<Rightarrow>
      count_relay i env (srv\<lparr>srv_streams := srv_streams srv'\<rparr>) | _ \<Rightarrow> srv\<lparr>srv_streams := srv_streams srv'\<rparr>)"
  using assms
  by (auto simp: handle_hello_def serve_forward_def serve_reverse_def count_relay_def
      split: if_splits option.splits link_mode.splits sum.splits prod.splits)

text \<open>Run to its end, a task gives the outcome and the state of \<open>handle_data_connection\<close>.\<close>

lemma settle_hello:
  assumes "handle_hello cfg peer hello env srv = (out, srv')"
  shows "settle d ctx env 6 (start_relay cfg peer hello env srv) = (Finished out, srv')"
proof (cases out)
  case (Relayed i c)
  have s: "srv' = fold (count_op i) (relay_ops (env_copied env)) (srv\<lparr>srv_streams := srv_streams srv'\<rparr>)"
    using handle_hello_split [OF assms] Relayed by (simp add: count_relay_ops)
  have "length (relay_ops (env_copied env)) \<le> 5" by (simp add: relay_ops_def split: sum.split)
  then obtain n where "6 = Suc (length (relay_ops (env_copied env))) + n"
    using le_Suc_ex [of "Suc (length (relay_ops (env_copied env)))" 6] by auto
  then have "settle d ctx env 6 (Relay i c (relay_ops (env_copied env)), srv\<lparr>srv_streams := srv_streams srv'\<rparr>) =
      (Finished (Relayed i c), srv')"
    using s by (simp only: settle_add settle_relay settle_finished)
  then show ?thesis using assms Relayed by (simp add: start_relay_def phase_of_def)
next
  case (Failed e)
  then show ?thesis using assms handle_hello_split [OF assms]
    by (simp add: start_relay_def phase_of_def settle_finished)
next
  case (Panicked msg)
  then show ?thesis using assms handle_hello_split [OF assms]
    by (simp add: start_relay_def phase_of_def settle_finished)
qed

lemma task_alone:
  "settle d ctx env 8 (Handshake, srv) =
     (let (out, srv') = handle_data_connection (dep_snow d) (dep_finish d) (dep_io_text d) (dep_hello d)
        ctx env srv in (Finished out, srv'))"
proof -
  have six: "settle d ctx env 8 (Handshake, srv) =
      settle d ctx env 7 (advance d ctx env Handshake srv)"
    by (simp add: numeral_eq_Suc)
  have seven: "settle d ctx env 7 (Hello j plain, srv') = settle d ctx env 6 (advance d ctx env (Hello j plain) srv')"
    for j plain srv' by (simp add: numeral_eq_Suc)
  show ?thesis
    unfolding six
    by (auto simp: handle_data_connection_def Let_def settle_finished seven settle_hello
        split: sum.split prod.split)
qed

subsection \<open>What a turn changes\<close>

abbreviation streams_of :: "'c system \<Rightarrow> 'c streams" where
  "streams_of sys \<equiv> srv_streams (sys_server sys)"

text \<open>Histories only grow.\<close>

definition grows :: "'c streams \<Rightarrow> 'c streams \<Rightarrow> bool" where
  "grows s s' \<longleftrightarrow> set (claimed s) \<subseteq> set (claimed s') \<and> set (accepted s) \<subseteq> set (accepted s') \<and>
     length (accepted s) \<le> length (accepted s')"

lemma grows_refl [simp]: "grows s s"
  by (simp add: grows_def)

lemma grows_trans: "grows s s' \<Longrightarrow> grows s' s'' \<Longrightarrow> grows s s''"
  by (auto simp: grows_def)

lemma claim_grows [simp]: "grows s (snd (claim_stream n s))"
  by (auto simp: grows_def claim_stream_def split: option.split)

lemma streams_step_grows: "streams_step s s' \<Longrightarrow> grows s s'"
  by (erule streams_stepE)
    (auto simp: grows_def streams_defs split: option.split prod.split send_result.split)

lemma advance_limiter:
  "srv_limiter (snd (advance d ctx env ph srv)) =
     (if ph = Handshake \<or> ph = Control_Handshake then release (srv_limiter srv) else srv_limiter srv)"
  by (cases "(d, ctx, env, ph, srv)" rule: advance.cases)
    (simp_all add: drop_permit_def start_relay_def count_op_def on_stats_def split: sum.split prod.split)

lemma start_relay_streams:
  "srv_streams (snd (start_relay cfg peer hello env srv)) = srv_streams (snd (handle_hello cfg peer hello env srv))"
  "srv_state (snd (start_relay cfg peer hello env srv)) = srv_state srv"
  by (simp_all add: start_relay_def split: prod.split)

lemma advance_streams:
  "srv_streams (snd (advance d ctx env ph srv)) = srv_streams srv \<or>
     (\<exists>n. srv_streams (snd (advance d ctx env ph srv)) = snd (claim_stream n (srv_streams srv)))"
proof (cases "(d, ctx, env, ph, srv)" rule: advance.cases)
  case (3 d' ctx' env' j plain srv')
  then show ?thesis
    using handle_hello_streams [of "sctx_config ctx" "sctx_peers ctx ! j"
        "fst (projr (recv_json (dep_hello d) plain))" env srv]
    by (cases "recv_json (dep_hello d) plain") (auto simp: start_relay_streams)
qed (simp_all add: drop_permit_def count_op_def on_stats_def)

lemma advance_reachable: "reachable (srv_streams srv) \<Longrightarrow> reachable (srv_streams (snd (advance d ctx env ph srv)))"
  using advance_streams [of d ctx env ph srv] claim_reachable by metis

lemma advance_grows: "grows (srv_streams srv) (srv_streams (snd (advance d ctx env ph srv)))"
  using advance_streams [of d ctx env ph srv] claim_grows grows_refl by metis

text \<open>The counters change at the steps of a relay only.\<close>

definition counts :: "string \<Rightarrow> 'c phase \<Rightarrow> counter_op list" where
  "counts i ph = (case ph of Relay j c (op # ops) \<Rightarrow> if j = i then [op] else [] | _ \<Rightarrow> [])"

lemma advance_counters:
  "st_links (srv_state (snd (advance d ctx env ph srv))) i =
     map_option (fold apply_op (counts i ph)) (st_links (srv_state srv) i)"
  by (cases "(d, ctx, env, ph, srv)" rule: advance.cases)
    (simp_all add: counts_def drop_permit_def start_relay_streams count_op_def on_stats_def
      option.map_id split: sum.split)

lemma advance_links: "has_links cfg (srv_state (snd (advance d ctx env ph srv))) = has_links cfg (srv_state srv)"
  by (simp add: has_links_def advance_counters)

subsection \<open>Permits\<close>

definition shaking :: "'c task \<Rightarrow> bool" where
  "shaking t \<longleftrightarrow> task_phase t = Handshake \<or> task_phase t = Control_Handshake"

definition permits_ok :: "'c system \<Rightarrow> bool" where
  "permits_ok sys \<longleftrightarrow> permits (srv_limiter (sys_server sys)) + length (filter shaking (sys_tasks sys)) =
     max_concurrent_handshakes"

lemma filter_update:
  assumes "k < length xs"
  shows "length (filter p (xs[k := y])) + (if p (xs ! k) then 1 else 0) =
    length (filter p xs) + (if p y then 1 else 0)"
  using assms
proof (induction xs arbitrary: k)
  case (Cons x xs)
  then show ?case by (cases k) auto
qed simp

lemma not_shaking_again:
  "ph' = fst (advance d ctx env ph srv) \<Longrightarrow> ph' \<noteq> Handshake \<and> ph' \<noteq> Control_Handshake"
  by (cases "(d, ctx, env, ph, srv)" rule: advance.cases)
    (auto simp: start_relay_def phase_of_def split: sum.split prod.split outcome.split)

lemma turn_permits:
  assumes "permits_ok sys" and "k < length (sys_tasks sys)"
  shows "permits_ok (turn d ctx k sys)"
proof -
  let ?t = "sys_tasks sys ! k"
  obtain ph srv where a: "advance d ctx (task_env ?t) (task_phase ?t) (sys_server sys) = (ph, srv)"
    by (cases "advance d ctx (task_env ?t) (task_phase ?t) (sys_server sys)")
  have "\<not> shaking (?t\<lparr>task_phase := ph\<rparr>)"
    using not_shaking_again [of ph d ctx "task_env ?t" "task_phase ?t" "sys_server sys"] a
    by (simp add: shaking_def)
  moreover have "permits (srv_limiter srv) = permits (srv_limiter (sys_server sys)) + (if shaking ?t then 1 else 0)"
    using advance_limiter [of d ctx "task_env ?t" "task_phase ?t" "sys_server sys"] a
    by (simp add: shaking_def release_def)
  ultimately show ?thesis
    using assms filter_update [OF assms(2), of shaking "?t\<lparr>task_phase := ph\<rparr>"]
    by (simp add: permits_ok_def turn_def a Let_def split: if_splits)
qed

lemma arrive_permits:
  assumes "permits_ok sys" and "ph = Handshake \<or> ph = Control_Handshake"
  shows "permits_ok (arrive ph t1 t2 addr env sys)"
proof -
  obtain g lim where a: "try_acquire t1 t2 (ip_of addr) (srv_limiter (sys_server sys)) = (g, lim)"
    by (cases "try_acquire t1 t2 (ip_of addr) (srv_limiter (sys_server sys))")
  show ?thesis using assms try_acquire_permits [OF a]
    by (auto simp: permits_ok_def arrive_def a shaking_def)
qed

lemma step_permits: "sys_step d ctx sys sys' \<Longrightarrow> permits_ok sys \<Longrightarrow> permits_ok sys'"
  by (erule sys_stepE) (auto simp: turn_permits arrive_permits, auto simp: permits_ok_def set_control_def)

lemma reaches_permits: "sys_reaches d ctx sys \<Longrightarrow> permits_ok sys"
proof (induction rule: sys_reaches.induct)
  case (Sys_Begin now now_unix)
  show ?case by (simp add: permits_ok_def start_system_def start_server_def new_limiter_def)
qed (rule step_permits)

subsection \<open>The counters are those of the tasks\<close>

text \<open>The server is a system of \<open>Relay_Counters\<close>: its book, and what each step does to it.\<close>

fun progress_of :: "'c phase \<Rightarrow> (string \<times> counter_op list) option" where
  "progress_of (Relay i c left) = Some (i, left)"
| "progress_of (Finished (Relayed i c)) = Some (i, [])"
| "progress_of _ = None"

definition part_of :: "'c task \<Rightarrow> relay_part" where
  "part_of t = \<lparr>r_result = env_copied (task_env t), r_progress = progress_of (task_phase t)\<rparr>"

definition server_book :: "'c system \<Rightarrow> relay_book" where
  "server_book sys = \<lparr>parts = map part_of (sys_tasks sys), book = st_links (srv_state (sys_server sys))\<rparr>"

definition starts_server :: "server_ctx \<Rightarrow> 'c system \<Rightarrow> bool" where
  "starts_server ctx sys \<longleftrightarrow> (\<exists>now now_unix. sys = start_system ctx now now_unix)"

lemma start_relay_phase:
  "fst (start_relay cfg peer hello env srv) = phase_of env (fst (handle_hello cfg peer hello env srv))"
  by (simp add: start_relay_def split: prod.split)

lemma phase_progress:
  "progress_of (phase_of env out) = None \<or> (\<exists>i. progress_of (phase_of env out) = Some (i, relay_ops (env_copied env)))"
  by (cases out) (simp_all add: phase_of_def)

lemma advance_progress:
  "progress_step (env_copied env) (progress_of ph) (st_links (srv_state srv))
     (progress_of (fst (advance d ctx env ph srv))) (st_links (srv_state (snd (advance d ctx env ph srv))))"
proof (cases "(d, ctx, env, ph, srv)" rule: advance.cases)
  case (3 d' ctx' env' j plain srv')
  then show ?thesis
    using phase_progress [of env "fst (handle_hello (sctx_config ctx) (sctx_peers ctx ! j)
        (fst (projr (recv_json (dep_hello d) plain))) env srv)"]
    by (cases "recv_json (dep_hello d) plain")
      (auto simp: progress_step_def start_relay_phase start_relay_streams)
qed (simp_all add: progress_step_def drop_permit_def count_op_def on_stats_def split: sum.split)

lemma turn_book:
  assumes "k < length (sys_tasks sys)"
  shows "server_book (turn d ctx k sys) = server_book sys \<or>
    book_step (server_book sys) (server_book (turn d ctx k sys))"
proof -
  let ?t = "sys_tasks sys ! k" and ?b = "server_book sys"
  let ?r = "advance d ctx (task_env ?t) (task_phase ?t) (sys_server sys)"
  have "server_book (turn d ctx k sys) = \<lparr>parts = (parts ?b)[k := \<lparr>r_result = env_copied (task_env ?t),
      r_progress = progress_of (fst ?r)\<rparr>], book = st_links (srv_state (snd ?r))\<rparr>"
    by (simp add: turn_def server_book_def map_update part_of_def split_beta Let_def)
  moreover have "k < length (parts ?b)" "parts ?b ! k = part_of ?t"
    "book ?b = st_links (srv_state (sys_server sys))"
    using assms by (simp_all add: server_book_def)
  ultimately show ?thesis
    using book_progress [of k ?b] advance_progress [of "task_env ?t" "task_phase ?t" "sys_server sys" d ctx]
    by (simp add: part_of_def)
qed

lemma arrive_book:
  assumes "ph = Handshake \<or> ph = Control_Handshake"
  shows "server_book (arrive ph t1 t2 addr env sys) = server_book sys \<or>
    book_step (server_book sys) (server_book (arrive ph t1 t2 addr env sys))"
proof -
  let ?p = "part_of \<lparr>task_addr = addr, task_env = env, task_phase = ph\<rparr>"
  have "r_progress ?p = None" using assms by (auto simp: part_of_def)
  then have "book_step (server_book sys) ((server_book sys)\<lparr>parts := parts (server_book sys) @ [?p]\<rparr>)"
    by (rule Spawned)
  then show ?thesis by (auto simp: arrive_def server_book_def split: prod.split)
qed

lemma step_book:
  assumes "sys_step d ctx sys sys'"
  shows "server_book sys' = server_book sys \<or> book_step (server_book sys) (server_book sys')"
  using assms
proof (cases rule: sys_step.cases)
  case (Sys_Data t1 t2 addr env)
  then show ?thesis using arrive_book by blast
next
  case (Sys_Control t1 t2 addr env)
  then show ?thesis using arrive_book by blast
next
  case (Sys_Turn k)
  then show ?thesis using turn_book by blast
qed (simp_all add: server_book_def set_control_def)

interpretation server_books: relay_system server_book "starts_server ctx" "sys_step d ctx"
  by unfold_locales
    (auto simp: starts_server_def start_system_def start_server_def server_book_def new_state_links
      dest!: step_book [unfolded server_book_def] split: if_splits)

lemma reaches_start:
  "sys_reaches d ctx sys \<Longrightarrow> \<exists>s. starts_server ctx s \<and> (sys_step d ctx)\<^sup>*\<^sup>* s sys"
proof (induction rule: sys_reaches.induct)
  case (Sys_Begin now now_unix)
  show ?case by (auto simp: starts_server_def)
qed (meson rtranclp.rtrancl_into_rtrancl)

text \<open>The active count of a link is the number of tasks that relay on it right now.\<close>

definition relaying_on :: "string \<Rightarrow> 'c task \<Rightarrow> bool" where
  "relaying_on i t \<longleftrightarrow> (\<exists>c left. task_phase t = Relay i c left \<and> Active_Add \<notin> set left \<and> Active_Sub \<in> set left)"

lemma active_is_relaying:
  assumes "sys_reaches d ctx sys" and "st_links (srv_state (sys_server sys)) i = Some st"
  shows "active_streams st = of_nat (length (filter (relaying_on i) (sys_tasks sys)))"
proof -
  obtain s where s: "starts_server ctx s" "(sys_step d ctx)\<^sup>*\<^sup>* s sys" using reaches_start [OF assms(1)] by blast
  have "active_on i (part_of t) = relaying_on i t" for t :: "'b task"
    by (cases "task_phase t" rule: progress_of.cases) (auto simp: active_on_def relaying_on_def part_of_def)
  then show ?thesis
    using server_books.active_now [OF s, of i st] assms(2) by (simp add: server_book_def filter_map comp_def)
qed

text \<open>When no relay is under way, the counters are the sums over the relays that ended.\<close>

definition relayed_on :: "string \<Rightarrow> 'c task \<Rightarrow> bool" where
  "relayed_on i t \<longleftrightarrow> (\<exists>c. task_phase t = Finished (Relayed i c))"

lemma settled_counters:
  assumes "sys_reaches d ctx sys" and "st_links (srv_state (sys_server sys)) i = Some st"
    and "\<forall>t \<in> set (sys_tasks sys). \<forall>c left. task_phase t \<noteq> Relay i c left"
  shows "st = account (map (\<lambda>t. env_copied (task_env t)) (filter (relayed_on i) (sys_tasks sys))) zero_stats"
proof -
  obtain s where s: "starts_server ctx s" "(sys_step d ctx)\<^sup>*\<^sup>* s sys" using reaches_start [OF assms(1)] by blast
  have part: "ended_on i (part_of t) = relayed_on i t \<and> (r_progress (part_of t) = Some (i, left) \<longrightarrow> left = [])"
    if "t \<in> set (sys_tasks sys)" for t left
    using assms(3) that
    by (cases "task_phase t" rule: progress_of.cases) (auto simp: ended_on_def relayed_on_def part_of_def)
  then have "st = account (map r_result (filter (ended_on i) (map part_of (sys_tasks sys)))) zero_stats"
    using server_books.settled_now [OF s, of i st] assms(2) by (auto simp: server_book_def)
  moreover have "filter (ended_on i \<circ> part_of) (sys_tasks sys) = filter (relayed_on i) (sys_tasks sys)"
    using part by (auto intro: filter_cong)
  ultimately show ?thesis by (simp add: filter_map comp_def part_of_def)
qed

subsection \<open>Where an outcome comes from\<close>

text \<open>
  The outcome of a task is the one \<open>handle_data_connection\<close> gives from some state the server went
  through: that of the moment the task took its stream.
\<close>

definition alone :: "'hs deps \<Rightarrow> server_ctx \<Rightarrow> 'c conn_env \<Rightarrow> 'c server \<Rightarrow> 'c outcome \<times> 'c server" where
  "alone d ctx env srv =
     handle_data_connection (dep_snow d) (dep_finish d) (dep_io_text d) (dep_hello d) ctx env srv"

definition decided :: "'hs deps \<Rightarrow> server_ctx \<Rightarrow> 'c streams \<Rightarrow> 'c conn_env \<Rightarrow> 'c outcome \<Rightarrow> bool" where
  "decided d ctx now env out \<longleftrightarrow> (\<exists>srv srv'. alone d ctx env srv = (out, srv') \<and>
     reachable (srv_streams srv) \<and> has_links (sctx_config ctx) (srv_state srv) \<and>
     grows (srv_streams srv) (srv_streams srv') \<and> grows (srv_streams srv') now)"

definition task_sound :: "'hs deps \<Rightarrow> server_ctx \<Rightarrow> 'c streams \<Rightarrow> 'c task \<Rightarrow> bool" where
  "task_sound d ctx now t \<longleftrightarrow> (case task_phase t of
     Hello j plain \<Rightarrow> data_handshake (dep_snow d) (dep_finish d) (dep_io_text d) ctx
       (handshake_in_time (task_env t)) (env_bytes (task_env t)) = Inr (j, plain)
   | Relay i c left \<Rightarrow> decided d ctx now (task_env t) (Relayed i c)
   | Finished out \<Rightarrow> decided d ctx now (task_env t) out
   | _ \<Rightarrow> True)"

definition sound :: "'hs deps \<Rightarrow> server_ctx \<Rightarrow> 'c system \<Rightarrow> bool" where
  "sound d ctx sys \<longleftrightarrow> reachable (streams_of sys) \<and>
     has_links (sctx_config ctx) (srv_state (sys_server sys)) \<and>
     (\<forall>t \<in> set (sys_tasks sys). task_sound d ctx (streams_of sys) t)"

lemma decided_grows: "decided d ctx now env out \<Longrightarrow> grows now now' \<Longrightarrow> decided d ctx now' env out"
  unfolding decided_def using grows_trans by blast

lemma sound_grows: "task_sound d ctx now t \<Longrightarrow> grows now now' \<Longrightarrow> task_sound d ctx now' t"
  using decided_grows by (fastforce simp: task_sound_def split: phase.splits)

lemma hello_ignores_limiter:
  assumes "srv_streams a = srv_streams b" and "srv_state a = srv_state b"
  shows "fst (handle_hello cfg peer hello env a) = fst (handle_hello cfg peer hello env b)"
    and "srv_streams (snd (handle_hello cfg peer hello env a)) = srv_streams (snd (handle_hello cfg peer hello env b))"
  using assms
  by (auto simp: handle_hello_def serve_forward_def serve_reverse_def count_relay_def
      split: option.split sum.split prod.split link_mode.split)

lemma hello_alone:
  assumes "data_handshake (dep_snow d) (dep_finish d) (dep_io_text d) ctx (handshake_in_time env)
      (env_bytes env) = Inr (j, plain)"
    and "alone d ctx env srv = (out, srv')"
  shows "fst (advance d ctx env (Hello j plain) srv) = phase_of env out"
    and "srv_streams (snd (advance d ctx env (Hello j plain) srv)) = srv_streams srv'"
proof -
  have same: "srv_streams (drop_permit srv) = srv_streams srv" "srv_state (drop_permit srv) = srv_state srv"
    by (simp_all add: drop_permit_def)
  note free = hello_ignores_limiter [OF same]
  have "fst (advance d ctx env (Hello j plain) srv) = phase_of env out \<and>
    srv_streams (snd (advance d ctx env (Hello j plain) srv)) = srv_streams srv'"
  proof (cases "hello_in_time env")
    case True
    show ?thesis
    proof (cases "recv_json (dep_hello d) plain")
      case (Inr p)
      obtain hello rest where p: "p = (hello, rest)" by (cases p)
      let ?run = "handle_hello (sctx_config ctx) (sctx_peers ctx ! j) hello env"
      have "?run (drop_permit srv) = (out, srv')"
        using assms True Inr p by (simp add: alone_def handle_data_connection_def Let_def)
      then have "out = fst (?run srv)" "srv_streams srv' = srv_streams (snd (?run srv))"
        using free by (metis fst_conv, metis snd_conv)
      then show ?thesis using True Inr p
        by (simp add: start_relay_phase start_relay_streams)
    qed (use assms True same in \<open>auto simp: alone_def handle_data_connection_def Let_def phase_of_def\<close>)
  qed (use assms same in \<open>auto simp: alone_def handle_data_connection_def Let_def phase_of_def\<close>)
  then show "fst (advance d ctx env (Hello j plain) srv) = phase_of env out"
    and "srv_streams (snd (advance d ctx env (Hello j plain) srv)) = srv_streams srv'" by simp_all
qed

lemma advance_sound:
  assumes "task_sound d ctx (srv_streams srv) t" and "reachable (srv_streams srv)"
    and "has_links (sctx_config ctx) (srv_state srv)"
    and "advance d ctx (task_env t) (task_phase t) srv = (ph, srv')"
  shows "task_sound d ctx (srv_streams srv') (t\<lparr>task_phase := ph\<rparr>)"
proof (cases "task_phase t")
  case Handshake
  have "decided d ctx (srv_streams srv') (task_env t) (Failed e)"
    if "data_handshake (dep_snow d) (dep_finish d) (dep_io_text d) ctx (handshake_in_time (task_env t))
      (env_bytes (task_env t)) = Inl e" for e
    unfolding decided_def
    using that assms(2-4) Handshake
    by (rule_tac exI [of _ srv], rule_tac exI [of _ "drop_permit srv"])
      (auto simp: alone_def handle_data_connection_def drop_permit_streams)
  then show ?thesis using assms(4) Handshake by (auto simp: task_sound_def split: sum.splits)
next
  case (Hello j plain)
  obtain out srv0 where a: "alone d ctx (task_env t) srv = (out, srv0)"
    by (cases "alone d ctx (task_env t) srv")
  have h: "data_handshake (dep_snow d) (dep_finish d) (dep_io_text d) ctx (handshake_in_time (task_env t))
      (env_bytes (task_env t)) = Inr (j, plain)"
    using assms(1) Hello by (simp add: task_sound_def)
  note r = hello_alone [OF h a]
  have st: "srv_streams srv' = srv_streams srv0" "ph = phase_of (task_env t) out"
    using r assms(4) Hello by simp_all
  have "grows (srv_streams srv) (srv_streams srv0)"
    using advance_grows [of srv d ctx "task_env t" "Hello j plain"] assms(4) Hello st(1) by simp
  then have "decided d ctx (srv_streams srv') (task_env t) out"
    unfolding decided_def using a assms(2,3) st(1) grows_refl by metis
  then show ?thesis by (cases out) (simp_all add: task_sound_def st(2) phase_of_def)
next
  case (Relay i c left)
  then show ?thesis using assms(1,4)
    by (cases left) (auto simp: task_sound_def count_op_def on_stats_def)
next
  case (Finished out)
  then have "ph = Finished out" "srv' = srv" using assms(4) by simp_all
  then show ?thesis using assms(1) Finished by (simp add: task_sound_def)
next
  case (Control_Finished r)
  then have "ph = Control_Finished r" using assms(4) by simp
  then show ?thesis by (simp add: task_sound_def)
qed (use assms(4) in \<open>auto simp: task_sound_def\<close>)

lemma turn_sound:
  assumes "sound d ctx sys" and k: "k < length (sys_tasks sys)"
  shows "sound d ctx (turn d ctx k sys)"
proof -
  define t where "t = sys_tasks sys ! k"
  obtain ph srv where a: "advance d ctx (task_env t) (task_phase t) (sys_server sys) = (ph, srv)"
    by (cases "advance d ctx (task_env t) (task_phase t) (sys_server sys)")
  have turn: "turn d ctx k sys = \<lparr>sys_server = srv, sys_tasks = (sys_tasks sys)[k := t\<lparr>task_phase := ph\<rparr>]\<rparr>"
    by (simp add: turn_def a Let_def flip: t_def)
  have r: "reachable (srv_streams srv)" "has_links (sctx_config ctx) (srv_state srv)"
    "grows (streams_of sys) (srv_streams srv)"
    using assms(1) advance_reachable [of "sys_server sys" d ctx "task_env t" "task_phase t"]
      advance_links [of "sctx_config ctx" d ctx "task_env t" "task_phase t" "sys_server sys"]
      advance_grows [of "sys_server sys" d ctx "task_env t" "task_phase t"] a
    by (simp_all add: sound_def)
  have "task_sound d ctx (srv_streams srv) (t\<lparr>task_phase := ph\<rparr>)"
    using advance_sound [OF _ _ _ a] assms by (simp add: sound_def t_def)
  moreover have "\<forall>u \<in> set (sys_tasks sys). task_sound d ctx (srv_streams srv) u"
    using assms(1) sound_grows r(3) unfolding sound_def by blast
  ultimately show ?thesis
    using r by (auto simp: sound_def turn dest: set_update_subset_insert [THEN subsetD])
qed

lemma arrive_sound:
  assumes "sound d ctx sys" and "ph = Handshake \<or> ph = Control_Handshake"
  shows "sound d ctx (arrive ph t1 t2 addr env sys)"
proof -
  have "task_sound d ctx now \<lparr>task_addr = addr, task_env = env, task_phase = ph\<rparr>" for now
    using assms(2) by (auto simp: task_sound_def)
  then show ?thesis using assms(1) by (auto simp: sound_def arrive_def split: prod.split)
qed

lemma streams_sound:
  assumes "sound d ctx sys" and "streams_step (streams_of sys) sts"
  shows "sound d ctx (sys\<lparr>sys_server := (sys_server sys)\<lparr>srv_streams := sts\<rparr>\<rparr>)"
  using assms sound_grows [of d ctx "streams_of sys" _ sts] streams_step_grows [OF assms(2)]
    reachable.Step [OF _ assms(2)]
  unfolding sound_def by auto

lemma step_sound: "sys_step d ctx sys sys' \<Longrightarrow> sound d ctx sys \<Longrightarrow> sound d ctx sys'"
  by (erule sys_stepE)
    (auto simp: turn_sound arrive_sound streams_sound, auto simp: sound_def set_control_def has_links_def)

lemma reaches_sound: "sys_reaches d ctx sys \<Longrightarrow> sound d ctx sys"
proof (induction rule: sys_reaches.induct)
  case (Sys_Begin now now_unix)
  show ?case by (simp add: sound_def start_system_def start_server_def reachable.Start has_links_new)
qed (rule step_sound)

subsection \<open>No two tasks get the same stream\<close>

definition hello_of :: "'hs deps \<Rightarrow> server_ctx \<Rightarrow> 'c conn_env \<Rightarrow> stream_hello option" where
  "hello_of d ctx env =
     (case data_handshake (dep_snow d) (dep_finish d) (dep_io_text d) ctx (handshake_in_time env)
             (env_bytes env) of
        Inl e \<Rightarrow> None
      | Inr (j, plain) \<Rightarrow> (case recv_json (dep_hello d) plain of Inl e \<Rightarrow> None | Inr (hello, rest) \<Rightarrow> Some hello))"

text \<open>The stream id in the hello of a task that relays or has relayed, as a list.\<close>

definition relaying :: "'c task \<Rightarrow> bool" where
  "relaying t \<longleftrightarrow> (case task_phase t of Relay i c left \<Rightarrow> True | Finished (Relayed i c) \<Rightarrow> True | _ \<Rightarrow> False)"

definition stream_id :: "'hs deps \<Rightarrow> server_ctx \<Rightarrow> 'c task \<Rightarrow> u64 list" where
  "stream_id d ctx t = (if relaying t
     then (case Option.bind (hello_of d ctx (task_env t)) hello_stream_id of None \<Rightarrow> [] | Some n \<Rightarrow> [n])
     else [])"

definition unique_streams :: "'hs deps \<Rightarrow> server_ctx \<Rightarrow> 'c system \<Rightarrow> bool" where
  "unique_streams d ctx sys \<longleftrightarrow>
     distinct (concat (map (stream_id d ctx) (sys_tasks sys))) \<and>
     set (concat (map (stream_id d ctx) (sys_tasks sys))) \<subseteq> claim_ids (streams_of sys)"

lemma relayed_claim:
  assumes "handle_hello cfg peer hello env srv = (Relayed i c, srv')"
  shows "hello_stream_id hello = None \<and> srv_streams srv' = srv_streams srv \<or>
    (\<exists>n. hello_stream_id hello = Some n \<and> pending (srv_streams srv) n = Some c \<and>
       srv_streams srv' = snd (claim_stream n (srv_streams srv)))"
proof (cases "hello_stream_id hello")
  case None
  then obtain link where "serve_forward link env srv = (Relayed i c, srv')"
    using assms by (auto simp: handle_hello_def split: if_splits option.splits link_mode.splits)
  from serve_forward_relayed [OF this] None show ?thesis by simp
next
  case (Some n)
  then obtain link where "serve_reverse link n env srv = (Relayed i c, srv')"
    using assms by (auto simp: handle_hello_def split: if_splits option.splits link_mode.splits)
  from serve_reverse_relayed [OF this] Some show ?thesis by simp
qed

lemma advance_stream:
  assumes "task_sound d ctx (srv_streams srv) t"
    and "advance d ctx (task_env t) (task_phase t) srv = (ph, srv')"
  shows "(stream_id d ctx (t\<lparr>task_phase := ph\<rparr>) = stream_id d ctx t) \<or>
    (\<exists>n. stream_id d ctx (t\<lparr>task_phase := ph\<rparr>) = stream_id d ctx t @ [n] \<and> pending (srv_streams srv) n \<noteq> None \<and>
       srv_streams srv' = snd (claim_stream n (srv_streams srv)))"
proof (cases "\<exists>j plain. task_phase t = Hello j plain")
  case True
  then obtain j plain where h: "task_phase t = Hello j plain" by blast
  then have old: "stream_id d ctx t = []" by (simp add: stream_id_def relaying_def)
  show ?thesis
  proof (cases "\<exists>i c left. ph = Relay i c left")
    case True
    then obtain hello rest where r: "recv_json (dep_hello d) plain = Inr (hello, rest)"
      and ph: "start_relay (sctx_config ctx) (sctx_peers ctx ! j) hello (task_env t) srv = (ph, srv')"
      using assms(2) h by (auto split: if_splits sum.splits)
    obtain out srv0 where hh: "handle_hello (sctx_config ctx) (sctx_peers ctx ! j) hello (task_env t) srv = (out, srv0)"
      by (cases "handle_hello (sctx_config ctx) (sctx_peers ctx ! j) hello (task_env t) srv")
    then have "ph = phase_of (task_env t) out" and st: "srv_streams srv' = srv_streams srv0"
      using ph by (auto simp: start_relay_def)
    then obtain i c where out: "out = Relayed i c" and phr: "ph = Relay i c (relay_ops (env_copied (task_env t)))"
      using True by (cases out) (auto simp: phase_of_def)
    have "hello_of d ctx (task_env t) = Some hello"
      using assms(1) h r by (simp add: hello_of_def task_sound_def)
    then have new: "stream_id d ctx (t\<lparr>task_phase := ph\<rparr>) =
        (case hello_stream_id hello of None \<Rightarrow> [] | Some n \<Rightarrow> [n])"
      by (simp add: stream_id_def relaying_def phr)
    show ?thesis using relayed_claim [OF hh [unfolded out]] old new st by auto
  next
    case False
    then have "\<not> relaying (t\<lparr>task_phase := ph\<rparr>)"
      using assms(2) h
      by (auto simp: relaying_def start_relay_def phase_of_def split: phase.splits outcome.splits if_splits sum.splits prod.splits)
    then show ?thesis using old by (simp add: stream_id_def)
  qed
next
  case False
  then have "relaying (t\<lparr>task_phase := ph\<rparr>) = relaying t"
    using assms(2)
    by (cases "(d, ctx, task_env t, task_phase t, srv)" rule: advance.cases)
      (auto simp: relaying_def split: sum.splits)
  then show ?thesis by (simp add: stream_id_def)
qed

lemma grows_claim_ids: "grows s s' \<Longrightarrow> claim_ids s \<subseteq> claim_ids s'"
  by (auto simp: grows_def claim_ids_def)

lemma unique_grows:
  "unique_streams d ctx sys \<Longrightarrow> grows (streams_of sys) (streams_of sys') \<Longrightarrow> sys_tasks sys' = sys_tasks sys \<Longrightarrow>
     unique_streams d ctx sys'"
  using grows_claim_ids by (fastforce simp: unique_streams_def)

lemma fresh_id:
  "distinct ys \<and> set ys \<subseteq> A \<Longrightarrow> n \<notin> A \<Longrightarrow> n \<in> B \<Longrightarrow> A \<subseteq> B \<Longrightarrow> set zs = insert n (set ys) \<Longrightarrow>
     distinct zs \<longleftrightarrow> n \<notin> set ys \<and> distinct ys \<Longrightarrow> distinct zs \<and> set zs \<subseteq> B"
  by auto

lemma turn_unique:
  assumes "unique_streams d ctx sys" and "sound d ctx sys"
    and "Suc (length (accepted (streams_of sys))) < id_space" and k: "k < length (sys_tasks sys)"
  shows "unique_streams d ctx (turn d ctx k sys)"
proof -
  define t where "t = sys_tasks sys ! k"
  obtain ph srv where a: "advance d ctx (task_env t) (task_phase t) (sys_server sys) = (ph, srv)"
    by (cases "advance d ctx (task_env t) (task_phase t) (sys_server sys)")
  have turn: "turn d ctx k sys = \<lparr>sys_server = srv, sys_tasks = (sys_tasks sys)[k := t\<lparr>task_phase := ph\<rparr>]\<rparr>"
    by (simp add: turn_def a Let_def flip: t_def)
  let ?ids = "\<lambda>ts. concat (map (stream_id d ctx) ts)" and ?ts = "(sys_tasks sys)[k := t\<lparr>task_phase := ph\<rparr>]"
  have sub: "claim_ids (streams_of sys) \<subseteq> claim_ids (srv_streams srv)"
    using grows_claim_ids [OF advance_grows [of "sys_server sys" d ctx "task_env t" "task_phase t"]] a by simp
  have "task_sound d ctx (streams_of sys) t" using assms(2) k by (simp add: sound_def t_def)
  from advance_stream [OF this a] show ?thesis
  proof
    assume "stream_id d ctx (t\<lparr>task_phase := ph\<rparr>) = stream_id d ctx t"
    then have "mset (?ids ?ts) = mset (?ids (sys_tasks sys))"
      using concat_update [OF k, of "stream_id d ctx" "t\<lparr>task_phase := ph\<rparr>" "[]"] by (simp add: t_def)
    then have "set (?ids ?ts) = set (?ids (sys_tasks sys))" "distinct (?ids ?ts) \<longleftrightarrow> distinct (?ids (sys_tasks sys))"
      by (rule mset_eq_setD, rule mset_eq_imp_distinct_iff)
    then show ?thesis using assms(1) sub unfolding unique_streams_def turn system.select_convs by blast
  next
    assume "\<exists>n. stream_id d ctx (t\<lparr>task_phase := ph\<rparr>) = stream_id d ctx t @ [n] \<and>
      pending (streams_of sys) n \<noteq> None \<and> srv_streams srv = snd (claim_stream n (streams_of sys))"
    then obtain n where n: "stream_id d ctx (t\<lparr>task_phase := ph\<rparr>) = stream_id d ctx t @ [n]"
      "pending (streams_of sys) n \<noteq> None" "srv_streams srv = snd (claim_stream n (streams_of sys))" by blast
    have "n \<notin> claim_ids (streams_of sys)" "n \<in> claim_ids (srv_streams srv)"
      using n(2,3) reachable_inv [OF _ assms(3)] assms(2)
      by (auto simp: sound_def owned_def claims_ok_def claim_stream_def claim_ids_def)
    moreover have "mset (?ids ?ts) = mset (n # ?ids (sys_tasks sys))"
      using concat_update [OF k, of "stream_id d ctx" "t\<lparr>task_phase := ph\<rparr>" "[n]"] n(1) by (simp add: t_def)
    then have "set (?ids ?ts) = insert n (set (?ids (sys_tasks sys)))"
      "distinct (?ids ?ts) \<longleftrightarrow> distinct (n # ?ids (sys_tasks sys))"
      using mset_eq_setD [of "?ids ?ts" "n # ?ids (sys_tasks sys)"]
        mset_eq_imp_distinct_iff [of "?ids ?ts" "n # ?ids (sys_tasks sys)"] by simp_all
    note ids = this
    show ?thesis
      using fresh_id [OF assms(1) [unfolded unique_streams_def] _ _ sub]
        calculation(1,2) ids [unfolded distinct.simps]
      unfolding unique_streams_def turn system.select_convs by blast
  qed
qed

lemma arrive_unique:
  assumes "unique_streams d ctx sys" and "ph = Handshake \<or> ph = Control_Handshake"
  shows "unique_streams d ctx (arrive ph t1 t2 addr env sys)"
proof -
  have "stream_id d ctx \<lparr>task_addr = addr, task_env = env, task_phase = ph\<rparr> = []"
    using assms(2) by (auto simp: stream_id_def relaying_def)
  then show ?thesis using assms(1) by (auto simp: unique_streams_def arrive_def split: prod.split)
qed

lemma turn_server: "sys_server (turn d ctx k sys) =
    snd (advance d ctx (task_env (sys_tasks sys ! k)) (task_phase (sys_tasks sys ! k)) (sys_server sys))"
  by (simp add: turn_def Let_def split: prod.split)

lemma step_grows: "sys_step d ctx sys sys' \<Longrightarrow> grows (streams_of sys) (streams_of sys')"
  by (erule sys_stepE)
    (simp_all add: streams_step_grows arrive_def turn_server advance_grows set_control_def split: prod.split)

lemma step_unique:
  assumes "sys_step d ctx sys sys'" and "unique_streams d ctx sys" and "sound d ctx sys"
    and "Suc (length (accepted (streams_of sys))) < id_space"
  shows "unique_streams d ctx sys'"
  using assms(1)
proof (cases rule: sys_step.cases)
  case (Sys_Streams sts)
  then show ?thesis
    using unique_grows [OF assms(2), of sys'] streams_step_grows [of "streams_of sys" sts] by simp
next
  case (Sys_Turn k)
  then show ?thesis using turn_unique assms(2-4) by blast
next
  case Sys_Session_Down
  then show ?thesis using unique_grows [OF assms(2)] by (simp add: set_control_def)
next
  case (Sys_Session_Up t name now_unix)
  then show ?thesis using unique_grows [OF assms(2)] by (simp add: set_control_def)
qed (simp_all add: arrive_unique assms(2))

lemma reaches_unique:
  "sys_reaches d ctx sys \<Longrightarrow> Suc (length (accepted (streams_of sys))) < id_space \<Longrightarrow> unique_streams d ctx sys"
proof (induction rule: sys_reaches.induct)
  case (Sys_Begin now now_unix)
  show ?case by (simp add: unique_streams_def start_system_def)
next
  case (Sys_Next sys sys')
  have "Suc (length (accepted (streams_of sys))) < id_space"
    using Sys_Next.prems step_grows [OF Sys_Next.hyps(2)] unfolding grows_def by linarith
  then show ?case using step_unique [OF Sys_Next.hyps(2)] Sys_Next.IH reaches_sound [OF Sys_Next.hyps(1)] by simp
qed

subsection \<open>Runs of \<open>Server_Runs\<close> are interleavings\<close>

lemma reaches_steps: "(sys_step d ctx)\<^sup>*\<^sup>* sys sys' \<Longrightarrow> sys_reaches d ctx sys \<Longrightarrow> sys_reaches d ctx sys'"
  by (induction rule: rtranclp_induct) (auto intro: Sys_Next)

lemma turns_step:
  "settle d ctx env n (ph, srv) = (ph', srv') \<Longrightarrow>
   (sys_step d ctx)\<^sup>*\<^sup>* \<lparr>sys_server = srv, sys_tasks = ts @ [\<lparr>task_addr = addr, task_env = env, task_phase = ph\<rparr>]\<rparr>
     \<lparr>sys_server = srv', sys_tasks = ts @ [\<lparr>task_addr = addr, task_env = env, task_phase = ph'\<rparr>]\<rparr>"
proof (induction n arbitrary: ph srv)
  case (Suc n)
  let ?at = "\<lambda>srv ph. \<lparr>sys_server = srv, sys_tasks = ts @ [\<lparr>task_addr = addr, task_env = env, task_phase = ph\<rparr>]\<rparr>"
  obtain ph1 srv1 where a: "advance d ctx env ph srv = (ph1, srv1)" by (cases "advance d ctx env ph srv")
  have "turn d ctx (length ts) (?at srv ph) = ?at srv1 ph1" by (simp add: turn_def a)
  then have "sys_step d ctx (?at srv ph) (?at srv1 ph1)"
    using Sys_Turn [of "length ts" "?at srv ph" d ctx] by simp
  moreover have "(sys_step d ctx)\<^sup>*\<^sup>* (?at srv1 ph1) (?at srv' ph')" using Suc.IH Suc.prems a by simp
  ultimately show ?case by (rule converse_rtranclp_into_rtranclp)
qed simp

lemma turns_settle:
  "sys_reaches d ctx \<lparr>sys_server = srv, sys_tasks = ts @ [\<lparr>task_addr = addr, task_env = env, task_phase = ph\<rparr>]\<rparr> \<Longrightarrow>
   settle d ctx env n (ph, srv) = (ph', srv') \<Longrightarrow>
   sys_reaches d ctx \<lparr>sys_server = srv', sys_tasks = ts @ [\<lparr>task_addr = addr, task_env = env, task_phase = ph'\<rparr>]\<rparr>"
  by (rule reaches_steps [OF turns_step])

lemma data_run:
  assumes "sys_reaches d ctx \<lparr>sys_server = srv, sys_tasks = ts\<rparr>"
  shows "\<exists>ts'. sys_reaches d ctx \<lparr>sys_server = snd (snd (accept_data d ctx t1 t2 addr env srv)), sys_tasks = ts'\<rparr>"
proof -
  let ?sys = "\<lparr>sys_server = srv, sys_tasks = ts\<rparr>"
  obtain g lim where a: "try_acquire t1 t2 (ip_of addr) (srv_limiter srv) = (g, lim)"
    by (cases "try_acquire t1 t2 (ip_of addr) (srv_limiter srv)")
  let ?srv = "srv\<lparr>srv_limiter := lim\<rparr>"
  have r: "sys_reaches d ctx (arrive Handshake t1 t2 addr env ?sys)" by (rule Sys_Next [OF assms Sys_Data])
  show ?thesis
  proof (cases g)
    case False
    then have "arrive Handshake t1 t2 addr env ?sys = \<lparr>sys_server = ?srv, sys_tasks = ts\<rparr>"
      "snd (snd (accept_data d ctx t1 t2 addr env srv)) = ?srv"
      by (simp_all add: arrive_def a accept_data_def data_accept_def)
    then show ?thesis using r by auto
  next
    case True
    obtain out srv' where h: "handle_data_connection (dep_snow d) (dep_finish d) (dep_io_text d)
        (dep_hello d) ctx env ?srv = (out, srv')"
      by (cases "handle_data_connection (dep_snow d) (dep_finish d) (dep_io_text d) (dep_hello d) ctx env ?srv")
    have "settle d ctx env 8 (Handshake, ?srv) = (Finished out, srv')" by (simp add: task_alone h)
    from turns_settle [OF _ this, of ts addr] r True
    have "sys_reaches d ctx \<lparr>sys_server = srv', sys_tasks = ts @ [\<lparr>task_addr = addr, task_env = env, task_phase = Finished out\<rparr>]\<rparr>"
      by (simp add: arrive_def a)
    moreover have "snd (snd (accept_data d ctx t1 t2 addr env srv)) = srv'"
      using True by (simp add: accept_data_def data_accept_def a h)
    ultimately show ?thesis by auto
  qed
qed

lemma control_run:
  assumes "sys_reaches d ctx \<lparr>sys_server = srv, sys_tasks = ts\<rparr>"
  shows "\<exists>ts'. sys_reaches d ctx \<lparr>sys_server = snd (snd (accept_control d ctx t1 t2 addr env srv)), sys_tasks = ts'\<rparr>"
proof -
  let ?sys = "\<lparr>sys_server = srv, sys_tasks = ts\<rparr>"
  obtain g lim where a: "try_acquire t1 t2 (ip_of addr) (srv_limiter srv) = (g, lim)"
    by (cases "try_acquire t1 t2 (ip_of addr) (srv_limiter srv)")
  let ?srv = "srv\<lparr>srv_limiter := lim\<rparr>"
  have r: "sys_reaches d ctx (arrive Control_Handshake t1 t2 addr env ?sys)" by (rule Sys_Next [OF assms Sys_Control])
  have "settle d ctx env 1 (Control_Handshake, ?srv) = (Control_Finished (control_result d ctx env), drop_permit ?srv)"
    by (simp add: numeral_eq_Suc)
  note end_run = turns_settle [OF _ this, of ts addr]
  have "snd (snd (accept_control d ctx t1 t2 addr env srv)) = (if g then drop_permit ?srv else ?srv)"
    by (simp add: accept_control_def control_accept_def a Let_def split: sum.split)
  moreover have "arrive Control_Handshake t1 t2 addr env ?sys = \<lparr>sys_server = ?srv, sys_tasks = ts @
      (if g then [\<lparr>task_addr = addr, task_env = env, task_phase = Control_Handshake\<rparr>] else [])\<rparr>"
    by (simp add: arrive_def a)
  ultimately show ?thesis using r end_run by (cases g) auto
qed

lemma runs_interleave: "server_reaches d ctx srv \<Longrightarrow> \<exists>ts. sys_reaches d ctx \<lparr>sys_server = srv, sys_tasks = ts\<rparr>"
proof (induction rule: server_reaches.induct)
  case (Begin now now_unix)
  show ?case using Sys_Begin [of d ctx now now_unix] by (auto simp: start_system_def)
next
  case (Next srv srv')
  then obtain ts where r: "sys_reaches d ctx \<lparr>sys_server = srv, sys_tasks = ts\<rparr>" by blast
  show ?case using Next.hyps(2)
  proof (cases rule: server_step.cases)
    case (Streams sts)
    then show ?thesis using Sys_Next [OF r Sys_Streams] by auto
  next
    case (Data t1 t2 addr env)
    then show ?thesis using data_run [OF r] by simp
  next
    case (Control t1 t2 addr env)
    then show ?thesis using control_run [OF r] by simp
  qed
qed

text \<open>What every property of the shared state starts from.\<close>

lemma reaches_ok:
  assumes "sys_reaches d ctx sys" and "srv = sys_server sys"
  shows "reachable (srv_streams srv)" and "has_links (sctx_config ctx) (srv_state srv)"
  using reaches_sound [OF assms(1)] by (simp_all add: sound_def assms(2))

text \<open>A relayed connection, read backwards: the hello it sent and the stream it took.\<close>

lemma relayed_source:
  assumes "alone d ctx env srv = (Relayed i c, srv')"
  obtains j plain hello where
    "data_handshake (dep_snow d) (dep_finish d) (dep_io_text d) ctx (handshake_in_time env)
       (env_bytes env) = Inr (j, plain)"
    and "hello_of d ctx env = Some hello"
    and "relay_allowed (sctx_config ctx) (sctx_peers ctx ! j) hello env srv i c"
    and "\<forall>n. hello_stream_id hello = Some n \<longrightarrow> (n, c) \<in> set (claimed (srv_streams srv'))"
proof -
  obtain j plain hello rest where
    h: "data_handshake (dep_snow d) (dep_finish d) (dep_io_text d) ctx (handshake_in_time env)
         (env_bytes env) = Inr (j, plain)"
       "recv_json (dep_hello d) plain = Inr (hello, rest)"
       "handle_hello (sctx_config ctx) (sctx_peers ctx ! j) hello env (drop_permit srv) = (Relayed i c, srv')"
    using assms by (auto simp: alone_def handle_data_connection_def Let_def split: sum.splits if_splits)
  have "relay_allowed (sctx_config ctx) (sctx_peers ctx ! j) hello env srv i c"
    using handle_hello_relayed [OF h(3)] unfolding relay_allowed_def drop_permit_streams .
  moreover have "hello_of d ctx env = Some hello" using h(1,2) by (simp add: hello_of_def)
  moreover have "(n, c) \<in> set (claimed (srv_streams srv'))" if "hello_stream_id hello = Some n" for n
    using relayed_claim [OF h(3)] that by (auto simp: claim_stream_def split: option.splits)
  ultimately show ?thesis using that h(1) by blast
qed

text \<open>A task that relays was decided by a connection that relays.\<close>

lemma relaying_decided:
  assumes "sys_reaches d ctx sys" and "t \<in> set (sys_tasks sys)"
    and "task_phase t = Relay i c left \<or> task_phase t = Finished (Relayed i c)"
  shows "decided d ctx (streams_of sys) (task_env t) (Relayed i c)"
  using reaches_sound [OF assms(1)] assms(2,3) by (auto simp: sound_def task_sound_def)

lemma decided_no_panic:
  assumes "decided d ctx now env out" and "\<forall>l \<in> set (cfg_links (sctx_config ctx)). valid_link Server l"
  shows "out \<noteq> Panicked msg"
  using assms no_panic [OF assms(2)] unfolding decided_def alone_def by (metis fst_conv)

text \<open>
  Three steps from an accept to a relay: a connection that gets a permit, completes its handshake
  and sends a hello the server accepts is relaying, whatever else is going on.
\<close>

lemma relay_starts:
  assumes "fst (try_acquire t1 t2 (ip_of addr) (srv_limiter (sys_server sys)))"
    and "data_handshake (dep_snow d) (dep_finish d) (dep_io_text d) ctx (handshake_in_time env)
      (env_bytes env) = Inr (j, plain)"
    and "hello_in_time env" and "recv_json (dep_hello d) plain = Inr (hello, rest)"
    and "fst (handle_hello (sctx_config ctx) (sctx_peers ctx ! j) hello env (sys_server sys)) = Relayed i c"
  obtains sys' where "(sys_step d ctx)\<^sup>*\<^sup>* sys sys'"
    and "sys_tasks sys' = sys_tasks sys @ [\<lparr>task_addr = addr, task_env = env,
      task_phase = Relay i c (relay_ops (env_copied env))\<rparr>]"
    and "accepted (streams_of sys') = accepted (streams_of sys)"
proof -
  obtain lim where a: "try_acquire t1 t2 (ip_of addr) (srv_limiter (sys_server sys)) = (True, lim)"
    using assms(1) by (cases "try_acquire t1 t2 (ip_of addr) (srv_limiter (sys_server sys))") simp
  let ?srv = "(sys_server sys)\<lparr>srv_limiter := lim\<rparr>"
  let ?run = "handle_hello (sctx_config ctx) (sctx_peers ctx ! j) hello env"
  let ?task = "\<lambda>ph. \<lparr>task_addr = addr, task_env = env, task_phase = ph\<rparr>"
  have "arrive Handshake t1 t2 addr env sys = \<lparr>sys_server = ?srv, sys_tasks = sys_tasks sys @ [?task Handshake]\<rparr>"
    by (simp add: arrive_def a)
  then have arrival: "sys_step d ctx sys \<lparr>sys_server = ?srv, sys_tasks = sys_tasks sys @ [?task Handshake]\<rparr>"
    using Sys_Data [of d ctx sys t1 t2 addr env] by simp
  obtain out srv' where r: "?run (drop_permit ?srv) = (out, srv')" by (cases "?run (drop_permit ?srv)")
  have "out = Relayed i c"
    using hello_ignores_limiter(1) [of "drop_permit ?srv" "sys_server sys" "sctx_config ctx"
        "sctx_peers ctx ! j" hello env] assms(5) r
    by (simp add: drop_permit_def)
  then have "settle d ctx env 2 (Handshake, ?srv) = (Relay i c (relay_ops (env_copied env)),
      (drop_permit ?srv)\<lparr>srv_streams := srv_streams srv'\<rparr>)"
    using assms(2-4) r by (simp add: numeral_eq_Suc start_relay_def phase_of_def)
  note run = converse_rtranclp_into_rtranclp [OF arrival turns_step [OF this]]
  have "accepted (srv_streams srv') = accepted (streams_of sys)"
    using handle_hello_streams [of "sctx_config ctx" "sctx_peers ctx ! j" hello env "drop_permit ?srv"] r
    by (auto simp: drop_permit_def claim_stream_def split: option.splits)
  then show ?thesis using that [OF run] by simp
qed

text \<open>A stream id stands at one place only.\<close>

lemma distinct_concat_index:
  "distinct (concat xss) \<Longrightarrow> j < length xss \<Longrightarrow> k < length xss \<Longrightarrow> n \<in> set (xss ! j) \<Longrightarrow>
     n \<in> set (xss ! k) \<Longrightarrow> j = k"
proof (induction xss arbitrary: j k)
  case (Cons xs xss)
  have apart: "n \<notin> set xs" if "n \<in> set (xss ! i)" "i < length xss" for i
    using Cons.prems(1) that nth_mem by fastforce
  show ?case
    using Cons apart by (cases j; cases k) auto
qed simp

end
