(* ===== verification/Client_Tasks.thy ===== *)
theory Client_Tasks
  imports Client_Role Relay_Counters
begin

section \<open>The client as interleaved tasks\<close>

text \<open>
  The client runs its listeners and the control loop side by side and spawns a task for each local
  connection and for each \<open>OpenStream\<close>. Here these tasks, the session and the end of a session
  interleave freely: a step is one access to the shared state. The dial of a task (the connections,
  the handshake and the hello) touches nothing shared and is one step; the counters of its link are
  then updated one atomic operation at a time.
\<close>

subsection \<open>Tasks\<close>

record 'hs client_deps =
  cd_palette :: palette
  cd_io_text :: "io_error \<Rightarrow> string"
  cd_snow :: "'hs snow"
  cd_hello :: "stream_hello writer"
  cd_control :: "control_message reader"

datatype dial_phase =
    Dialling
  | Tunnel string "counter_op list" \<comment> \<open>what was written first, the counter updates to come\<close>
  | Gave_Up "string list" \<comment> \<open>the lines printed\<close>
  | Dial_Panic string

record 'hs dial =
  d_link :: string
  d_stream :: "u64 option"
  d_peer :: socket_addr \<comment> \<open>of the local connection\<close>
  d_env :: "'hs dial_env"
  d_phase :: dial_phase

record 'hs client_sys =
  cl_state :: shared_state
  cl_ended :: "session list"
  cl_session :: "session option"
  cl_dials :: "'hs dial list"

text \<open>The phase after the dial returned.\<close>

fun dialled :: "'hs dial_env \<Rightarrow> (io_error \<Rightarrow> string list) \<Rightarrow> (io_error + string) call \<Rightarrow> dial_phase" where
  "dialled env lines (Returns (Inr bs)) = Tunnel bs (relay_ops (dial_copied env))"
| "dialled env lines (Returns (Inl e)) = Gave_Up (lines e)"
| "dialled env lines (Panics msg) = Dial_Panic msg"

definition dial_out :: "'hs client_deps \<Rightarrow> client_ctx \<Rightarrow> 'hs dial \<Rightarrow> shared_state \<Rightarrow> dial_phase" where
  "dial_out d ctx t st =
     (let run = fst (dial_data_tunnel_and_relay (cd_snow d) (cd_hello d) ctx (d_link t) (d_stream t) (d_env t) st);
          pal = cd_palette d
      in case d_stream t of
           None \<Rightarrow> dialled (d_env t) (\<lambda>e. [link_line pal (d_link t) (err pal
             (show_socket_addr (d_peer t) @ '': '' @ cd_io_text d e))]) run
         | Some n \<Rightarrow>
             (case stream_refused pal (cd_io_text d) ctx (d_link t) n (d_env t) of
                Some ls \<Rightarrow> Gave_Up ls
              | None \<Rightarrow> dialled (d_env t) (stream_failed pal (cd_io_text d) (d_link t) n) run))"

definition count_dial :: "string \<Rightarrow> counter_op \<Rightarrow> shared_state \<Rightarrow> shared_state" where
  "count_dial i op st = st\<lparr>st_links := (st_links st)(i := map_option (apply_op op) (st_links st i))\<rparr>"

definition go_on :: "'hs client_deps \<Rightarrow> client_ctx \<Rightarrow> 'hs dial \<Rightarrow> shared_state \<Rightarrow> dial_phase \<times> shared_state" where
  "go_on d ctx t st =
     (case d_phase t of
        Dialling \<Rightarrow> (dial_out d ctx t st, st)
      | Tunnel bs (op # ops) \<Rightarrow> (Tunnel bs ops, count_dial (d_link t) op st)
      | ph \<Rightarrow> (ph, st))"

subsection \<open>The system\<close>

definition new_dial :: "string \<Rightarrow> u64 option \<Rightarrow> socket_addr \<Rightarrow> 'hs dial_env \<Rightarrow> 'hs dial" where
  "new_dial i n peer env = \<lparr>d_link = i, d_stream = n, d_peer = peer, d_env = env, d_phase = Dialling\<rparr>"

definition local_conn :: "string \<Rightarrow> socket_addr \<Rightarrow> 'hs dial_env \<Rightarrow> 'hs client_sys \<Rightarrow> 'hs client_sys" where
  "local_conn i peer env sys = sys\<lparr>cl_dials := cl_dials sys @ [new_dial i None peer env]\<rparr>"

definition dial_turn :: "'hs client_deps \<Rightarrow> client_ctx \<Rightarrow> nat \<Rightarrow> 'hs client_sys \<Rightarrow> 'hs client_sys" where
  "dial_turn d ctx k sys =
     (let t = cl_dials sys ! k; (ph, st) = go_on d ctx t (cl_state sys)
      in sys\<lparr>cl_state := st, cl_dials := (cl_dials sys)[k := t\<lparr>d_phase := ph\<rparr>]\<rparr>)"

definition set_status :: "(control_status \<Rightarrow> control_status) \<Rightarrow> shared_state \<Rightarrow> shared_state" where
  "set_status f st = st\<lparr>st_control := f (st_control st)\<rparr>"

definition session_up :: "u64 \<Rightarrow> string \<Rightarrow> 'hs client_sys \<Rightarrow> 'hs client_sys" where
  "session_up now_unix addr sys =
     sys\<lparr>cl_state := set_status (set_connected now_unix addr None) (cl_state sys),
         cl_session := Some new_session\<rparr>"

definition session_down :: "session \<Rightarrow> 'hs client_sys \<Rightarrow> 'hs client_sys" where
  "session_down s sys =
     sys\<lparr>cl_state := set_status set_disconnected (cl_state sys),
         cl_session := None, cl_ended := cl_ended sys @ [s]\<rparr>"

text \<open>One turn of the session's \<open>select!\<close>; every stream it announces becomes a task.\<close>

definition client_turn ::
  "'hs client_deps \<Rightarrow> client_ctx \<Rightarrow> bool \<Rightarrow> session_event \<Rightarrow> session \<Rightarrow> session" where
  "client_turn d ctx send_ok e s =
     session_step (cd_control d) send_ok (client_on_incoming (cctx_config ctx)) e s"

definition session_turn ::
  "session \<Rightarrow> session \<Rightarrow> (socket_addr \<times> 'hs dial_env) list \<Rightarrow> 'hs client_sys \<Rightarrow> 'hs client_sys" where
  "session_turn s s' envs sys =
     sys\<lparr>cl_session := Some s',
         cl_dials := cl_dials sys @
           map2 (\<lambda>(i, n) (peer, env). new_dial i (Some n) peer env) (drop (length (spawned s)) (spawned s')) envs\<rparr>"

definition client_event :: "session_event \<Rightarrow> bool" where
  "client_event e \<longleftrightarrow> (case e of Arrive bs \<Rightarrow> True | Other_Branch m \<Rightarrow> e = ping_tick)"

inductive cl_step :: "'hs client_deps \<Rightarrow> client_ctx \<Rightarrow> 'hs client_sys \<Rightarrow> 'hs client_sys \<Rightarrow> bool"
  for d :: "'hs client_deps" and ctx :: client_ctx where
  Cl_Accept: "run_client (cctx_config ctx) = Some (listeners, addr) \<Longrightarrow> (i, listen_addr) \<in> set listeners \<Longrightarrow>
    cl_step d ctx sys (local_conn i peer env sys)"
| Cl_Connect: "run_client (cctx_config ctx) = Some (listeners, addr) \<Longrightarrow> cl_session sys = None \<Longrightarrow>
    connect_control (cd_snow d) ctx addr env = None \<Longrightarrow> cl_step d ctx sys (session_up now_unix addr sys)"
| Cl_Session: "cl_session sys = Some s \<Longrightarrow> client_event e \<Longrightarrow> s' = client_turn d ctx send_ok e s \<Longrightarrow>
    length (spawned s') = length (spawned s) + length envs \<Longrightarrow> cl_step d ctx sys (session_turn s s' envs sys)"
| Cl_Down: "cl_session sys = Some s \<Longrightarrow> cl_step d ctx sys (session_down s sys)"
| Cl_Turn: "k < length (cl_dials sys) \<Longrightarrow> cl_step d ctx sys (dial_turn d ctx k sys)"

definition start_client :: "client_ctx \<Rightarrow> u64 \<Rightarrow> 'hs client_sys" where
  "start_client ctx now_unix =
     \<lparr>cl_state = new_state now_unix (cctx_config ctx), cl_ended = [], cl_session = None, cl_dials = []\<rparr>"

inductive cl_reaches :: "'hs client_deps \<Rightarrow> client_ctx \<Rightarrow> 'hs client_sys \<Rightarrow> bool"
  for d :: "'hs client_deps" and ctx :: client_ctx where
  Cl_Begin: "cl_reaches d ctx (start_client ctx now_unix)"
| Cl_Next: "cl_reaches d ctx sys \<Longrightarrow> cl_step d ctx sys sys' \<Longrightarrow> cl_reaches d ctx sys'"

lemmas cl_defs = local_conn_def dial_turn_def session_up_def session_down_def session_turn_def new_dial_def
  start_client_def set_status_def

subsection \<open>The counters are those of the tasks\<close>

fun dial_progress :: "string \<Rightarrow> dial_phase \<Rightarrow> (string \<times> counter_op list) option" where
  "dial_progress i (Tunnel bs left) = Some (i, left)"
| "dial_progress i _ = None"

definition dial_part :: "'hs dial \<Rightarrow> relay_part" where
  "dial_part t = \<lparr>r_result = dial_copied (d_env t), r_progress = dial_progress (d_link t) (d_phase t)\<rparr>"

definition client_book :: "'hs client_sys \<Rightarrow> relay_book" where
  "client_book sys = \<lparr>parts = map dial_part (cl_dials sys), book = st_links (cl_state sys)\<rparr>"

definition starts_client :: "client_ctx \<Rightarrow> 'hs client_sys \<Rightarrow> bool" where
  "starts_client ctx sys \<longleftrightarrow> (\<exists>now_unix. sys = start_client ctx now_unix)"

lemma dialled_progress:
  "dial_progress i (dialled env lines r) = None \<or> dial_progress i (dialled env lines r) = Some (i, relay_ops (dial_copied env))"
  by (cases "(env, lines, r)" rule: dialled.cases) simp_all

lemma go_on_progress:
  "progress_step (dial_copied (d_env t)) (dial_progress (d_link t) (d_phase t)) (st_links st)
     (dial_progress (d_link t) (fst (go_on d ctx t st))) (st_links (snd (go_on d ctx t st)))"
  using dialled_progress [of "d_link t" "d_env t"]
  by (cases "(d_link t, d_phase t)" rule: dial_progress.cases)
    (auto simp: progress_step_def go_on_def dial_out_def count_dial_def Let_def split: list.split option.split)

lemma dial_turn_book:
  assumes "k < length (cl_dials sys)"
  shows "client_book (dial_turn d ctx k sys) = client_book sys \<or>
    book_step (client_book sys) (client_book (dial_turn d ctx k sys))"
proof -
  let ?t = "cl_dials sys ! k" and ?b = "client_book sys"
  let ?r = "go_on d ctx ?t (cl_state sys)"
  have "client_book (dial_turn d ctx k sys) = \<lparr>parts = (parts ?b)[k := \<lparr>r_result = dial_copied (d_env ?t),
      r_progress = dial_progress (d_link ?t) (fst ?r)\<rparr>], book = st_links (snd ?r)\<rparr>"
    by (simp add: dial_turn_def client_book_def map_update dial_part_def split_beta Let_def)
  moreover have "k < length (parts ?b)" "parts ?b ! k = dial_part ?t" "book ?b = st_links (cl_state sys)"
    using assms by (simp_all add: client_book_def)
  ultimately show ?thesis
    using book_progress [of k ?b] go_on_progress [of ?t "cl_state sys" d ctx] by (simp add: dial_part_def)
qed

text \<open>A step of the control loop, in the book, is any number of new parts.\<close>

definition fresh_dials :: "'hs dial list \<Rightarrow> bool" where
  "fresh_dials ts \<longleftrightarrow> (\<forall>t \<in> set ts. d_phase t = Dialling)"

lemma session_turn_dials:
  "length (spawned s') = length (spawned s) + length envs \<Longrightarrow>
   \<exists>ts. cl_dials (session_turn s s' envs sys) = cl_dials sys @ ts \<and> fresh_dials ts \<and>
     map (\<lambda>t. (d_link t, d_stream t)) ts = map (\<lambda>(i, n). (i, Some n)) (drop (length (spawned s)) (spawned s'))"
proof -
  have "map (\<lambda>t. (d_link t, d_stream t)) (map2 (\<lambda>(i, n) (peer, env). new_dial i (Some n) peer env) xs envs) =
      map (\<lambda>(i, n). (i, Some n)) xs" and
    "fresh_dials (map2 (\<lambda>(i, n) (peer, env). new_dial i (Some n) peer env) xs envs)"
    if "length xs = length envs" for xs and envs :: "(socket_addr \<times> 'b dial_env) list"
    using that by (induction xs envs rule: list_induct2) (auto simp: new_dial_def fresh_dials_def)
  from this [of "drop (length (spawned s)) (spawned s')" envs]
  show "length (spawned s') = length (spawned s) + length envs \<Longrightarrow> ?thesis"
    by (simp add: session_turn_def)
qed

lemma fresh_book:
  assumes "cl_dials sys' = cl_dials sys @ ts" and "fresh_dials ts"
    and "st_links (cl_state sys') = st_links (cl_state sys)"
  shows "book_step\<^sup>*\<^sup>* (client_book sys) (client_book sys')"
proof -
  have "client_book sys' = (client_book sys)\<lparr>parts := parts (client_book sys) @ map dial_part ts\<rparr>"
    using assms(1,3) by (simp add: client_book_def)
  moreover have "\<forall>p \<in> set (map dial_part ts). r_progress p = None"
    using assms(2) by (simp add: fresh_dials_def dial_part_def)
  ultimately show ?thesis using spawn_many by metis
qed

lemma cl_step_book:
  assumes "cl_step d ctx sys sys'"
  shows "book_step\<^sup>*\<^sup>* (client_book sys) (client_book sys')"
  using assms
proof (cases rule: cl_step.cases)
  case (Cl_Accept listeners addr i listen_addr peer env)
  then show ?thesis
    using fresh_book [of sys' sys "[new_dial i None peer env]"]
    by (simp add: local_conn_def fresh_dials_def new_dial_def)
next
  case (Cl_Session s e s' send_ok envs)
  then show ?thesis
    using session_turn_dials [of s' s envs sys] fresh_book [of sys' sys] by (auto simp: session_turn_def)
next
  case (Cl_Turn k)
  then show ?thesis using dial_turn_book [of k sys d ctx] by auto
qed (simp_all add: client_book_def session_up_def session_down_def set_status_def)

interpretation client_books: relay_system client_book "starts_client ctx" "cl_step d ctx"
  by unfold_locales
    (auto simp: starts_client_def start_client_def client_book_def new_state_links intro: cl_step_book [unfolded client_book_def]
      split: if_splits)

lemma cl_reaches_start:
  "cl_reaches d ctx sys \<Longrightarrow> \<exists>s. starts_client ctx s \<and> (cl_step d ctx)\<^sup>*\<^sup>* s sys"
proof (induction rule: cl_reaches.induct)
  case (Cl_Begin now_unix)
  show ?case by (auto simp: starts_client_def)
qed (meson rtranclp.rtrancl_into_rtrancl)

text \<open>The active count of a link is the number of dials relaying on it, the totals are theirs.\<close>

definition dial_relays_on :: "string \<Rightarrow> 'hs dial \<Rightarrow> bool" where
  "dial_relays_on i t \<longleftrightarrow> d_link t = i \<and>
     (\<exists>bs left. d_phase t = Tunnel bs left \<and> Active_Add \<notin> set left \<and> Active_Sub \<in> set left)"

definition dial_relayed_on :: "string \<Rightarrow> 'hs dial \<Rightarrow> bool" where
  "dial_relayed_on i t \<longleftrightarrow> d_link t = i \<and> (\<exists>bs. d_phase t = Tunnel bs [])"

lemma client_active:
  assumes "cl_reaches d ctx sys" and "st_links (cl_state sys) i = Some st"
  shows "active_streams st = of_nat (length (filter (dial_relays_on i) (cl_dials sys)))"
proof -
  obtain s where s: "starts_client ctx s" "(cl_step d ctx)\<^sup>*\<^sup>* s sys" using cl_reaches_start [OF assms(1)] by blast
  have "active_on i (dial_part t) = dial_relays_on i t" for t :: "'a dial"
    by (cases "d_phase t") (auto simp: active_on_def dial_relays_on_def dial_part_def)
  then show ?thesis
    using client_books.active_now [OF s, of i st] assms(2) by (simp add: client_book_def filter_map comp_def)
qed

lemma client_settled:
  assumes "cl_reaches d ctx sys" and "st_links (cl_state sys) i = Some st"
    and "\<forall>t \<in> set (cl_dials sys). \<forall>bs op ops. d_link t = i \<longrightarrow> d_phase t \<noteq> Tunnel bs (op # ops)"
  shows "st = account (map (\<lambda>t. dial_copied (d_env t)) (filter (dial_relayed_on i) (cl_dials sys))) zero_stats"
proof -
  obtain s where s: "starts_client ctx s" "(cl_step d ctx)\<^sup>*\<^sup>* s sys" using cl_reaches_start [OF assms(1)] by blast
  have ended: "ended_on i (dial_part t) = dial_relayed_on i t" for t :: "'a dial"
    by (cases "d_phase t") (auto simp: ended_on_def dial_relayed_on_def dial_part_def)
  have "left = []" if "t \<in> set (cl_dials sys)" "r_progress (dial_part t) = Some (i, left)" for t left
    using assms(3) that by (cases "d_phase t"; cases left) (auto simp: dial_part_def)
  then have "st = account (map r_result (filter (ended_on i) (map dial_part (cl_dials sys)))) zero_stats"
    using client_books.settled_now [OF s, of i st] assms(2) by (auto simp: client_book_def)
  then show ?thesis using ended by (simp add: filter_map comp_def dial_part_def)
qed

subsection \<open>Dials are what the configuration and the server say\<close>

text \<open>The streams announced over the control connections so far, and the tasks opened for streams.\<close>

definition announced_so_far :: "'hs client_sys \<Rightarrow> (string \<times> u64) list" where
  "announced_so_far sys =
     concat (map spawned (cl_ended sys)) @ (case cl_session sys of None \<Rightarrow> [] | Some s \<Rightarrow> spawned s)"

definition streams_opened :: "'hs client_sys \<Rightarrow> (string \<times> u64) list" where
  "streams_opened sys =
     List.map_filter (\<lambda>t. map_option (Pair (d_link t)) (d_stream t)) (cl_dials sys)"

definition forward_link :: "config \<Rightarrow> string \<Rightarrow> bool" where
  "forward_link cfg i \<longleftrightarrow>
     (\<exists>l \<in> set (cfg_links cfg). link_id l = i \<and> link_mode l = Forward \<and> link_transport l = Tcp)"

text \<open>What a task's phase says about what it did.\<close>

definition allowed_link :: "config \<Rightarrow> string \<Rightarrow> u64 option \<Rightarrow> bool" where
  "allowed_link cfg i n \<longleftrightarrow> (case n of None \<Rightarrow> forward_link cfg i | Some _ \<Rightarrow> link_expects_reverse cfg i)"

definition dial_phase_ok :: "'hs client_deps \<Rightarrow> client_ctx \<Rightarrow> string \<Rightarrow> u64 option \<Rightarrow> dial_phase \<Rightarrow> bool" where
  "dial_phase_ok d ctx i n ph \<longleftrightarrow>
     (case ph of
        Tunnel bs left \<Rightarrow> send_json (cd_hello d) \<lparr>hello_link_id = i, hello_stream_id = n\<rparr> = Inr bs
      | Dial_Panic msg \<Rightarrow> server_data_addr (cctx_config ctx) = None
      | _ \<Rightarrow> True)"

definition dial_ok :: "'hs client_deps \<Rightarrow> client_ctx \<Rightarrow> 'hs dial \<Rightarrow> bool" where
  "dial_ok d ctx t \<longleftrightarrow> allowed_link (cctx_config ctx) (d_link t) (d_stream t) \<and>
     dial_phase_ok d ctx (d_link t) (d_stream t) (d_phase t)"

definition client_sound :: "'hs client_deps \<Rightarrow> client_ctx \<Rightarrow> 'hs client_sys \<Rightarrow> bool" where
  "client_sound d ctx sys \<longleftrightarrow>
     has_links (cctx_config ctx) (cl_state sys) \<and>
     streams_opened sys = announced_so_far sys \<and>
     (\<forall>t \<in> set (cl_dials sys). dial_ok d ctx t) \<and>
     (\<forall>s \<in> set_option (cl_session sys). \<forall>(i, n) \<in> set (spawned s). link_expects_reverse (cctx_config ctx) i) \<and>
     (connected (st_control (cl_state sys)) \<longleftrightarrow> cl_session sys \<noteq> None)"

lemma forward_listeners_links:
  "forward_listeners ls = Some ads \<Longrightarrow> (i, addr) \<in> set ads \<Longrightarrow>
     \<exists>l \<in> set ls. link_id l = i \<and> link_mode l = Forward \<and> link_transport l = Tcp"
  by (induction ls arbitrary: ads) (auto split: if_splits option.splits)

lemma listener_forward_link:
  "run_client cfg = Some (ads, addr) \<Longrightarrow> (i, listen_addr) \<in> set ads \<Longrightarrow> forward_link cfg i"
  using forward_listeners_links [of "cfg_links cfg" ads i listen_addr]
  by (auto simp: run_client_def forward_link_def split: option.splits)

lemma dialled_ok:
  assumes "has_links (cctx_config ctx) st" and "\<exists>l \<in> set (cfg_links (cctx_config ctx)). link_id l = i"
  shows "dial_phase_ok d ctx i n (dialled env lines (fst (dial_data_tunnel_and_relay sn (cd_hello d) ctx i n env' st)))"
proof -
  have "st_links st i \<noteq> None" using assms(1,2) by (auto simp: has_links_def)
  then show ?thesis
    by (auto simp: dial_phase_ok_def dial_data_tunnel_and_relay_def split: option.split sum.split)
qed

lemma dial_link_exists:
  "dial_ok d ctx t \<Longrightarrow> \<exists>l \<in> set (cfg_links (cctx_config ctx)). link_id l = d_link t"
  by (auto simp: dial_ok_def allowed_link_def forward_link_def link_expects_reverse_def list_ex_iff
      split: option.splits)

lemma go_on_ok:
  assumes "dial_ok d ctx t" and "has_links (cctx_config ctx) st"
  shows "dial_ok d ctx (t\<lparr>d_phase := fst (go_on d ctx t st)\<rparr>)"
    and "has_links (cctx_config ctx) (snd (go_on d ctx t st))"
    and "st_control (snd (go_on d ctx t st)) = st_control st"
proof -
  have "dial_phase_ok d ctx (d_link t) n (dialled env lines
      (fst (dial_data_tunnel_and_relay (cd_snow d) (cd_hello d) ctx (d_link t) n env st)))" for n env lines
    by (rule dialled_ok [OF assms(2) dial_link_exists [OF assms(1)]])
  then have "dial_phase_ok d ctx (d_link t) (d_stream t) (dial_out d ctx t st)"
    by (cases "d_stream t") (simp_all add: dial_out_def dial_phase_ok_def [of _ _ _ _ "Gave_Up _"] Let_def split: option.split)
  then show "dial_ok d ctx (t\<lparr>d_phase := fst (go_on d ctx t st)\<rparr>)"
    using assms(1)
    by (cases "d_phase t") (auto simp: dial_ok_def go_on_def dial_phase_ok_def [of _ _ _ _ "Tunnel _ _"] split: list.split)
  show "has_links (cctx_config ctx) (snd (go_on d ctx t st))"
    "st_control (snd (go_on d ctx t st)) = st_control st"
    using assms(2)
    by (auto simp: go_on_def has_links_def count_dial_def split: dial_phase.split list.split)
qed

lemma streams_update:
  "k < length ts \<Longrightarrow> List.map_filter (\<lambda>t. map_option (Pair (d_link t)) (d_stream t)) (ts[k := (ts ! k)\<lparr>d_phase := ph\<rparr>]) =
     List.map_filter (\<lambda>t. map_option (Pair (d_link t)) (d_stream t)) ts"
proof (induction ts arbitrary: k)
  case (Cons t ts)
  then show ?case by (cases k) (simp_all add: map_filter_simps split: option.split)
qed simp

lemma streams_append:
  "List.map_filter f (xs @ ys) = List.map_filter f xs @ List.map_filter f ys"
  by (induction xs) (simp_all add: map_filter_simps split: option.split)

lemma turn_spawns:
  assumes "s' = client_turn d ctx send_ok e s"
  shows "spawned s' = spawned s @ drop (length (spawned s)) (spawned s')"
    and "\<forall>(i, n) \<in> set (spawned s). link_expects_reverse (cctx_config ctx) i \<Longrightarrow>
      \<forall>(i, n) \<in> set (spawned s'). link_expects_reverse (cctx_config ctx) i"
  using step_appends [of "cd_control d" send_ok "client_on_incoming (cctx_config ctx)" e s]
    step_spawned [OF client_spawns_only] assms
  by (auto simp: client_turn_def)

lemma opened_by_session:
  "map (\<lambda>t. (d_link t, d_stream t)) ts = map (\<lambda>(i, n). (i, Some n)) new \<Longrightarrow>
     List.map_filter (\<lambda>t. map_option (Pair (d_link t)) (d_stream t)) ts = new"
  by (induction ts arbitrary: new) (auto simp: map_filter_simps)

lemma session_turn_sound:
  assumes "client_sound d ctx sys" and "cl_session sys = Some s" and "s' = client_turn d ctx send_ok e s"
    and "length (spawned s') = length (spawned s) + length envs"
  shows "client_sound d ctx (session_turn s s' envs sys)"
proof -
  let ?new = "drop (length (spawned s)) (spawned s')" and ?sys = "session_turn s s' envs sys"
  obtain ts where ts: "cl_dials ?sys = cl_dials sys @ ts" "fresh_dials ts"
    "map (\<lambda>t. (d_link t, d_stream t)) ts = map (\<lambda>(i, n). (i, Some n)) ?new"
    using session_turn_dials [OF assms(4)] by blast
  have own: "\<forall>(i, n) \<in> set (spawned s'). link_expects_reverse (cctx_config ctx) i"
    using turn_spawns(2) [OF assms(3)] assms(1,2) by (simp add: client_sound_def)
  have "dial_ok d ctx t" if "t \<in> set ts" for t
  proof -
    have "(d_link t, d_stream t) \<in> (\<lambda>(i, n). (i, Some n)) ` set ?new"
      using ts(3) that by (metis (mono_tags, lifting) image_eqI list.set_map)
    then obtain n where "d_stream t = Some n" "(d_link t, n) \<in> set (spawned s')"
      by (auto dest: in_set_dropD)
    then show ?thesis using own ts(2) that by (auto simp: dial_ok_def allowed_link_def dial_phase_ok_def fresh_dials_def)
  qed
  moreover have "streams_opened ?sys = streams_opened sys @ ?new"
    using opened_by_session [OF ts(3)] ts(1) by (simp add: streams_opened_def streams_append)
  moreover have "announced_so_far ?sys = announced_so_far sys @ ?new"
    using turn_spawns(1) [OF assms(3)] assms(2) by (simp add: announced_so_far_def session_turn_def)
  ultimately show ?thesis
    using assms(1,2) own ts(1) by (auto simp: client_sound_def) (auto simp: session_turn_def)
qed

lemma dial_turn_sound:
  assumes "client_sound d ctx sys" and "k < length (cl_dials sys)"
  shows "client_sound d ctx (dial_turn d ctx k sys)"
proof -
  let ?t = "cl_dials sys ! k"
  obtain ph st where r: "go_on d ctx ?t (cl_state sys) = (ph, st)" by (cases "go_on d ctx ?t (cl_state sys)")
  have "dial_ok d ctx ?t" "has_links (cctx_config ctx) (cl_state sys)"
    using assms by (simp_all add: client_sound_def)
  note go = go_on_ok [OF this] and turn = dial_turn_def [of d ctx k sys]
  have "\<forall>t \<in> set ((cl_dials sys)[k := ?t\<lparr>d_phase := ph\<rparr>]). dial_ok d ctx t"
    using assms(1) go(1) r by (auto simp: client_sound_def dest: set_update_subset_insert [THEN subsetD])
  then show ?thesis
    using assms go(2,3) r streams_update [OF assms(2), of ph]
    by (simp add: client_sound_def turn streams_opened_def announced_so_far_def)
qed

lemma cl_step_sound:
  assumes "cl_step d ctx sys sys'" and "client_sound d ctx sys"
  shows "client_sound d ctx sys'"
  using assms(1)
proof (cases rule: cl_step.cases)
  case (Cl_Accept listeners addr i listen_addr peer env)
  then show ?thesis using assms(2) listener_forward_link
    by (auto simp: client_sound_def local_conn_def new_dial_def dial_ok_def allowed_link_def dial_phase_ok_def streams_opened_def streams_append
        announced_so_far_def map_filter_simps)
next
  case (Cl_Connect listeners addr env now_unix)
  then show ?thesis using assms(2)
    by (simp add: client_sound_def session_up_def set_status_def set_connected_def has_links_def
        streams_opened_def announced_so_far_def new_session_def)
next
  case (Cl_Session s e s' send_ok envs)
  then show ?thesis using session_turn_sound assms(2) by blast
next
  case (Cl_Down s)
  then show ?thesis using assms(2)
    by (simp add: client_sound_def session_down_def set_status_def set_disconnected_def has_links_def
        streams_opened_def announced_so_far_def)
next
  case (Cl_Turn k)
  then show ?thesis using dial_turn_sound assms(2) by blast
qed

lemma cl_reaches_sound: "cl_reaches d ctx sys \<Longrightarrow> client_sound d ctx sys"
proof (induction rule: cl_reaches.induct)
  case (Cl_Begin now_unix)
  show ?case
    by (simp add: client_sound_def start_client_def has_links_new streams_opened_def announced_so_far_def
        map_filter_simps) (simp add: new_state_def)
qed (rule cl_step_sound)

lemma cl_reaches_steps:
  "(cl_step d ctx)\<^sup>*\<^sup>* sys sys' \<Longrightarrow> cl_reaches d ctx sys \<Longrightarrow> cl_reaches d ctx sys'"
  by (induction rule: rtranclp_induct) (auto intro: Cl_Next)

subsection \<open>A dial that succeeds\<close>

text \<open>The tunnel to the server's data address is up and takes what is written to it.\<close>

definition tunnel_opens :: "'hs client_deps \<Rightarrow> client_ctx \<Rightarrow> 'hs dial_env \<Rightarrow> bool" where
  "tunnel_opens d ctx env \<longleftrightarrow> write_error env = None \<and>
     (case server_data_addr (cctx_config ctx) of None \<Rightarrow> False | Some addr \<Rightarrow> open_tunnel (cd_snow d) ctx addr env = None)"

definition relaying_dial ::
  "string \<Rightarrow> u64 option \<Rightarrow> socket_addr \<Rightarrow> 'hs dial_env \<Rightarrow> string \<Rightarrow> 'hs dial" where
  "relaying_dial i n peer env sent = (new_dial i n peer env)\<lparr>d_phase := Tunnel sent (relay_ops (dial_copied env))\<rparr>"

lemma dial_written:
  assumes "cl_reaches d ctx sys" and "allowed_link (cctx_config ctx) i n" and "tunnel_opens d ctx env"
    and "send_json (cd_hello d) \<lparr>hello_link_id = i, hello_stream_id = n\<rparr> = Inr sent"
    and "\<And>k. n = Some k \<Longrightarrow> stream_refused (cd_palette d) (cd_io_text d) ctx i k env = None"
  shows "dial_out d ctx (new_dial i n peer env) (cl_state sys) = Tunnel sent (relay_ops (dial_copied env))"
proof -
  have "\<exists>l \<in> set (cfg_links (cctx_config ctx)). link_id l = i"
    using assms(2) by (auto simp: allowed_link_def forward_link_def link_expects_reverse_def list_ex_iff split: option.splits)
  then have "st_links (cl_state sys) i \<noteq> None"
    using cl_reaches_sound [OF assms(1)] by (auto simp: client_sound_def has_links_def)
  then have "fst (dial_data_tunnel_and_relay (cd_snow d) (cd_hello d) ctx i n env (cl_state sys)) = Returns (Inr sent)"
    using assms(3,4) by (auto simp: tunnel_opens_def dial_data_tunnel_and_relay_def split: option.splits)
  then show ?thesis
    using assms(5) by (cases n) (simp_all add: dial_out_def new_dial_def Let_def)
qed

lemma new_dial_relays:
  assumes "cl_reaches d ctx sys" and "cl_step d ctx sys sys1"
    and "cl_dials sys1 = cl_dials sys @ [new_dial i n peer env]"
    and "allowed_link (cctx_config ctx) i n" and "tunnel_opens d ctx env"
    and "send_json (cd_hello d) \<lparr>hello_link_id = i, hello_stream_id = n\<rparr> = Inr sent"
    and "\<And>k. n = Some k \<Longrightarrow> stream_refused (cd_palette d) (cd_io_text d) ctx i k env = None"
  shows "\<exists>sys'. (cl_step d ctx)\<^sup>*\<^sup>* sys sys' \<and> cl_dials sys' = cl_dials sys @ [relaying_dial i n peer env sent]"
proof -
  let ?k = "length (cl_dials sys)"
  have "cl_reaches d ctx sys1" by (rule Cl_Next [OF assms(1,2)])
  from dial_written [OF this assms(4-7)]
  have "cl_dials (dial_turn d ctx ?k sys1) = cl_dials sys @ [relaying_dial i n peer env sent]"
    using assms(3) by (simp add: dial_turn_def go_on_def relaying_dial_def) (simp add: new_dial_def)
  moreover have "cl_step d ctx sys1 (dial_turn d ctx ?k sys1)" by (rule Cl_Turn) (simp add: assms(3))
  ultimately show ?thesis
    using assms(2) by (meson converse_rtranclp_into_rtranclp r_into_rtranclp)
qed

lemma local_conn_relays:
  assumes "cl_reaches d ctx sys" and "run_client (cctx_config ctx) = Some (listeners, addr)"
    and "(i, listen_addr) \<in> set listeners" and "tunnel_opens d ctx env"
    and "send_json (cd_hello d) \<lparr>hello_link_id = i, hello_stream_id = None\<rparr> = Inr sent"
  shows "\<exists>sys'. (cl_step d ctx)\<^sup>*\<^sup>* sys sys' \<and> cl_dials sys' = cl_dials sys @ [relaying_dial i None peer env sent]"
  by (rule new_dial_relays [OF assms(1) Cl_Accept [OF assms(2,3)]])
    (use listener_forward_link [OF assms(2,3)] assms(4,5) in \<open>simp_all add: local_conn_def allowed_link_def\<close>)

lemma announced_relays:
  assumes "cl_reaches d ctx sys" and "cl_session sys = Some s" and "alive s" and "recv_ph s = fresh_recv"
    and "json_reads_back to_json (cd_control d) (OpenStream i n)"
    and "send_json to_json (OpenStream i n) = Inr fr" and "link_expects_reverse (cctx_config ctx) i"
    and "stream_refused (cd_palette d) (cd_io_text d) ctx i n env = None" and "tunnel_opens d ctx env"
    and "send_json (cd_hello d) \<lparr>hello_link_id = i, hello_stream_id = Some n\<rparr> = Inr sent"
  shows "\<exists>sys'. (cl_step d ctx)\<^sup>*\<^sup>* sys sys' \<and> cl_dials sys' = cl_dials sys @ [relaying_dial i (Some n) peer env sent]"
proof -
  let ?s = "client_turn d ctx True (Arrive fr) s"
  have "send_all to_json [OpenStream i n] = Inr fr" using assms(6) by simp
  from whole_frames_step [OF this _ never_hangs_up_client assms(3,4)] assms(5)
  have s: "?s = handle_all True (client_on_incoming (cctx_config ctx)) [OpenStream i n] s"
    by (simp add: client_turn_def del: session_step.simps)
  then have new: "spawned ?s = spawned s @ [(i, n)]"
    using assms(7) by (simp add: handle_all_def)
  have "cl_step d ctx sys (session_turn s ?s [(peer, env)] sys)"
    by (rule Cl_Session [where e = "Arrive fr" and send_ok = True]) (simp_all add: assms(2) client_event_def new)
  from assms(1) this show ?thesis
    by (rule new_dial_relays) (use assms(7-10) in \<open>simp_all add: session_turn_def new allowed_link_def\<close>)
qed

end
