(* ===== verification/Examples.thy ===== *)
theory Examples
  imports Cli Ban_Window Metrics Tui_Screens Server_Tasks Client_Tasks
begin

section \<open>Concrete instances\<close>

text \<open>
  Small concrete functions for the parameters that stand for other crates (a base64-like text
  encoding, a handshake, message texts), and a configuration of each role. The theorems of the
  development are applied to them, which shows that their hypotheses can hold.
\<close>

subsection \<open>A text encoding of bytes\<close>

fun hex_enc :: "bytes \<Rightarrow> string" where
  "hex_enc [] = []"
| "hex_enc (b # bs) = char_of (65 + unat b div 16) # char_of (65 + unat b mod 16) # hex_enc bs"

fun hex_dec :: "string \<Rightarrow> string + bytes" where
  "hex_dec [] = Inr []"
| "hex_dec [c] = Inl ''odd length''"
| "hex_dec (c # d # s) =
     (case hex_dec s of Inl e \<Rightarrow> Inl e
      | Inr bs \<Rightarrow> Inr (of_nat ((byte c - 65) * 16 + (byte d - 65)) # bs))"

lemma hex_dec_enc: "hex_dec (hex_enc bs) = Inr bs"
proof (induction bs)
  case (Cons b bs)
  have "unat b < 256" by (rule unat_u8)
  then have "65 + unat b div 16 < 256" "65 + unat b mod 16 < 256" by linarith+
  then show ?case using Cons by (simp add: byte_char_of)
qed simp

lemma hex_enc_range: "c \<in> set (hex_enc bs) \<Longrightarrow> 65 \<le> byte c \<and> byte c \<le> 80"
proof (induction bs)
  case (Cons b bs)
  have "unat b < 256" by (rule unat_u8)
  then have "unat b div 16 \<le> 15" "unat b mod 16 \<le> 15" by linarith+
  then show ?case using Cons by (auto simp: byte_char_of)
qed simp

lemma ws_head_range: "65 \<le> byte c \<Longrightarrow> byte c \<le> 80 \<Longrightarrow> ws_head (c # s) = 0"
  by (rule ws_head_ascii) (simp_all add: ws1_def)

lemma ws_last_range: "65 \<le> byte c \<Longrightarrow> byte c \<le> 80 \<Longrightarrow> ws_last (c # s) = 0"
  by (cases "c # s" rule: ws_last.cases) (auto simp: ws1_def ws2_def ws3_def)

lemma newline_ws: "ws_head [CHR 10] = 1" "ws_last (CHR 10 # s) = 1"
  by (simp_all add: ws1_def byte_def) (cases s rule: ws_last.cases; simp add: ws1_def byte_def)

lemma trim_last_stop: "ws_last s = 0 \<Longrightarrow> trim_last s = s"
  by (subst trim_last.simps) simp

lemma trim_start_stop: "ws_head s = 0 \<Longrightarrow> trim_start s = s"
  by (subst trim_start.simps) simp

lemma trim_last_newline: "trim_last (CHR 10 # s) = trim_last s"
  by (subst trim_last.simps) (simp only: newline_ws, simp)

lemma trim_start_newline: "trim_start [CHR 10] = []"
  by (subst trim_start.simps) (simp only: newline_ws, simp add: trim_start_stop)

lemma trim_hex: "trim (hex_enc bs @ [CHR 10]) = hex_enc bs"
proof (cases "hex_enc bs")
  case Nil
  have "trim [CHR 10] = []"
    by (simp only: trim_def trim_start_newline, simp add: trim_last_stop)
  then show ?thesis by (simp only: Nil append_Nil)
next
  case (Cons c cs)
  then have c: "65 \<le> byte c" "byte c \<le> 80" using hex_enc_range [of c bs] by simp_all
  have st: "trim_start (hex_enc bs @ [CHR 10]) = hex_enc bs @ [CHR 10]"
    by (rule trim_start_stop) (simp only: Cons append_Cons ws_head_range [OF c])
  obtain d ds where r: "rev (hex_enc bs) = d # ds" using Cons by (cases "rev (hex_enc bs)") simp_all
  then have "d \<in> set (hex_enc bs)" by (metis list.set_intros(1) set_rev)
  then have "ws_last (d # ds) = 0" using hex_enc_range ws_last_range by blast
  then have "trim_last (rev (hex_enc bs @ [CHR 10])) = rev (hex_enc bs)"
    by (simp only: rev_append rev.simps append_Nil append_Cons trim_last_newline r trim_last_stop)
  then show ?thesis by (simp only: trim_def st rev_rev_ident)
qed

lemma utf8_hex [simp]: "utf8 (hex_enc bs)"
  using hex_enc_range by (intro utf8_ascii) (fastforce simp: list_all_iff)

lemma hex_lawful: "b64_lawful hex_enc hex_dec"
  by (simp add: b64_lawful_def hex_dec_enc trim_hex)

subsection \<open>A handshake\<close>

text \<open>The first message is the writer's key; a responder accepts the key it was built for.\<close>

definition key_msg :: "bytes \<Rightarrow> string" where
  "key_msg k = map (\<lambda>b. char_of (unat b)) k"

definition msg_key :: "string \<Rightarrow> bytes" where
  "msg_key m = map (\<lambda>c. of_nat (byte c)) m"

definition demo_snow :: "(bytes \<times> bytes) snow" where
  "demo_snow =
     \<lparr>build_initiator = (\<lambda>k pub. Inr (k, pub)), build_responder = (\<lambda>k pub. Inr (k, pub)),
      read_message = (\<lambda>st m. if m = key_msg (snd st) then Some st else None)\<rparr>"

definition demo_finish :: "(bytes \<times> bytes) finisher" where
  "demo_finish st rest = Inr rest"

lemma msg_key_key_msg: "msg_key (key_msg k) = k"
proof (induction k)
  case (Cons b k)
  have "unat b < 256" by (rule unat_u8)
  then show ?case using Cons by (simp add: msg_key_def key_msg_def byte_char_of)
qed (simp add: msg_key_def key_msg_def)

lemma demo_authentic: "kk_authentic demo_snow (\<lambda>m. Some (msg_key m))"
  by (simp add: kk_authentic_def demo_snow_def msg_key_key_msg)

subsection \<open>Message texts\<close>

fun hello_text :: "stream_hello writer" where
  "hello_text h = Inr (case hello_stream_id h of None \<Rightarrow> CHR ''F'' # hello_link_id h
                       | Some n \<Rightarrow> CHR ''R'' # hello_link_id h)"

definition hello_of_text :: "stream_hello reader" where
  "hello_of_text s =
     (case s of [] \<Rightarrow> Inl ''empty''
      | c # i \<Rightarrow> Inr \<lparr>hello_link_id = i, hello_stream_id = (if c = CHR ''F'' then None else Some 1)\<rparr>)"

fun control_text :: "control_message writer" where
  "control_text Ping = Inr ''Ping''"
| "control_text Pong = Inr (quoted ''Pong'')"
| "control_text (OpenStream i n) = Inr (CHR ''O'' # i)"

definition control_of_text :: "control_message reader" where
  "control_of_text s =
     (if s = ''Ping'' then Inr Ping else if s = quoted ''Pong'' then Inr Pong
      else case s of [] \<Rightarrow> Inl ''empty'' | c # i \<Rightarrow> Inr (OpenStream i 1))"

definition demo_io_text :: "io_error \<Rightarrow> string" where
  "demo_io_text e = (case e of Unexpected_Eof \<Rightarrow> ''early eof'' | Invalid_Data \<Rightarrow> ''invalid data''
     | Timed_Out s \<Rightarrow> s | Other s \<Rightarrow> s)"

definition no_unicode_digit :: "string \<Rightarrow> nat" where
  "no_unicode_digit s = 0"

definition no_colour :: palette where
  "no_colour = \<lparr>acid_green = [], orange = [], red = [], cyan = [], reset = [], bold = []\<rparr>"

lemma no_colour_sgr:
  "is_sgr (orange no_colour) \<and> is_sgr (red no_colour) \<and> is_sgr (reset no_colour)"
  by (simp add: no_colour_def is_sgr_def)

subsection \<open>Configurations\<close>

definition laptop_key :: bytes where
  "laptop_key = replicate 32 1"

definition server_key :: bytes where
  "server_key = replicate 32 2"

definition web_link :: link_config where
  "web_link = \<lparr>link_id = ''web'', link_mode = Forward, link_transport = Tcp, link_listen = None,
     link_target = Some ''127.0.0.1:80''\<rparr>"

definition dev_link :: link_config where
  "dev_link = \<lparr>link_id = ''dev'', link_mode = Reverse, link_transport = Tcp,
     link_listen = Some ''0.0.0.0:8080'', link_target = None\<rparr>"

definition dns_link :: link_config where
  "dns_link = \<lparr>link_id = ''dns'', link_mode = Forward, link_transport = Udp, link_listen = None,
     link_target = Some ''127.0.0.1:80''\<rparr>"

text \<open>A reverse link that is not the laptop's.\<close>

definition ops_link :: link_config where
  "ops_link = \<lparr>link_id = ''ops'', link_mode = Reverse, link_transport = Tcp,
     link_listen = Some ''0.0.0.0:8080'', link_target = None\<rparr>"

definition laptop :: peer_config where
  "laptop = \<lparr>peer_name = ''laptop'', peer_key = hex_enc laptop_key, peer_links = [''web'', ''dev'', ''dns'']\<rparr>"

definition demo_server :: config where
  "demo_server = \<lparr>cfg_role = Server, private_key_path = ''/k/id'', peer_public_key = None,
     cfg_peers = [laptop], listen_control = Some ''0.0.0.0:9000'', listen_data = Some ''0.0.0.0:9001'',
     listen_udp = Some ''0.0.0.0:9000'', server_control_addr = None, server_data_addr = None, server_udp_addr = None,
     cfg_links = [web_link, dev_link, dns_link, ops_link]\<rparr>"

lemma demo_addrs:
  "parse_socket_addr ''127.0.0.1:80'' = Some (SocketV4 127 0 0 1 80)"
  "parse_socket_addr ''0.0.0.0:8080'' = Some (SocketV4 0 0 0 0 8080)"
  "parse_socket_addr ''0.0.0.0:9000'' = Some (SocketV4 0 0 0 0 9000)"
  "parse_socket_addr ''0.0.0.0:9001'' = Some (SocketV4 0 0 0 0 9001)"
  using parse_show_socket_v4 [of 127 0 0 1 80] parse_show_socket_v4 [of 0 0 0 0 8080]
    parse_show_socket_v4 [of 0 0 0 0 9000] parse_show_socket_v4 [of 0 0 0 0 9001]
  by (simp_all add: show_v4_def show_word_def show_nat.simps digit_chars)

lemma demo_key: "decode_public_key hex_dec (hex_enc laptop_key) = Inr laptop_key"
  using decode_encode [OF hex_lawful, of laptop_key] by (simp add: encode_public_key_def laptop_key_def)

text \<open>The other end: the laptop's own configuration.\<close>

definition demo_client :: config where
  "demo_client = \<lparr>cfg_role = Client, private_key_path = ''/k/id'',
     peer_public_key = Some (hex_enc server_key), cfg_peers = [], listen_control = None,
     listen_data = None, listen_udp = None, server_control_addr = Some ''0.0.0.0:9000'',
     server_data_addr = Some ''0.0.0.0:9001'', server_udp_addr = Some ''0.0.0.0:9000'',
     cfg_links = [web_link\<lparr>link_listen := Some ''0.0.0.0:8080'', link_target := None\<rparr>,
       dev_link\<lparr>link_listen := None, link_target := Some ''127.0.0.1:80''\<rparr>,
       dns_link\<lparr>link_listen := Some ''0.0.0.0:8080'', link_target := None\<rparr>]\<rparr>"

lemma demo_client_key: "decode_public_key hex_dec (hex_enc server_key) = Inr server_key"
  using decode_encode [OF hex_lawful, of server_key] by (simp add: encode_public_key_def server_key_def)

lemma demo_client_valid: "valid_config hex_dec demo_client"
  by (simp add: valid_config_def valid_role_def valid_udp_def valid_link_def valid_addr_def
      link_needs_listen_def demo_client_def web_link_def dev_link_def dns_link_def demo_addrs
      demo_client_key)

definition demo_client_ctx :: client_ctx where
  "demo_client_ctx = \<lparr>cctx_config = demo_client, cctx_private_key = laptop_key,
     cctx_peer_key = server_key\<rparr>"

lemma demo_server_valid: "valid_config hex_dec demo_server"
  by (simp add: valid_config_def valid_role_def valid_peers_def decoded_keys_def valid_udp_def
      valid_link_def valid_addr_def link_needs_listen_def demo_server_def laptop_def web_link_def
      dev_link_def dns_link_def ops_link_def demo_addrs demo_key)

definition laptop_peer :: resolved_peer where
  "laptop_peer = \<lparr>rp_name = ''laptop'', rp_public_key = laptop_key, rp_links = {''web'', ''dev'', ''dns''}\<rparr>"

lemma demo_resolved: "resolve_peers hex_dec (cfg_peers demo_server) = Inr [laptop_peer]"
  by (simp add: demo_server_def laptop_def laptop_peer_def demo_key)

definition demo_ctx :: server_ctx where
  "demo_ctx = \<lparr>sctx_config = demo_server, sctx_private_key = server_key, sctx_peers = [laptop_peer]\<rparr>"

definition demo_uctx :: udp_server_ctx where
  "demo_uctx = \<lparr>uctx_config = demo_server, uctx_private_key = server_key, uctx_peers = [laptop_peer]\<rparr>"

text \<open>A store with the configuration and the key, and the daemon it starts.\<close>

definition demo_toml :: "string \<Rightarrow> string + config" where
  "demo_toml s = Inr demo_server"

definition demo_store :: fs where
  "demo_store = \<lparr>fs_files = [''/c'' \<mapsto> \<lparr>f_data = ''cfg'', f_mode = 420\<rparr>,
      ''/k/id'' \<mapsto> \<lparr>f_data = hex_enc server_key @ [CHR 10], f_mode = 384\<rparr>],
     fs_dirs = Map.empty, fs_new_mode = 420\<rparr>"

lemma demo_load: "load demo_toml willing ''/c'' demo_store = Inr demo_server"
  by (simp add: load_def read_to_string_def willing_def demo_store_def demo_toml_def byte_def)

lemma demo_private: "load_private_key hex_dec willing (private_key_path demo_server) demo_store = Inr server_key"
  using decode_encode [OF hex_lawful, of server_key]
  by (simp add: load_private_key_def read_to_string_def willing_def demo_store_def demo_server_def
      trim_hex encode_public_key_def server_key_def)

lemma demo_started:
  "start_daemon hex_dec demo_toml willing ''/c'' demo_store = Server_Started demo_ctx demo_uctx"
proof -
  have "validate hex_dec demo_server = []" by (simp add: validate_Nil_iff demo_server_valid)
  then show ?thesis
    using demo_resolved
    by (simp add: start_daemon_def demo_load demo_private start_role_def demo_ctx_def demo_uctx_def)
      (simp add: demo_server_def)
qed

subsection \<open>One data connection\<close>

definition demo_hello :: stream_hello where
  "demo_hello = \<lparr>hello_link_id = ''web'', hello_stream_id = None\<rparr>"

definition demo_bytes :: string where
  "demo_bytes = [char_of (32::nat), char_of (0::nat)] @ key_msg laptop_key @
     u32_le 4 @ CHR ''F'' # ''web''"

definition demo_env :: "nat conn_env" where
  "demo_env = \<lparr>env_bytes = demo_bytes, handshake_in_time = True, hello_in_time = True,
     env_dial = (\<lambda>addr. Inr 7), env_copied = Inr (3, 5)\<rparr>"

definition demo_srv :: "nat server" where
  "demo_srv = \<lparr>srv_limiter = new_limiter, srv_streams = start_streams 0,
     srv_state = new_state 100 demo_server\<rparr>"

lemma laptop_match:
  "match_peer demo_snow ([char_of (32::nat), char_of (0::nat)] @ key_msg laptop_key @ rest) server_key [laptop_peer] =
     (Inr (0, (server_key, laptop_key)), rest)"
proof -
  have "length (key_msg laptop_key) = 32" by (simp add: key_msg_def laptop_key_def)
  moreover have "le_val [char_of (32::nat), char_of (0::nat)] = 32" by (simp add: byte_char_of)
  ultimately show ?thesis
    by (simp add: match_peer_def match_peer_bytes_def responder_def demo_snow_def laptop_peer_def)
qed

lemma demo_match:
  "match_peer demo_snow demo_bytes server_key [laptop_peer] =
     (Inr (0, (server_key, laptop_key)), u32_le 4 @ CHR ''F'' # ''web'')"
  unfolding demo_bytes_def by (rule laptop_match)

lemma demo_handshake:
  "data_handshake demo_snow demo_finish demo_io_text demo_ctx (handshake_in_time demo_env) (env_bytes demo_env) =
     Inr (0, (u32_le 4 @ ''Fweb'') @ [])"
  by (simp add: data_handshake_def server_handshake_def demo_ctx_def demo_env_def demo_match demo_finish_def)

lemma demo_recv: "recv_json hello_of_text (u32_le 4 @ CHR ''F'' # ''web'') = Inr (demo_hello, [])"
proof -
  have "le_val (u32_le 4) = 4" by (simp add: le_val_u32_le)
  then show ?thesis
    by (simp add: recv_json_def max_message_len_def parse_body_def hello_of_text_def demo_hello_def)
qed

definition demo_deps :: "(bytes \<times> bytes) deps" where
  "demo_deps = \<lparr>dep_palette = no_colour, dep_snow = demo_snow, dep_finish = demo_finish,
     dep_io_text = demo_io_text, dep_hello = hello_of_text\<rparr>"

lemma demo_srv_start: "demo_srv = start_server demo_ctx 0 100"
  by (simp add: demo_srv_def start_server_def demo_ctx_def)

lemma demo_srv_run: "server_reaches demo_deps demo_ctx demo_srv"
  unfolding demo_srv_start by (rule server_reaches.Begin)

lemma demo_srv_reached:
  obtains sys where "sys_reaches demo_deps demo_ctx sys" and "demo_srv = sys_server sys"
  using runs_interleave [OF demo_srv_run] by fastforce

subsection \<open>One UDP session\<close>

definition demo_datagram :: recv_event where
  "demo_datagram = \<lparr>ev_t1 = 0, ev_t2 = 0, ev_src = SocketV4 203 0 113 9 5000,
     ev_bytes = key_msg laptop_key\<rparr>"

definition demo_udp_env :: "(bytes \<times> bytes) udp_env" where
  "demo_udp_env = \<lparr>reply_error = (\<lambda>_. None), first_packet = In_Time (Inr (CHR ''F'' # ''dns'')),
     bind_target_error = None, connect_target_error = (\<lambda>_. None)\<rparr>"

lemma demo_udp_opened:
  "snd (server_datagram demo_snow demo_uctx demo_datagram new_udp_server) =
     Some (SocketV4 203 0 113 9 5000, 0, (server_key, laptop_key))"
  by (simp add: server_datagram_def demo_datagram_def new_udp_server_def try_acquire_def pruned_def
      attempts_of_def new_limiter_def max_attempts_per_window_def max_concurrent_handshakes_def
      match_peer_bytes_def responder_def demo_snow_def demo_uctx_def laptop_peer_def Let_def)

lemma demo_udp_serving:
  "run_session hello_of_text demo_server (SocketV4 203 0 113 9 5000) laptop_peer
     (server_key, laptop_key) demo_udp_env = Serving ''dns'' ''127.0.0.1:80''"
  by (simp add: run_session_def demo_udp_env_def hello_of_text_def udp_hello_def demo_server_def
      web_link_def dev_link_def dns_link_def laptop_peer_def serve_udp_link_def)

subsection \<open>Control messages\<close>

lemma demo_messages:
  "json_reads_back control_text control_of_text Ping"
  "json_reads_back control_text control_of_text (OpenStream ''dev'' 1)"
  by (simp_all add: json_reads_back_def control_of_text_def quoted_def max_message_len_def)

subsection \<open>A reverse stream that waits to be claimed\<close>

definition demo_streams :: "nat streams" where
  "demo_streams = send_open ''dev'' 1 (insert_pending ''dev'' 1 7 (accept_conn ''dev'' 7 (start_streams 0)))"

definition demo_waiting :: "nat server" where
  "demo_waiting = demo_srv\<lparr>srv_streams := demo_streams\<rparr>"

definition demo_claim :: stream_hello where
  "demo_claim = \<lparr>hello_link_id = ''dev'', hello_stream_id = Some 1\<rparr>"

lemma demo_streams_fields:
  "pending demo_streams = [1 \<mapsto> 7]" "accepted demo_streams = [(1, ''dev'', 7)]"
  "claimed demo_streams = []" "timers demo_streams = [(1, int claim_timeout)]"
  "queued (open_stream demo_streams) = [OpenStream ''dev'' 1]" "signalled demo_streams = []"
  by (simp_all add: demo_streams_def streams_defs try_send_def channel_def)

lemma demo_streams_reached: "streams_step (start_streams 0) (accept_conn ''dev'' (7::nat) (start_streams 0))"
  "streams_step (accept_conn ''dev'' (7::nat) (start_streams 0))
     (insert_pending ''dev'' 1 7 (accept_conn ''dev'' 7 (start_streams 0)))"
  "streams_step (insert_pending ''dev'' 1 (7::nat) (accept_conn ''dev'' 7 (start_streams 0))) demo_streams"
  unfolding demo_streams_def
  by (rule streams_step.intros; simp add: streams_defs)+

lemma demo_waiting_run: "server_reaches demo_deps demo_ctx demo_waiting"
proof -
  let ?at = "\<lambda>s. demo_srv\<lparr>srv_streams := s\<rparr>"
  have step: "server_reaches demo_deps demo_ctx (?at s')"
    if "server_reaches demo_deps demo_ctx (?at s)" and "streams_step s s'" for s s'
    using server_reaches.Next [OF that(1) server_step.Streams, of s'] that(2) by simp
  have "?at (start_streams 0) = demo_srv" by (simp add: demo_srv_def)
  then have "server_reaches demo_deps demo_ctx (?at (start_streams 0))" using demo_srv_run by simp
  from step [OF step [OF step [OF this demo_streams_reached(1)] demo_streams_reached(2)]
      demo_streams_reached(3)]
  show ?thesis by (simp add: demo_waiting_def)
qed

lemma demo_waiting_reached:
  obtains sys where "sys_reaches demo_deps demo_ctx sys" and "demo_waiting = sys_server sys"
  using runs_interleave [OF demo_waiting_run] by fastforce

text \<open>The same peer asking for the stream that waits, and a task for each kind of link.\<close>

definition claim_env :: "nat conn_env" where
  "claim_env = demo_env\<lparr>env_bytes := [char_of (32::nat), char_of (0::nat)] @ key_msg laptop_key @
     u32_le 4 @ ''Rdev''\<rparr>"

lemma claim_handshake:
  "data_handshake demo_snow demo_finish demo_io_text demo_ctx (handshake_in_time claim_env) (env_bytes claim_env) =
     Inr (0, u32_le 4 @ ''Rdev'')"
proof -
  have "match_peer demo_snow (env_bytes claim_env) server_key [laptop_peer] =
      (Inr (0, (server_key, laptop_key)), u32_le 4 @ ''Rdev'')"
    using laptop_match by (simp add: claim_env_def)
  then show ?thesis
    by (simp add: data_handshake_def server_handshake_def demo_ctx_def demo_finish_def)
      (simp add: claim_env_def demo_env_def)
qed

lemma claim_recv: "recv_json hello_of_text (u32_le 4 @ ''Rdev'') = Inr (demo_claim, [])"
proof -
  have "le_val (u32_le 4) = 4" by (simp add: le_val_u32_le)
  then show ?thesis
    by (simp add: recv_json_def max_message_len_def parse_body_def hello_of_text_def demo_claim_def)
qed

lemma demo_permit: "fst (try_acquire 0 0 (ip_of (SocketV4 203 0 113 9 5000)) (srv_limiter demo_srv))"
  by (simp add: try_acquire_def demo_srv_def new_limiter_def pruned_def attempts_of_def
      max_attempts_per_window_def max_concurrent_handshakes_def)

lemma demo_web_hello:
  "fst (handle_hello demo_server laptop_peer demo_hello demo_env demo_srv) = Relayed ''web'' 7"
  using has_links_new [of demo_server 100]
  by (auto simp: handle_hello_def demo_hello_def laptop_peer_def demo_server_def web_link_def
      serve_forward_def demo_env_def has_links_def demo_srv_def)

lemma demo_parts: "sctx_config demo_ctx = demo_server" "sctx_peers demo_ctx ! 0 = laptop_peer"
  by (simp_all add: demo_ctx_def)

lemma demo_dep_fields: "dep_snow demo_deps = demo_snow" "dep_finish demo_deps = demo_finish"
  "dep_io_text demo_deps = demo_io_text" "dep_hello demo_deps = hello_of_text"
  by (simp_all add: demo_deps_def)

lemma demo_relaying:
  obtains sys t left where "sys_reaches demo_deps demo_ctx sys" and "t \<in> set (sys_tasks sys)"
    and "task_phase t = Relay ''web'' 7 left" and "task_env t = demo_env"
proof -
  obtain sys where sys: "sys_reaches demo_deps demo_ctx sys" "demo_srv = sys_server sys"
    by (rule demo_srv_reached)
  have "hello_in_time demo_env" by (simp add: demo_env_def)
  then obtain sys' where "(sys_step demo_deps demo_ctx)\<^sup>*\<^sup>* sys sys'" "sys_tasks sys' = sys_tasks sys @
      [\<lparr>task_addr = SocketV4 203 0 113 9 5000, task_env = demo_env,
         task_phase = Relay ''web'' 7 (relay_ops (env_copied demo_env))\<rparr>]"
    using relay_starts [of 0 0 "SocketV4 203 0 113 9 5000" sys demo_deps demo_ctx demo_env 0
        "u32_le 4 @ ''Fweb''" demo_hello "[]" "''web''" 7] demo_permit demo_handshake demo_recv demo_web_hello
    unfolding demo_dep_fields demo_parts sys(2) append_Nil2 by blast
  then show ?thesis using reaches_steps [OF _ sys(1)] by (intro that) auto
qed

text \<open>The first of them seen to its end.\<close>

lemma demo_finished:
  obtains sys t where "sys_reaches demo_deps demo_ctx sys" and "t \<in> set (sys_tasks sys)"
    and "task_phase t = Finished (Relayed ''web'' 7)" and "task_env t = demo_env"
proof -
  obtain sys where sys: "sys_reaches demo_deps demo_ctx sys" "demo_srv = sys_server sys"
    by (rule demo_srv_reached)
  let ?task = "\<lambda>ph. \<lparr>task_addr = SocketV4 203 0 113 9 5000, task_env = demo_env, task_phase = ph\<rparr>"
  obtain lim where a: "try_acquire 0 0 (ip_of (SocketV4 203 0 113 9 5000)) (srv_limiter demo_srv) = (True, lim)"
    using demo_permit by (metis prod.collapse)
  then have arrived: "arrive Handshake 0 0 (SocketV4 203 0 113 9 5000) demo_env sys =
      \<lparr>sys_server = demo_srv\<lparr>srv_limiter := lim\<rparr>, sys_tasks = sys_tasks sys @ [?task Handshake]\<rparr>"
    by (simp add: arrive_def flip: sys(2))
  obtain srv' where "settle demo_deps demo_ctx demo_env 8 (Handshake, demo_srv\<lparr>srv_limiter := lim\<rparr>) =
      (Finished (Relayed ''web'' 7), srv')"
  proof -
    have "fst (handle_data_connection demo_snow demo_finish demo_io_text hello_of_text demo_ctx demo_env
        (demo_srv\<lparr>srv_limiter := lim\<rparr>)) = Relayed ''web'' 7"
      using demo_handshake demo_recv demo_web_hello
        hello_ignores_limiter(1) [of "drop_permit (demo_srv\<lparr>srv_limiter := lim\<rparr>)" demo_srv]
      by (simp add: handle_data_connection_def Let_def demo_parts drop_permit_def)
        (simp add: demo_env_def)
    then show ?thesis using that
      by (cases "handle_data_connection demo_snow demo_finish demo_io_text hello_of_text demo_ctx demo_env
        (demo_srv\<lparr>srv_limiter := lim\<rparr>)") (simp add: task_alone demo_dep_fields)
  qed
  from turns_settle [OF Sys_Next [OF sys(1) Sys_Data, of 0 0 "SocketV4 203 0 113 9 5000" demo_env,
      unfolded arrived] this] show ?thesis
    by (rule that [of _ "?task (Finished (Relayed ''web'' 7))"]) simp_all
qed

lemma claim_relaying:
  obtains sys left where "sys_reaches demo_deps demo_ctx sys"
    and "sys_tasks sys \<noteq> []" and "task_phase (last (sys_tasks sys)) = Relay ''dev'' 7 left"
    and "task_env (last (sys_tasks sys)) = claim_env"
    and "accepted (srv_streams (sys_server sys)) = [(1, ''dev'', 7)]"
proof -
  obtain sys where sys: "sys_reaches demo_deps demo_ctx sys" "demo_waiting = sys_server sys"
    by (rule demo_waiting_reached)
  have "fst (try_acquire 0 0 (ip_of (SocketV4 203 0 113 9 5000)) (srv_limiter demo_waiting))"
    using demo_permit by (simp add: demo_waiting_def)
  moreover have "fst (handle_hello demo_server laptop_peer demo_claim claim_env demo_waiting) = Relayed ''dev'' 7"
    by (simp add: handle_hello_def demo_claim_def laptop_peer_def demo_server_def web_link_def
        dev_link_def serve_reverse_def claim_stream_def demo_waiting_def demo_streams_fields
        demo_srv_def new_state_links)
  moreover have "hello_in_time claim_env" by (simp add: claim_env_def demo_env_def)
  ultimately obtain sys' where "(sys_step demo_deps demo_ctx)\<^sup>*\<^sup>* sys sys'" "sys_tasks sys' = sys_tasks sys @
      [\<lparr>task_addr = SocketV4 203 0 113 9 5000, task_env = claim_env,
         task_phase = Relay ''dev'' 7 (relay_ops (env_copied claim_env))\<rparr>]"
    and "accepted (srv_streams (sys_server sys')) = accepted (srv_streams demo_waiting)"
    using relay_starts [of 0 0 "SocketV4 203 0 113 9 5000" sys demo_deps demo_ctx claim_env 0
        "u32_le 4 @ ''Rdev''" demo_claim "[]" "''dev''" 7] claim_handshake claim_recv
    unfolding demo_dep_fields demo_parts sys(2) by blast
  then show ?thesis using reaches_steps [OF _ sys(1)]
    by (intro that) (auto simp: demo_waiting_def demo_streams_fields)
qed

lemma claim_hello: "hello_of demo_deps demo_ctx claim_env = Some demo_claim"
  using claim_handshake claim_recv by (simp add: hello_of_def demo_deps_def)

lemma demo_room: "Suc (length (accepted (srv_streams demo_waiting))) < id_space"
  by (simp add: demo_waiting_def demo_streams_fields id_space_def)

text \<open>The same for the link that is not the laptop's.\<close>

definition ops_streams :: "nat streams" where
  "ops_streams = send_open ''ops'' 1 (insert_pending ''ops'' 1 9 (accept_conn ''ops'' 9 (start_streams 0)))"

lemma ops_streams_fields: "pending ops_streams = [1 \<mapsto> 9]" "accepted ops_streams = [(1, ''ops'', 9)]"
  by (simp_all add: ops_streams_def streams_defs try_send_def channel_def)

subsection \<open>Eleven attempts from one address\<close>

definition demo_ip :: ip_addr where
  "demo_ip = V4 203 0 113 9"

definition demo_attempts :: "lim_event list" where
  "demo_attempts = map (\<lambda>k. Acquire (int k) (int k) demo_ip) [0..<10] @
     [Acquire (2 * int window) (2 * int window) demo_ip]"

lemma demo_attempts_clocked: "clocked 0 demo_attempts"
  by (simp add: demo_attempts_def window_def secs_def upt_rec)

lemma demo_attempts_counted: "length (history (run demo_attempts) demo_ip) = 11"
  by (simp add: demo_attempts_def upt_rec run_def start_run_def try_acquire_def under_limit_def
      pruned_def attempts_of_def new_limiter_def limiter_stale_def window_def secs_def
      max_attempts_per_window_def max_concurrent_handshakes_def Let_def)

subsection \<open>A connection that fails\<close>

definition late_env :: "nat conn_env" where
  "late_env = demo_env\<lparr>handshake_in_time := False\<rparr>"

lemma late_failed:
  obtains logged srv' where "accept_data demo_deps demo_ctx 0 0 (SocketV4 203 0 113 9 5000) late_env demo_srv =
    (Some (Failed (Timed_Out ''handshake timed out'')), logged, srv')"
proof -
  have "fst (accept_data demo_deps demo_ctx 0 0 (SocketV4 203 0 113 9 5000) late_env demo_srv) =
      Some (Failed (Timed_Out ''handshake timed out''))"
    by (simp add: accept_data_def data_accept_def try_acquire_def demo_srv_def new_limiter_def
        pruned_def attempts_of_def max_attempts_per_window_def max_concurrent_handshakes_def
        handle_data_connection_def data_handshake_def late_env_def Let_def)
  then show ?thesis using that by (metis prod.collapse)
qed

definition demo_traffic :: "(duration \<times> relay_event) list" where
  "demo_traffic = [(5, From_Near ''query''), (7, From_Far ''answer'')]"

subsection \<open>The client\<close>

definition client_store :: fs where
  "client_store = \<lparr>fs_files = [''/c'' \<mapsto> \<lparr>f_data = ''cfg'', f_mode = 420\<rparr>,
      ''/k/id'' \<mapsto> \<lparr>f_data = hex_enc laptop_key @ [CHR 10], f_mode = 384\<rparr>],
     fs_dirs = Map.empty, fs_new_mode = 420\<rparr>"

definition client_toml :: "string \<Rightarrow> string + config" where
  "client_toml s = Inr demo_client"

lemma demo_client_started:
  "start_daemon hex_dec client_toml willing ''/c'' client_store =
     Client_Started demo_client_ctx"
proof -
  have "load client_toml willing ''/c'' client_store = Inr demo_client"
    by (simp add: load_def read_to_string_def willing_def client_store_def client_toml_def byte_def)
  moreover have "load_private_key hex_dec willing (private_key_path demo_client) client_store = Inr laptop_key"
    using decode_encode [OF hex_lawful, of laptop_key]
    by (simp add: load_private_key_def read_to_string_def willing_def client_store_def demo_client_def
        trim_hex encode_public_key_def laptop_key_def)
  moreover have "validate hex_dec demo_client = []" by (simp add: validate_Nil_iff demo_client_valid)
  ultimately show ?thesis
    by (simp add: start_daemon_def start_role_def demo_client_ctx_def)
      (simp add: demo_client_def demo_client_key)
qed

definition demo_dial :: "(bytes \<times> bytes) dial_env" where
  "demo_dial = \<lparr>connect_error = (\<lambda>_. None), noise_error = (\<lambda>_. None), noise_in_time = True,
     write_error = None, dial_copied = Inr (3, 5)\<rparr>"

definition demo_flow :: "(bytes \<times> bytes) flow_env" where
  "demo_flow = \<lparr>open_error = None, tunnel_error = (\<lambda>_. None), flow_noise = (\<lambda>_. In_Time None),
     send_error = (\<lambda>_. False)\<rparr>"

subsection \<open>Key files and the status socket\<close>

definition demo_pair :: keypair where
  "demo_pair = \<lparr>kp_private = server_key, kp_public = laptop_key\<rparr>"

lemma demo_keygen:
  obtains ls s' where "run_keygen no_colour hex_enc (\<lambda>_. []) willing None ''/k/id'' demo_pair demo_store =
    (Success, ls, Inr s')"
proof -
  have "\<exists>ls s'. run_keygen no_colour hex_enc (\<lambda>_. []) willing None ''/k/id'' demo_pair demo_store =
    (Success, ls, Inr s')"
    by (simp add: run_keygen_def save_private_key_def save_public_key_def write_base64_line_def
        expand_tilde_def public_key_path_def parent_def strip_slashes_def willing_def demo_store_def create_dir_all_def
        set_permissions_def create_file_def write_all_def Let_def)
  then show ?thesis using that by blast
qed

text \<open>A status text that is the role alone.\<close>

definition demo_snapshot :: status_snapshot where
  "demo_snapshot = snapshot 160 demo_server (srv_state demo_srv)"

subsection \<open>The firewall and the terminal interface\<close>

definition demo_app :: app_config where
  "demo_app = \<lparr>app_threshold = 3, window_secs = 600, ban_secs = 3600, allowlist = [''198.51.100.1''],
     service = ''ghostport''\<rparr>"

definition quiet_nft :: nft_runner where
  "quiet_nft c = Exited True [] []"

definition demo_rejection :: string where
  "demo_rejection = rejected_line no_colour ''data'' (SocketV4 203 0 113 9 5000)"

lemma demo_allowlist: "parsed_allowlist demo_app = [V4 198 51 100 1]"
proof -
  have "show_v4 198 51 100 1 = ''198.51.100.1''"
    by (simp add: show_v4_def show_word_def show_nat.simps digit_chars)
  then have "parse_ip_addr ''198.51.100.1'' = Some (V4 198 51 100 1)" by (metis parse_ip_show_v4)
  then show ?thesis by (simp add: parsed_allowlist_def demo_app_def map_filter_simps)
qed

subsection \<open>A request line\<close>

lemma demo_request:
  "trim (from_utf8_lossy (''GET /metrics HTTP/1.1'' @ [CHR 0x0D])) = ''GET /metrics HTTP/1.1''"
  by code_simp

lemma demo_request_path: "parse_request_path ''GET /metrics HTTP/1.1'' = Some ''/metrics''"
  by code_simp

definition demo_term :: term_env where
  "demo_term = \<lparr>raw_off = True, leave_screen = True, flushed = (\<lambda>_. True), started = (\<lambda>_. None), fed = True,
     waited = (\<lambda>_. Inr (True, [])), enter_screen = True, raw_on = True, cleared = True\<rparr>"

definition demo_console :: console where
  "demo_console = \<lparr>raw_mode = True, alternate = True, shown = [], processes = []\<rparr>"

definition demo_tui_env :: tui_env where
  "demo_tui_env = \<lparr>env_now = 0, env_query = Inl ''off'', env_systemctl = (\<lambda>_. None),
     env_term = demo_term, env_fs = willing, env_toml = (\<lambda>_. Inr ''saved''), env_b64 = hex_dec\<rparr>"

lemma demo_terminal:
  "on_screen demo_console" "terminal_ok (env_term demo_tui_env)" "unit_piped (env_term demo_tui_env)"
  by (simp_all add: on_screen_def demo_console_def terminal_ok_def unit_piped_def demo_tui_env_def demo_term_def)

definition tui_at :: "app \<Rightarrow> tui" where
  "tui_at a = \<lparr>ui = a, store = demo_store, ran = [], console_of = demo_console\<rparr>"

definition links_app :: app where
  "links_app = (new_app ''/c'' demo_server)\<lparr>tab_of := Tab_Links\<rparr>"

lemma s_writes: "store (tui_step (demo_tui_env, Key (Char 115)) (tui_at links_app)) \<noteq> demo_store"
proof -
  have "tui_step (demo_tui_env, Key (Char 115)) (tui_at links_app) =
      save_key demo_tui_env (on_ui (message_update (\<lambda>_. None)) (tui_at links_app))"
    by (simp add: tui_at_def links_app_def new_app_def handle_key_def handle_normal_def links_key_def
        is_key_def byte_def)
  moreover have "validate hex_dec demo_server = []" by (simp add: validate_Nil_iff demo_server_valid)
  ultimately show ?thesis
    by (simp add: save_key_store del: tui_step.simps)
      (simp add: tui_at_def links_app_def new_app_def demo_tui_env_def store_after_save_def
        create_file_def write_all_def willing_def demo_store_def fun_eq_iff)
qed

text \<open>A terminal library that gives the whole area to every part, and a palette.\<close>

definition demo_screen :: screen_lib where
  "demo_screen = \<lparr>split_rows = (\<lambda>sizes area. map (\<lambda>_. area) sizes), block_inner = (\<lambda>b area. area)\<rparr>"

definition demo_area :: rect where
  "demo_area = \<lparr>rect_x = 0, rect_y = 0, rect_width = 80, rect_height = 24\<rparr>"

definition demo_palette :: hex_palette where
  "demo_palette = \<lparr>hex_purple = ''#800080'', hex_cyan = ''#00ffff'', hex_acid_green = ''#b0ff00'',
     hex_hot_pink = ''#ff69b4'', hex_red = ''#ff0000'', hex_orange = ''#ffa500'', hex_muted = ''#808080'',
     hex_line = ''#303030'', hex_white = ''#ffffff''\<rparr>"

lemma demo_screen_ok: "one_area_each demo_screen"
  by (simp add: one_area_each_def demo_screen_def)

lemma demo_start_confirmed:
  assumes "start_tui demo_toml demo_tui_env ''/c'' demo_store demo_console = Inr t"
  shows "ran (run_event_loop [(demo_tui_env, Key (Char 51)), (demo_tui_env, Key Enter)] t) = []"
    and "ran (tui_step (demo_tui_env, Key (Char 121))
      (run_event_loop [(demo_tui_env, Key (Char 51)), (demo_tui_env, Key Enter)] t)) = [Start]"
  using assms demo_load
  by (auto simp: start_tui_def demo_tui_env_def run_event_loop_def new_app_def handle_key_def
      handle_normal_def service_key_def handle_confirm_service_action_def is_key_def byte_def
      run_pending_ran activate_selected_service_action_def selected_service_action_def
      service_menu_def needs_confirm_def apply_status_def refresh_service_info_def)

lemma demo_removal_asked:
  assumes "start_tui demo_toml demo_tui_env ''/c'' demo_store demo_console = Inr t"
  shows "mode_of (ui (run_event_loop [(demo_tui_env, Key (Char 50)), (demo_tui_env, Key (Char 100))] t)) =
      Confirm_Remove_Link"
    and "\<not> should_quit (ui (run_event_loop [(demo_tui_env, Key (Char 50)), (demo_tui_env, Key (Char 100))] t))"
  using assms demo_load
  by (auto simp: start_tui_def demo_tui_env_def run_event_loop_def new_app_def handle_key_def
      handle_normal_def links_key_def is_key_def byte_def selected_link_def nth_opt_def
      demo_server_def apply_status_def refresh_service_info_def)

subsection \<open>A dial of each kind\<close>

lemma demo_hellos:
  "json_reads_back hello_text hello_of_text \<lparr>hello_link_id = ''web'', hello_stream_id = None\<rparr>"
  "json_reads_back hello_text hello_of_text \<lparr>hello_link_id = ''dev'', hello_stream_id = Some 1\<rparr>"
  by (simp_all add: json_reads_back_def hello_of_text_def max_message_len_def)

lemma demo_tunnel: "open_tunnel demo_snow demo_client_ctx addr demo_dial = None"
  by (simp add: open_tunnel_def demo_dial_def initiator_def demo_snow_def)

lemma demo_client_addr: "server_data_addr (cctx_config demo_client_ctx) = Some ''0.0.0.0:9001''"
  by (simp add: demo_client_ctx_def demo_client_def)

text \<open>The client with its session up.\<close>

definition demo_cdeps :: "(bytes \<times> bytes) client_deps" where
  "demo_cdeps = \<lparr>cd_palette = no_colour, cd_io_text = (\<lambda>_. []), cd_snow = demo_snow,
     cd_hello = hello_text, cd_control = control_of_text\<rparr>"

lemma demo_client_run: "\<exists>ls addr. run_client demo_client = Some (ls, addr)"
  by (simp add: run_client_def demo_client_def web_link_def dev_link_def dns_link_def)

lemma demo_web_listener:
  obtains ls addr where "run_client (cctx_config demo_client_ctx) = Some (ls, addr)"
    and "(''web'', ''0.0.0.0:8080'') \<in> set ls"
  by (simp add: run_client_def demo_client_ctx_def demo_client_def web_link_def dev_link_def dns_link_def)

lemma demo_opens: "tunnel_opens demo_cdeps demo_client_ctx demo_dial"
  using demo_tunnel by (simp add: tunnel_opens_def demo_client_addr demo_cdeps_def) (simp add: demo_dial_def)

lemma demo_accepts: "stream_refused pal io_text demo_client_ctx ''dev'' 1 demo_dial = None"
  by (simp add: stream_refused_def demo_client_ctx_def demo_client_def web_link_def dev_link_def demo_dial_def)

lemma client_up:
  obtains sys where "cl_reaches demo_cdeps demo_client_ctx sys" and "cl_session sys = Some new_session"
    and "cl_dials sys = []" and "cl_ended sys = []"
proof -
  obtain ls addr where run: "run_client demo_client = Some (ls, addr)" using demo_client_run by blast
  let ?up = "session_up 100 addr (start_client demo_client_ctx 100) :: (bytes \<times> bytes) client_sys"
  have "connect_control (cd_snow demo_cdeps) demo_client_ctx addr demo_dial = None"
    by (simp add: connect_control_def demo_cdeps_def demo_tunnel)
  moreover have "cctx_config demo_client_ctx = demo_client" by (simp add: demo_client_ctx_def)
  ultimately have "cl_reaches demo_cdeps demo_client_ctx ?up"
    using run by (intro Cl_Next [OF Cl_Begin [of _ _ 100]] Cl_Connect) (simp_all add: start_client_def)
  then show ?thesis by (rule that) (simp_all add: session_up_def start_client_def)
qed

text \<open>The client after the server announced a stream, with the task relaying.\<close>

lemma client_relaying:
  obtains sys bs where "cl_reaches demo_cdeps demo_client_ctx sys"
    and "cl_dials sys = [\<lparr>d_link = ''dev'', d_stream = Some 1, d_peer = SocketV4 127 0 0 1 3000,
      d_env = demo_dial, d_phase = Tunnel bs [Active_Sub, Forward_Add 3, Back_Add 5]\<rparr>]"
    and "\<exists>st. st_links (cl_state sys) ''dev'' = Some st"
proof -
  let ?reach = "cl_reaches demo_cdeps demo_client_ctx"
  let ?task = "\<lambda>ph. \<lparr>d_link = ''dev'', d_stream = Some 1, d_peer = SocketV4 127 0 0 1 3000, d_env = demo_dial, d_phase = ph\<rparr>"
  obtain sys0 where up: "?reach sys0" "cl_session sys0 = Some new_session" "cl_dials sys0 = []" by (rule client_up)
  have fresh: "alive new_session" "recv_ph new_session = fresh_recv" by (simp_all add: new_session_def)
  have opened: "json_reads_back control_text (cd_control demo_cdeps) (OpenStream ''dev'' 1)"
    using demo_messages(2) by (simp add: demo_cdeps_def)
  have announced: "send_json control_text (OpenStream ''dev'' 1) = Inr (u32_le 4 @ CHR ''O'' # ''dev'')"
    by (simp add: send_json_def)
  have expected: "link_expects_reverse (cctx_config demo_client_ctx) ''dev''"
    by (simp add: link_expects_reverse_def demo_client_ctx_def demo_client_def web_link_def dev_link_def)
  have sent: "send_json (cd_hello demo_cdeps) \<lparr>hello_link_id = ''dev'', hello_stream_id = Some 1\<rparr> =
      Inr (u32_le 4 @ ''Rdev'')"
    by (simp add: demo_cdeps_def send_json_def)
  have copied: "dial_copied demo_dial = Inr (3, 5)" by (simp add: demo_dial_def)
  obtain sys1 where steps: "(cl_step demo_cdeps demo_client_ctx)\<^sup>*\<^sup>* sys0 sys1"
    and dials: "cl_dials sys1 = [?task (Tunnel (u32_le 4 @ ''Rdev'') (relay_ops (Inr (3, 5))))]"
    using announced_relays [OF up(1,2) fresh opened announced expected demo_accepts demo_opens sent,
        where peer = "SocketV4 127 0 0 1 3000"] up(3)
    by (auto simp: relaying_dial_def new_dial_def copied)
  note r1 = cl_reaches_steps [OF steps up(1)]
  let ?turn = "dial_turn demo_cdeps demo_client_ctx 0"
  have r2: "?reach (?turn sys1)" by (rule Cl_Next [OF r1 Cl_Turn]) (simp add: dials)
  have r3: "?reach (?turn (?turn sys1))"
    by (rule Cl_Next [OF r2 Cl_Turn]) (simp add: dials dial_turn_def split_beta Let_def)
  have d3: "cl_dials (?turn (?turn sys1)) = [?task (Tunnel (u32_le 4 @ ''Rdev'') [Active_Sub, Forward_Add 3, Back_Add 5])]"
    using dials by (simp add: dial_turn_def go_on_def relay_ops_def)
  have "has_links (cctx_config demo_client_ctx) (cl_state (?turn (?turn sys1)))"
    using cl_reaches_sound [OF r3] by (simp add: client_sound_def)
  then have "\<exists>st. st_links (cl_state (?turn (?turn sys1))) ''dev'' = Some st"
    by (auto simp: has_links_def demo_client_ctx_def demo_client_def dev_link_def)
  then show ?thesis using that [OF r3 d3] by blast
qed

end
