(* ===== verification/Server_Listeners.thy ===== *)
theory Server_Listeners
  imports Server_Runs
begin

section \<open>The listeners of the server\<close>

text \<open>
  The three kinds of listener of \<open>server.rs\<close> (control channel, data channel, one per reverse link)
  have the same shape: a failed bind is printed and ends the task, a failed accept is printed and the
  loop goes on, and every accepted connection runs the body. \<open>accept_each\<close> and \<open>listen\<close> are this
  shape, with the state the body works on. Here a connection is handled as a whole before the next
  one; \<open>Server_Tasks\<close> lets them interleave.
\<close>

subsection \<open>The shape of a listener\<close>

datatype 'e incoming = Accept_Error string | Incoming 'e

fun accept_each ::
  "(string \<Rightarrow> string) \<Rightarrow> ('e \<Rightarrow> 's \<Rightarrow> string list \<times> 's) \<Rightarrow> 'e incoming list \<Rightarrow> 's \<Rightarrow> string list \<times> 's" where
  "accept_each failed body [] s = ([], s)"
| "accept_each failed body (Accept_Error e # evs) s =
     (let (ls, s') = accept_each failed body evs s in (failed e # ls, s'))"
| "accept_each failed body (Incoming c # evs) s =
     (let (ls, s1) = body c s; (ls', s') = accept_each failed body evs s1 in (ls @ ls', s'))"

definition listen ::
  "(string \<Rightarrow> string) \<Rightarrow> string \<Rightarrow> string option \<Rightarrow> ('s \<Rightarrow> string list \<times> 's) \<Rightarrow> 's \<Rightarrow> string list \<times> 's" where
  "listen bind_failed up bind_error loop s =
     (case bind_error of
        Some e \<Rightarrow> ([bind_failed e], s)
      | None \<Rightarrow> let (ls, s') = loop s in (up # ls, s'))"

text \<open>An invariant of the body is one of the listener: failures touch nothing.\<close>

lemma listener_invariant:
  assumes "P s" and "\<And>c s. P s \<Longrightarrow> P (snd (body c s))"
  shows "P (snd (listen bind_failed up bind_error (accept_each failed body evs) s))"
proof -
  have "P s \<Longrightarrow> P (snd (accept_each failed body evs s))" for s
  proof (induction evs arbitrary: s)
    case (Cons ev evs)
    then show ?case using assms(2) [OF Cons.prems] by (cases ev) (simp_all add: split_beta Let_def)
  qed simp
  then show ?thesis using assms(1) by (simp add: listen_def split_beta split: option.split)
qed

subsection \<open>Control and data channel\<close>

text \<open>The two lines around a session of the control channel, and the loop over the sessions.\<close>

definition session_lines :: "palette \<Rightarrow> socket_addr \<Rightarrow> string \<Rightarrow> string list" where
  "session_lines pal addr name =
     [tagged (ok pal (''control channel connected from '' @ show_socket_addr addr @ '' (peer '' @ quoted name @ '')'')),
      tagged (warn pal (''control channel disconnected from '' @ show_socket_addr addr @ '', awaiting reconnect''))]"

text \<open>The acceptor of the control channel hands the authenticated connections to that loop.\<close>

definition control_turn ::
  "'hs deps \<Rightarrow> server_ctx \<Rightarrow> instant \<times> instant \<times> socket_addr \<times> 'c conn_env \<Rightarrow> 'c server \<times> (socket_addr \<times> string) list
     \<Rightarrow> string list \<times> 'c server \<times> (socket_addr \<times> string) list" where
  "control_turn d ctx = (\<lambda>(t1, t2, addr, env) (srv, authenticated).
     let (conn, ls, srv) = accept_control d ctx t1 t2 addr env srv
     in (ls, srv, authenticated @ (case conn of None \<Rightarrow> [] | Some c \<Rightarrow> [c])))"

definition run_control_accept_loop ::
  "'hs deps \<Rightarrow> server_ctx \<Rightarrow> string \<Rightarrow> string option \<Rightarrow> (instant \<times> instant \<times> socket_addr \<times> 'c conn_env) incoming list
     \<Rightarrow> 'c server \<times> (socket_addr \<times> string) list \<Rightarrow> string list \<times> 'c server \<times> (socket_addr \<times> string) list" where
  "run_control_accept_loop d ctx listen_addr bind_error evs =
     (let pal = dep_palette d in
      listen (\<lambda>e. tagged (err pal (''fatal: failed to bind control listener '' @ listen_addr @ '': '' @ e)))
        (tagged (ok pal (''control channel listening on '' @ listen_addr))) bind_error
        (accept_each (\<lambda>e. tagged (err pal (''control accept failed: '' @ e))) (control_turn d ctx) evs))"

definition data_turn ::
  "'hs deps \<Rightarrow> server_ctx \<Rightarrow> instant \<times> instant \<times> socket_addr \<times> 'c conn_env \<Rightarrow> 'c server \<Rightarrow> string list \<times> 'c server" where
  "data_turn d ctx = (\<lambda>(t1, t2, addr, env) srv. snd (accept_data d ctx t1 t2 addr env srv))"

definition run_data_accept_loop ::
  "'hs deps \<Rightarrow> server_ctx \<Rightarrow> string \<Rightarrow> string option \<Rightarrow> (instant \<times> instant \<times> socket_addr \<times> 'c conn_env) incoming list
     \<Rightarrow> 'c server \<Rightarrow> string list \<times> 'c server" where
  "run_data_accept_loop d ctx listen_addr bind_error evs =
     (let pal = dep_palette d in
      listen (\<lambda>e. tagged (err pal (''fatal: failed to bind data listener '' @ listen_addr @ '': '' @ e)))
        (tagged (ok pal (''data channel listening on '' @ listen_addr))) bind_error
        (accept_each (\<lambda>e. tagged (err pal (''data accept failed: '' @ e))) (data_turn d ctx) evs))"

lemma data_loop_reaches:
  assumes "server_reaches d ctx srv"
  shows "server_reaches d ctx (snd (run_data_accept_loop d ctx listen_addr bind_error evs srv))"
  unfolding run_data_accept_loop_def Let_def
  by (rule listener_invariant [where P = "server_reaches d ctx"])
    (use assms in \<open>auto simp: data_turn_def intro: Next Data\<close>)

text \<open>
  A run of the data listener in which every connection is rejected or fails: the lines, and what is
  left of it in the state.
\<close>

definition turned_away :: "'c outcome option \<Rightarrow> bool" where
  "turned_away out \<longleftrightarrow> (case out of None \<Rightarrow> True | Some (Failed e) \<Rightarrow> True | _ \<Rightarrow> False)"

fun all_turned_away ::
  "'hs deps \<Rightarrow> server_ctx \<Rightarrow> (instant \<times> instant \<times> socket_addr \<times> 'c conn_env) incoming list \<Rightarrow> 'c server \<Rightarrow> bool" where
  "all_turned_away d ctx [] srv \<longleftrightarrow> True"
| "all_turned_away d ctx (Accept_Error e # evs) srv \<longleftrightarrow> all_turned_away d ctx evs srv"
| "all_turned_away d ctx (Incoming (t1, t2, addr, env) # evs) srv \<longleftrightarrow>
     (let (out, logged, srv') = accept_data d ctx t1 t2 addr env srv
      in turned_away out \<and> all_turned_away d ctx evs srv')"

fun callers :: "(instant \<times> instant \<times> socket_addr \<times> 'c conn_env) incoming list \<Rightarrow> ip_addr list" where
  "callers [] = []"
| "callers (Accept_Error e # evs) = callers evs"
| "callers (Incoming (t1, t2, addr, env) # evs) = ip_of addr # callers evs"

text \<open>What one such connection, and then any number of them, leaves as it was.\<close>

definition same_but_attempts :: "ip_addr list \<Rightarrow> 'c server \<Rightarrow> 'c server \<Rightarrow> bool" where
  "same_but_attempts ips srv srv' \<longleftrightarrow>
     srv_streams srv' = srv_streams srv \<and> srv_state srv' = srv_state srv \<and>
     permits (srv_limiter srv') = permits (srv_limiter srv) \<and>
     (\<forall>ip. ip \<in> set ips \<or> attempts_of (srv_limiter srv') ip = attempts_of (srv_limiter srv) ip)"

lemma same_but_attempts_trans:
  assumes "same_but_attempts ips srv srv1" and "same_but_attempts ips' srv1 srv'"
  shows "same_but_attempts (ips @ ips') srv srv'"
proof -
  have "attempts_of (srv_limiter srv') ip = attempts_of (srv_limiter srv) ip"
    if "ip \<notin> set (ips @ ips')" for ip
    using assms that by (simp add: same_but_attempts_def) metis
  then show ?thesis using assms by (simp add: same_but_attempts_def) blast
qed

lemma turned_away_one:
  assumes "accept_data d ctx t1 t2 addr env srv = (out, logged, srv')" and "turned_away out"
  shows "length logged = 1 \<and> same_but_attempts [ip_of addr] srv srv'"
proof -
  obtain g l where a: "try_acquire t1 t2 (ip_of addr) (srv_limiter srv) = (g, l)"
    by (cases "try_acquire t1 t2 (ip_of addr) (srv_limiter srv)")
  have failed: "out = None \<or> (\<exists>e. out = Some (Failed e))"
    using assms(2) by (auto simp: turned_away_def split: option.splits outcome.splits)
  have other: "attempts_of l ip = attempts_of (srv_limiter srv) ip" if "ip \<noteq> ip_of addr" for ip
    using try_acquire_other_ip [of "ip_of addr" ip t1 t2 "srv_limiter srv"] that a by simp
  have "permits (srv_limiter srv') = permits (srv_limiter srv)"
    using permits_balanced assms(1) by (metis accept_data_def snd_conv)
  moreover have "length logged = 1 \<and> srv_streams srv' = srv_streams srv \<and> srv_state srv' = srv_state srv \<and>
      attempts_of (srv_limiter srv') = attempts_of l"
  proof (cases g)
    case False
    then show ?thesis using assms(1) a by (auto simp: accept_data_def data_accept_def Let_def)
  next
    case True
    then show ?thesis
      using assms(1) failed a
      by (auto simp: accept_data_def data_accept_def Let_def drop_permit_def release_def attempts_of_def
          fun_eq_iff dest!: failed_no_effect split: prod.splits)
  qed
  ultimately show ?thesis using other by (auto simp: same_but_attempts_def fun_eq_iff)
qed

lemma turned_away_loop:
  "all_turned_away d ctx evs srv \<Longrightarrow> accept_each failed (data_turn d ctx) evs srv = (logged, srv') \<Longrightarrow>
     length logged = length evs \<and> same_but_attempts (callers evs) srv srv'"
proof (induction d ctx evs srv arbitrary: logged rule: all_turned_away.induct)
  case (1 d ctx srv)
  then show ?case by (simp add: same_but_attempts_def)
next
  case (2 d ctx e evs srv)
  obtain ls where "accept_each failed (data_turn d ctx) evs srv = (ls, srv')" "logged = failed e # ls"
    using 2(3) by (auto split: prod.splits)
  then show ?case using "2.IH" [of ls] 2(2) by simp
next
  case (3 d ctx t1 t2 addr env evs srv)
  obtain out ls srv1 where r: "accept_data d ctx t1 t2 addr env srv = (out, ls, srv1)"
    by (cases "accept_data d ctx t1 t2 addr env srv")
  obtain ls' where rest: "accept_each failed (data_turn d ctx) evs srv1 = (ls', srv')" "logged = ls @ ls'"
    using 3(3) r by (auto simp: data_turn_def Let_def split: prod.splits)
  have "length ls = 1 \<and> same_but_attempts [ip_of addr] srv srv1"
    using turned_away_one [OF r] 3(2) r by simp
  moreover have "length ls' = length evs \<and> same_but_attempts (callers evs) srv1 srv'"
    using "3.IH" [OF r [symmetric] refl refl _ rest(1)] 3(2) r by simp
  ultimately show ?case
    using rest(2) same_but_attempts_trans [of "[ip_of addr]" srv srv1 "callers evs" srv'] by simp
qed

text \<open>The control acceptor keeps to the runs too, and queues only configured peers.\<close>

lemma control_accept_peer:
  assumes "fst (control_accept pal sn finish io_text ctx t1 t2 addr env srv) = Some (a, name)"
  shows "a = addr \<and> name \<in> rp_name ` set (sctx_peers ctx)"
proof -
  obtain j plain where "server_handshake sn finish io_text ctx (env_bytes env) = Inr (j, plain)"
    and "a = addr" and "name = rp_name (sctx_peers ctx ! j)"
    using assms by (auto simp: control_accept_def Let_def split: prod.splits sum.splits if_splits)
  moreover from this(1) have "j < length (sctx_peers ctx)"
    by (auto simp: server_handshake_def split: sum.splits option.splits prod.splits if_splits dest: match_peer_in_range)
  ultimately show ?thesis by simp
qed

lemma control_loop_reaches:
  assumes "server_reaches d ctx srv" and "snd ` set authenticated \<subseteq> rp_name ` set (sctx_peers ctx)"
    and "run_control_accept_loop d ctx listen_addr bind_error evs (srv, authenticated) = (ls, srv', authenticated')"
  shows "server_reaches d ctx srv' \<and> snd ` set authenticated' \<subseteq> rp_name ` set (sctx_peers ctx)"
proof -
  let ?P = "\<lambda>(srv, q). server_reaches d ctx srv \<and> snd ` set q \<subseteq> rp_name ` set (sctx_peers ctx)"
  have step: "?P (snd (control_turn d ctx c s))" if "?P s" for c s
  proof -
    obtain t1 t2 addr env srv q where cs: "c = (t1, t2, addr, env)" "s = (srv, q)" by (cases c; cases s) auto
    obtain conn ls srv1 where r: "accept_control d ctx t1 t2 addr env srv = (conn, ls, srv1)"
      by (cases "accept_control d ctx t1 t2 addr env srv")
    have "server_reaches d ctx srv1"
      using Next [OF _ Control, of d ctx srv t1 t2 addr env] that cs r by simp
    moreover have "snd x \<in> rp_name ` set (sctx_peers ctx)" if "conn = Some x" for x
      using r that control_accept_peer [of "dep_palette d" "dep_snow d" "dep_finish d" "dep_io_text d" ctx t1 t2 addr env srv]
      by (cases x) (auto simp: accept_control_def)
    ultimately show ?thesis using that cs r by (auto simp: control_turn_def split: option.split)
  qed
  have "?P (snd (run_control_accept_loop d ctx listen_addr bind_error evs (srv, authenticated)))"
    unfolding run_control_accept_loop_def Let_def
    by (rule listener_invariant [where P = ?P]) (use assms(1,2) in simp, rule step)
  then show ?thesis using assms(3) by simp
qed

subsection \<open>Reverse links\<close>

text \<open>
  The listener of a reverse link: the connections it takes, in order (\<open>accept_conn\<close>), and what it
  prints; then the lines of a stream that cannot be announced and of one that nobody claimed.
\<close>

definition reverse_listener ::
  "palette \<Rightarrow> string \<Rightarrow> string \<Rightarrow> string option \<Rightarrow> 'c incoming list \<Rightarrow> string list \<times> 'c list" where
  "reverse_listener pal i listen_addr bind_error evs =
     listen (\<lambda>e. link_line pal i (err pal (''failed to bind '' @ listen_addr @ '': '' @ e)))
       (link_line pal i (ok pal (''listening on '' @ listen_addr @ '' (reverse)''))) bind_error
       (accept_each (\<lambda>e. link_line pal i (err pal (''accept failed: '' @ e))) (\<lambda>c cs. ([], cs @ [c])) evs) []"

definition send_open_lines :: "palette \<Rightarrow> string \<Rightarrow> u64 \<Rightarrow> socket_addr \<Rightarrow> 'c streams \<Rightarrow> string list" where
  "send_open_lines pal i n peer s =
     (case fst (try_send (OpenStream i n) (open_stream s)) of
        Closed \<Rightarrow> [link_line pal i (warn pal (show_socket_addr peer @ '': control channel unavailable, dropping''))]
      | _ \<Rightarrow> [])"

definition expire_lines :: "palette \<Rightarrow> string \<Rightarrow> u64 \<Rightarrow> 'c streams \<Rightarrow> string list" where
  "expire_lines pal i n s =
     (if pending s n \<noteq> None
      then [link_line pal i (warn pal (''stream '' @ show_word n @
        '' timed out waiting for the client to respond (offline?)''))]
      else [])"

text \<open>A stream that was claimed expires in silence, and nothing is lost by it.\<close>

lemma expire_after_claim:
  assumes "pending s n = Some c"
  shows "expire_lines pal i n (snd (claim_stream n s)) = []"
    and "pending (expire (n, t) (snd (claim_stream n s))) = pending (snd (claim_stream n s))"
  using assms by (simp_all add: expire_lines_def claim_stream_def expire_def fun_eq_iff)

end
