(* ===== verification/Server_Properties.thy ===== *)
theory Server_Properties
  imports Examples Server_Listeners
begin

section \<open>Properties of the server\<close>

text \<open>
  What a started server promises: who is relayed where, the life of a reverse stream, the limiter,
  the control session and the UDP sessions. Each property combines the lemmas of the components it
  spans; its witness applies it to the instances of \<open>Examples\<close>.
\<close>

subsection \<open>Shared facts about a started daemon\<close>

definition first_message :: "string \<Rightarrow> string" where
  "first_message tcp = take (le_val (take 2 tcp)) (drop 2 tcp)"

text \<open>The peers of the configuration whose key wrote a message.\<close>

definition authenticated :: "b64_decoder \<Rightarrow> (string \<Rightarrow> bytes option) \<Rightarrow> config \<Rightarrow> string \<Rightarrow> peer_config \<Rightarrow> bool" where
  "authenticated b64_dec writer cfg m p \<longleftrightarrow>
     p \<in> set (cfg_peers cfg) \<and>
     (\<exists>k. decode_public_key b64_dec (peer_key p) = Inr k \<and> writer m = Some k)"

lemma started_server:
  assumes "start_daemon b64_dec toml_from env path s = Server_Started ctx uctx"
  shows "valid_config b64_dec (sctx_config ctx) \<and> cfg_role (sctx_config ctx) = Server \<and>
    resolve_peers b64_dec (cfg_peers (sctx_config ctx)) = Inr (sctx_peers ctx) \<and>
    uctx_config uctx = sctx_config ctx \<and> uctx_peers uctx = sctx_peers ctx"
proof -
  obtain cfg priv where c: "validate b64_dec cfg = []" "start_role b64_dec cfg priv = Server_Started ctx uctx"
    using assms by (auto simp: start_daemon_def Let_def split: sum.splits if_splits)
  then have "valid_config b64_dec cfg" by (simp add: validate_Nil_iff)
  from start_role_valid [OF this, of priv] this show ?thesis using c(2) by auto
qed

lemma resolved_authenticated:
  assumes "resolve_peers b64_dec (cfg_peers cfg) = Inr rs" and "i < length rs"
    and "writer m = Some (rp_public_key (rs ! i))"
  obtains p where "authenticated b64_dec writer cfg m p" and "rp_links (rs ! i) = set (peer_links p)"
    and "rp_name (rs ! i) = peer_name p"
  using resolve_peers_nth [OF assms(1)] assms(2,3) that [of "cfg_peers cfg ! i"]
  by (auto simp: authenticated_def)

lemma match_first_message:
  "match_peer sn tcp k ps = (Inr (i, st), rest) \<Longrightarrow>
     match_peer_bytes sn (first_message tcp) k ps = Inr (i, st)"
  by (auto simp: match_peer_def first_message_def Let_def split: if_splits)

lemma handshake_authenticated:
  assumes "start_daemon b64_dec toml_from fe path s = Server_Started ctx uctx"
    and "kk_authentic sn writer"
    and "data_handshake sn finish io_text ctx in_time tcp = Inr (i, plain)"
  obtains p where "authenticated b64_dec writer (sctx_config ctx) (first_message tcp) p"
    and "rp_links (sctx_peers ctx ! i) = set (peer_links p)"
    and "rp_name (sctx_peers ctx ! i) = peer_name p"
proof -
  obtain st rest where "match_peer sn tcp (sctx_private_key ctx) (sctx_peers ctx) = (Inr (i, st), rest)"
    by (rule data_handshake_peer [OF assms(3)])
  from matched_peer_wrote [OF assms(2) match_first_message [OF this]]
  show ?thesis
    using that started_server [OF assms(1)]
    by (meson resolved_authenticated)
qed

lemma started_links:
  "start_daemon b64_dec toml_from fe path s = Server_Started ctx uctx \<Longrightarrow>
     \<forall>l \<in> set (cfg_links (sctx_config ctx)). valid_link Server l"
  using started_server [of b64_dec toml_from fe path s ctx uctx] by (auto simp: valid_config_def)

subsection \<open>Authorization\<close>

lemma connection_authorized:
  assumes "start_daemon b64_dec toml_from fe path s = Server_Started ctx uctx"
    and "kk_authentic (dep_snow d) writer" and "alone d ctx env srv = (Relayed i conn, srv')"
  shows "\<exists>p link. authenticated b64_dec writer (sctx_config ctx) (first_message (env_bytes env)) p \<and>
    i \<in> set (peer_links p) \<and> link \<in> set (cfg_links (sctx_config ctx)) \<and> link_id link = i \<and>
    link_transport link = Tcp \<and>
    (case link_mode link of
       Forward \<Rightarrow> (\<exists>target. link_target link = Some target \<and> env_dial env target = Inr conn)
     | Reverse \<Rightarrow> (\<exists>hello n. hello_of d ctx env = Some hello \<and> hello_stream_id hello = Some n \<and>
         (n, conn) \<in> set (claimed (srv_streams srv'))))"
proof -
  obtain j plain hello where
    "data_handshake (dep_snow d) (dep_finish d) (dep_io_text d) ctx (handshake_in_time env)
       (env_bytes env) = Inr (j, plain)"
    and h: "hello_of d ctx env = Some hello"
    and r: "relay_allowed (sctx_config ctx) (sctx_peers ctx ! j) hello env srv i conn"
    and c: "\<forall>n. hello_stream_id hello = Some n \<longrightarrow> (n, conn) \<in> set (claimed (srv_streams srv'))"
    by (rule relayed_source [OF assms(3)])
  from handshake_authenticated [OF assms(1,2) this(1)] obtain p where
    p: "authenticated b64_dec writer (sctx_config ctx) (first_message (env_bytes env)) p"
    "rp_links (sctx_peers ctx ! j) = set (peer_links p)" by blast
  obtain link where l: "find (\<lambda>l. link_id l = i) (cfg_links (sctx_config ctx)) = Some link"
    using r by (auto simp: relay_allowed_def)
  then show ?thesis
    using find_SomeD [OF l] p r h c by (auto simp: relay_allowed_def intro!: exI [of _ p] exI [of _ link])
qed

text \<open>
  C1: on a daemon that started as a server, however its connections, listeners and timers
  interleave, a task relays (or has relayed) only for a peer of the configuration whose key wrote
  the first Noise message, on a TCP link of the configuration that this peer lists; it is joined to
  a dial of that link's target (forward) or to the connection claimed under the id its hello named
  (reverse).
\<close>

theorem relay_authorized:
  assumes "start_daemon b64_dec toml_from fe path s = Server_Started ctx uctx"
    and "kk_authentic (dep_snow d) writer"
    and "sys_reaches d ctx sys" and "t \<in> set (sys_tasks sys)"
    and "task_phase t = Relay i conn left \<or> task_phase t = Finished (Relayed i conn)"
  shows "\<exists>p link. authenticated b64_dec writer (sctx_config ctx) (first_message (env_bytes (task_env t))) p \<and>
    i \<in> set (peer_links p) \<and> link \<in> set (cfg_links (sctx_config ctx)) \<and> link_id link = i \<and>
    link_transport link = Tcp \<and>
    (case link_mode link of
       Forward \<Rightarrow> (\<exists>target. link_target link = Some target \<and> env_dial (task_env t) target = Inr conn)
     | Reverse \<Rightarrow> (\<exists>hello n. hello_of d ctx (task_env t) = Some hello \<and> hello_stream_id hello = Some n \<and>
         (n, conn) \<in> set (claimed (srv_streams (sys_server sys)))))"
proof -
  obtain srv srv' where a: "alone d ctx (task_env t) srv = (Relayed i conn, srv')"
    and g: "set (claimed (srv_streams srv')) \<subseteq> set (claimed (streams_of sys))"
    using relaying_decided [OF assms(3-5)] unfolding decided_def grows_def by blast
  from connection_authorized [OF assms(1,2) a] g show ?thesis
    by (fastforce split: link_mode.splits)
qed

lemma relay_authorized_witness:
  "\<exists>p link. authenticated hex_dec (\<lambda>m. Some (msg_key m)) demo_server (first_message demo_bytes) p \<and>
    ''web'' \<in> set (peer_links p) \<and> link \<in> set (cfg_links demo_server) \<and> link_id link = ''web'' \<and>
    link_transport link = Tcp"
proof -
  obtain sys t left where t: "sys_reaches demo_deps demo_ctx sys" "t \<in> set (sys_tasks sys)"
    "task_phase t = Relay ''web'' 7 left" "task_env t = demo_env" by (rule demo_relaying)
  have "kk_authentic (dep_snow demo_deps) (\<lambda>m. Some (msg_key m))"
    using demo_authentic by (simp add: demo_deps_def)
  from relay_authorized [OF demo_started this t(1,2) disjI1 [OF t(3)]] show ?thesis
    unfolding t(4) by (simp add: demo_ctx_def demo_env_def) blast
qed

text \<open>
  C2: the same for UDP: when a session of the server serves a target, the datagram that opened it
  was written with the key of a configured peer, and that peer lists a UDP forward link of the
  configuration with this target.
\<close>

theorem udp_session_authorized:
  assumes "start_daemon b64_dec toml_from fe path s = Server_Started ctx uctx"
    and "kk_authentic sn writer"
    and "snd (server_datagram sn uctx ev srv) = Some (src, j, st)"
    and "run_session hello_reader (uctx_config uctx) src (uctx_peers uctx ! j) st env = Serving i target"
  shows "src = ev_src ev \<and> sessions srv src = None \<and>
    (\<exists>p link. authenticated b64_dec writer (sctx_config ctx) (ev_bytes ev) p \<and> i \<in> set (peer_links p) \<and>
       link \<in> set (cfg_links (sctx_config ctx)) \<and> link_id link = i \<and> link_transport link = Udp \<and>
       link_mode link = Forward \<and> link_target link = Some target)"
proof -
  note o = opened_for_peer [OF assms(3)] and ctx = started_server [OF assms(1)]
  have "sessions srv (ev_src ev) = None"
    by (rule server_flows.opened_once [of sn uctx]) (simp add: assms(3))
  moreover have "j < length (uctx_peers uctx) \<and>
      accepts sn (ev_bytes ev) (uctx_private_key uctx) (uctx_peers uctx ! j)"
    using position_Some o by blast
  then obtain p where "authenticated b64_dec writer (sctx_config ctx) (ev_bytes ev) p"
    "rp_links (uctx_peers uctx ! j) = set (peer_links p)"
    using accepts_writer [OF assms(2)] ctx by (metis resolved_authenticated)
  ultimately show ?thesis using udp_serving [OF assms(4)] o ctx by auto
qed

lemma udp_session_authorized_witness:
  "SocketV4 203 0 113 9 5000 = ev_src demo_datagram \<and>
   sessions new_udp_server (SocketV4 203 0 113 9 5000) = None \<and>
   (\<exists>p link. authenticated hex_dec (\<lambda>m. Some (msg_key m)) demo_server (ev_bytes demo_datagram) p \<and>
      ''dns'' \<in> set (peer_links p) \<and> link \<in> set (cfg_links demo_server) \<and> link_id link = ''dns'' \<and>
      link_transport link = Udp \<and> link_mode link = Forward \<and>
      link_target link = Some ''127.0.0.1:80'')"
proof -
  have "run_session hello_of_text (uctx_config demo_uctx) (SocketV4 203 0 113 9 5000)
      (uctx_peers demo_uctx ! 0) (server_key, laptop_key) demo_udp_env =
      Serving ''dns'' ''127.0.0.1:80''"
    using demo_udp_serving by (simp add: demo_uctx_def)
  from udp_session_authorized [OF demo_started demo_authentic demo_udp_opened this]
  show ?thesis by (simp add: demo_ctx_def new_udp_server_def)
qed

text \<open>
  C3: a handshake on a started server names exactly one configured peer: the key that wrote the
  first message belongs to the peer at the index found, and to no other.
\<close>

theorem handshake_names_one_peer:
  assumes "start_daemon b64_dec toml_from fe path s = Server_Started ctx uctx"
    and "kk_authentic sn writer"
    and "server_handshake sn finish io_text ctx tcp = Inr (i, plain)"
  shows "i < length (cfg_peers (sctx_config ctx)) \<and>
    rp_name (sctx_peers ctx ! i) = peer_name (cfg_peers (sctx_config ctx) ! i) \<and>
    (\<forall>p. authenticated b64_dec writer (sctx_config ctx) (first_message tcp) p \<longleftrightarrow>
         p = cfg_peers (sctx_config ctx) ! i)"
proof -
  let ?ps = "cfg_peers (sctx_config ctx)"
  note ctx = started_server [OF assms(1)]
  obtain st rest where "match_peer sn tcp (sctx_private_key ctx) (sctx_peers ctx) = (Inr (i, st), rest)"
    using assms(3) by (auto simp: server_handshake_def split: prod.splits sum.splits)
  note w = matched_peer_wrote [OF assms(2) match_first_message [OF this]]
  note n = resolve_peers_nth [of b64_dec ?ps "sctx_peers ctx"]
  have "distinct (map (\<lambda>p. decode_public_key b64_dec (peer_key p)) ?ps)"
    using ctx by (auto simp: valid_config_def valid_role_def valid_peers_def decoded_keys_def)
  then have "j = i" if "j < length ?ps"
    and "decode_public_key b64_dec (peer_key (?ps ! j)) = decode_public_key b64_dec (peer_key (?ps ! i))"
    for j
    using that w n ctx by (simp add: distinct_conv_nth) metis
  then show ?thesis
    using w n ctx by (auto simp: authenticated_def in_set_conv_nth) metis
qed

lemma handshake_names_one_peer_witness:
  "0 < length (cfg_peers demo_server) \<and>
   rp_name (sctx_peers demo_ctx ! 0) = peer_name (cfg_peers demo_server ! 0) \<and>
   (\<forall>p. authenticated hex_dec (\<lambda>m. Some (msg_key m)) demo_server (first_message demo_bytes) p \<longleftrightarrow>
        p = cfg_peers demo_server ! 0)"
proof -
  have "server_handshake demo_snow demo_finish demo_io_text demo_ctx demo_bytes =
      Inr (0, u32_le 4 @ CHR ''F'' # ''web'')"
    by (simp add: server_handshake_def demo_ctx_def demo_match demo_finish_def)
  from handshake_names_one_peer [OF demo_started demo_authentic this] show ?thesis
    by (simp add: demo_ctx_def)
qed

subsection \<open>Runs of a started server\<close>

text \<open>
  C7: a daemon that started as a server finds every field its configuration was validated for:
  in every state it can reach, neither startup, nor a data connection, nor a UDP session ends in
  a failed \<open>expect\<close>, whatever the other end and the network do.
\<close>

theorem server_never_panics:
  assumes "start_daemon b64_dec toml_from fe path s = Server_Started ctx uctx"
    and "sys_reaches d ctx sys" and "t \<in> set (sys_tasks sys)"
  shows "run_server (sctx_config ctx) \<noteq> None \<and> task_phase t \<noteq> Finished (Panicked msg) \<and>
    run_session hello_reader (uctx_config uctx) src peer st udp \<noteq> Session_Panic"
proof -
  note ctx = started_server [OF assms(1)] and links = started_links [OF assms(1)]
  have "task_phase t \<noteq> Finished (Panicked msg)"
    using reaches_sound [OF assms(2)] assms(3) decided_no_panic [OF _ links]
    by (fastforce simp: sound_def task_sound_def)
  moreover have "run_server (sctx_config ctx) \<noteq> None"
    using ctx reverse_listeners_Some [OF links]
    by (auto simp: run_server_def valid_config_def valid_role_def)
  ultimately show ?thesis
    using udp_no_panic [where cfg = "uctx_config uctx"] links ctx by simp
qed

lemma server_never_panics_witness:
  "run_server demo_server \<noteq> None \<and>
   (\<exists>t :: nat task. task_env t = demo_env \<and>
      task_phase t \<noteq> Finished (Panicked ''validated: forward link on server has target'')) \<and>
   run_session hello_of_text demo_server (SocketV4 203 0 113 9 5000) laptop_peer
     (server_key, laptop_key) demo_udp_env \<noteq> Session_Panic"
proof -
  obtain sys t left where t: "sys_reaches demo_deps demo_ctx sys" "t \<in> set (sys_tasks sys)"
    "task_phase t = Relay ''web'' 7 left" "task_env t = demo_env" by (rule demo_relaying)
  from server_never_panics [OF demo_started t(1,2), of "''validated: forward link on server has target''"
      hello_of_text "SocketV4 203 0 113 9 5000" laptop_peer "(server_key, laptop_key)" demo_udp_env] t(4)
  show ?thesis by (auto simp: demo_ctx_def demo_uctx_def)
qed

text \<open>
  C8: two tasks never relay the same reverse stream, whatever ids their hellos name; and the
  connection a task relays for an id is one that a reverse listener accepted under this id.
\<close>

theorem reverse_streams_exclusive:
  assumes "sys_reaches d ctx sys" and "Suc (length (accepted (srv_streams (sys_server sys)))) < id_space"
    and "j < length (sys_tasks sys)" and "k < length (sys_tasks sys)"
    and "relaying (sys_tasks sys ! j)" and "relaying (sys_tasks sys ! k)"
    and "hello_of d ctx (task_env (sys_tasks sys ! j)) = Some hello" and "hello_stream_id hello = Some n"
    and "hello_of d ctx (task_env (sys_tasks sys ! k)) = Some hello'" and "hello_stream_id hello' = Some n"
  shows "j = k \<and> (\<exists>i conn left l. (task_phase (sys_tasks sys ! j) = Relay i conn left \<or>
      task_phase (sys_tasks sys ! j) = Finished (Relayed i conn)) \<and>
    (n, l, conn) \<in> set (accepted (srv_streams (sys_server sys))))"
proof -
  let ?t = "sys_tasks sys ! j"
  have ids: "stream_id d ctx ?t = [n]" "stream_id d ctx (sys_tasks sys ! k) = [n]"
    using assms(5-10) by (simp_all add: stream_id_def)
  have "distinct (concat (map (stream_id d ctx) (sys_tasks sys)))"
    using reaches_unique [OF assms(1,2)] by (simp add: unique_streams_def)
  then have "j = k"
    by (rule distinct_concat_index [where n = n]) (simp_all add: assms(3,4) ids)
  moreover obtain i conn left where r: "task_phase ?t = Relay i conn left \<or> task_phase ?t = Finished (Relayed i conn)"
    using assms(5) by (auto simp: relaying_def split: phase.splits outcome.splits)
  have "?t \<in> set (sys_tasks sys)" using assms(3) by simp
  from relaying_decided [OF assms(1) this r]
  obtain srv srv' where a: "alone d ctx (task_env ?t) srv = (Relayed i conn, srv')"
    and g: "set (claimed (srv_streams srv')) \<subseteq> set (claimed (streams_of sys))"
    unfolding decided_def grows_def by blast
  from relayed_source [OF a] obtain hello0 where "hello_of d ctx (task_env ?t) = Some hello0"
    and "\<forall>n. hello_stream_id hello0 = Some n \<longrightarrow> (n, conn) \<in> set (claimed (srv_streams srv'))"
    by metis
  then have "(n, conn) \<in> set (claimed (streams_of sys))" using g assms(7,8) by auto
  then obtain l where "(n, l, conn) \<in> set (accepted (streams_of sys))"
    using claimed_once [OF reaches_ok(1) [OF assms(1) refl] assms(2)] by blast
  ultimately show ?thesis using r by blast
qed

lemma reverse_streams_exclusive_witness:
  "\<exists>(sys :: nat system) k i conn left l. sys_reaches demo_deps demo_ctx sys \<and> k < length (sys_tasks sys) \<and>
     (task_phase (sys_tasks sys ! k) = Relay i conn left \<or> task_phase (sys_tasks sys ! k) = Finished (Relayed i conn)) \<and>
     (1, l, conn) \<in> set (accepted (srv_streams (sys_server sys)))"
proof -
  obtain sys left where sys: "sys_reaches demo_deps demo_ctx sys" and ne: "sys_tasks sys \<noteq> []"
    and phase: "task_phase (last (sys_tasks sys)) = Relay ''dev'' 7 left"
    and env: "task_env (last (sys_tasks sys)) = claim_env"
    and acc: "accepted (srv_streams (sys_server sys)) = [(1, ''dev'', 7)]" by (rule claim_relaying)
  let ?k = "length (sys_tasks sys) - 1"
  have k: "?k < length (sys_tasks sys)" using ne by simp
  have room: "Suc (length (accepted (srv_streams (sys_server sys)))) < id_space" by (simp add: acc id_space_def)
  have "relaying (sys_tasks sys ! ?k)" using ne phase by (simp add: relaying_def last_conv_nth)
  moreover have "hello_of demo_deps demo_ctx (task_env (sys_tasks sys ! ?k)) = Some demo_claim"
    using ne env claim_hello by (simp add: last_conv_nth)
  moreover have "hello_stream_id demo_claim = Some 1" by (simp add: demo_claim_def)
  ultimately show ?thesis
    using reverse_streams_exclusive [OF sys room k k] sys k by blast
qed

text \<open>
  C9: a reverse stream is not lost and does not leak. Until its ten seconds are over, it can be
  claimed unless it has been; and a stream that waits is one whose listener is still announcing it
  or whose timer is running.
\<close>

theorem reverse_stream_lifetime:
  assumes "sys_reaches d ctx sys" and "srv = sys_server sys" and "Suc (length (accepted (srv_streams srv))) < id_space"
  shows "(\<forall>(n, deadline) \<in> set (timers (srv_streams srv)).
      (\<exists>c s'. claim_stream n (srv_streams srv) = (Some c, s')) \<or> n \<in> fst ` set (claimed (srv_streams srv))) \<and>
    (\<forall>n c. pending (srv_streams srv) n = Some c \<longrightarrow>
      n \<in> fst ` set (timers (srv_streams srv)) \<or> (\<exists>l. listeners (srv_streams srv) l = Sending n))"
proof -
  have r: "reachable (srv_streams srv)" by (rule reaches_ok [OF assms(1,2)])
  show ?thesis
    using claimable_until_deadline [OF r assms(3)] pending_guarded [OF r assms(3)] by blast
qed

lemma reverse_stream_lifetime_witness:
  "(\<exists>c s'. claim_stream 1 (srv_streams demo_waiting) = (Some c, s')) \<or>
     1 \<in> fst ` set (claimed (srv_streams demo_waiting))"
proof -
  have "(1, int claim_timeout) \<in> set (timers (srv_streams demo_waiting))"
    by (simp add: demo_waiting_def demo_streams_fields)
  moreover obtain sys where sys: "sys_reaches demo_deps demo_ctx sys" "demo_waiting = sys_server sys"
    by (rule demo_waiting_reached)
  ultimately show ?thesis using reverse_stream_lifetime [OF sys demo_room] by blast
qed

text \<open>
  C10: no two accepted connections share a stream id, and every \<open>OpenStream\<close> that was sent or is
  still queued names the link whose listener accepted the connection with that id.
\<close>

theorem announcements_name_their_link:
  assumes "sys_reaches d ctx sys" and "srv = sys_server sys" and "Suc (length (accepted (srv_streams srv))) < id_space"
  shows "distinct (map fst (accepted (srv_streams srv))) \<and>
    (\<forall>m \<in> set (signalled (srv_streams srv) @ queued (open_stream (srv_streams srv))).
       \<exists>l n c. m = OpenStream l n \<and> (n, l, c) \<in> set (accepted (srv_streams srv)))"
proof -
  have r: "reachable (srv_streams srv)" by (rule reaches_ok [OF assms(1,2)])
  have sig: "\<exists>l n c. m = OpenStream l n \<and> (n, l, c) \<in> set (accepted (srv_streams srv))"
    if "m \<in> set (announced (srv_streams srv))" for m
    using that reachable_inv [OF r assms(3)]
    by (fastforce simp: signals_ok_def owner_def dest: map_of_SomeD)
  have "distinct (map fst (accepted (srv_streams srv)))"
    using accepted_distinct [OF reachable_ids [OF r]] assms(3) by simp
  then show ?thesis using sig unfolding announced_def by blast
qed

lemma announcements_name_their_link_witness:
  "distinct (map fst (accepted (srv_streams demo_waiting))) \<and>
    (\<exists>l n c. OpenStream ''dev'' 1 = OpenStream l n \<and> (n, l, c) \<in> set (accepted (srv_streams demo_waiting)))"
proof -
  have "OpenStream ''dev'' 1 \<in> set (signalled (srv_streams demo_waiting) @
      queued (open_stream (srv_streams demo_waiting)))"
    by (simp add: demo_waiting_def demo_streams_fields)
  moreover obtain sys where sys: "sys_reaches demo_deps demo_ctx sys" "demo_waiting = sys_server sys"
    by (rule demo_waiting_reached)
  ultimately show ?thesis using announcements_name_their_link [OF sys demo_room] by blast
qed



subsection \<open>The handshake limiter\<close>

text \<open>
  C12: permits are never lost or duplicated: in every state the server can reach, however its
  tasks interleave, the permits left and the tasks in a handshake add up to 64, so that never more
  than 64 handshakes are under way.
\<close>

theorem handshakes_bounded:
  assumes "sys_reaches d ctx sys"
  shows "permits (srv_limiter (sys_server sys)) =
      max_concurrent_handshakes - length (filter shaking (sys_tasks sys)) \<and>
    length (filter shaking (sys_tasks sys)) \<le> max_concurrent_handshakes"
  using reaches_permits [OF assms] unfolding permits_ok_def by linarith

lemma handshakes_bounded_witness:
  "\<exists>sys :: nat system. relaying (last (sys_tasks sys)) \<and> permits (srv_limiter (sys_server sys)) =
      max_concurrent_handshakes - length (filter shaking (sys_tasks sys))"
proof -
  obtain sys left where sys: "sys_reaches demo_deps demo_ctx sys" and ne: "sys_tasks sys \<noteq> []"
    and phase: "task_phase (last (sys_tasks sys)) = Relay ''dev'' 7 left"
    and "task_env (last (sys_tasks sys)) = claim_env"
    and "accepted (srv_streams (sys_server sys)) = [(1, ''dev'', 7)]" by (rule claim_relaying)
  have "relaying (last (sys_tasks sys))" using phase by (simp add: relaying_def)
  then show ?thesis using handshakes_bounded [OF sys] by blast
qed


text \<open>
  An attempt gets a permit exactly when fewer than ten attempts of that address are within
  the window and a permit is left; the attempts of other addresses are not touched.
\<close>

lemma permit_iff:
  assumes "sorted (attempts_of l ip)"
  shows "(fst (try_acquire t1 t2 ip l) \<longleftrightarrow>
      length (filter (\<lambda>t. t1 - int window \<le> t) (attempts_of l ip)) < 10 \<and> 0 < permits l) \<and>
    (\<forall>ip'. ip' \<noteq> ip \<longrightarrow> attempts_of (snd (try_acquire t1 t2 ip l)) ip' = attempts_of l ip')"
proof -
  have "pruned l t1 ip = filter (\<lambda>t. t1 - int window \<le> t) (attempts_of l ip)"
    using limiter.pop_front_filter [OF assms, of t1]
    by (simp add: pruned_def limiter_stale_def not_less)
  then show ?thesis
    using try_acquire_other_ip [of ip _ t1 t2 l]
    by (auto simp: try_acquire_granted under_limit_def max_attempts_per_window_def)
qed

text \<open>
  C14: connections that fail or are rejected leave no trace but one log line each and their attempts
  in the limiter. When every connection of a run of the data listener is turned away, and whatever
  accepts fail in between, the listener goes on to the end, and the permits, the streams that wait,
  the counters and the attempts of every address that did not call are as before.
\<close>

theorem failed_connection_traceless:
  assumes "run_data_accept_loop d ctx listen_addr None evs srv = (logged, srv')"
    and "all_turned_away d ctx evs srv"
  shows "length logged = Suc (length evs) \<and> srv_streams srv' = srv_streams srv \<and> srv_state srv' = srv_state srv \<and>
    permits (srv_limiter srv') = permits (srv_limiter srv) \<and>
    (\<forall>ip. ip \<in> set (callers evs) \<or> attempts_of (srv_limiter srv') ip = attempts_of (srv_limiter srv) ip)"
proof -
  obtain ls where "accept_each (\<lambda>e. tagged (err (dep_palette d) (''data accept failed: '' @ e))) (data_turn d ctx)
      evs srv = (ls, srv')" and "length logged = Suc (length ls)"
    using assms(1) by (auto simp: run_data_accept_loop_def listen_def Let_def split: prod.splits)
  with turned_away_loop [OF assms(2) this(1)] show ?thesis by (simp add: same_but_attempts_def)
qed

lemma failed_connection_traceless_witness:
  "\<exists>srv' :: nat server. srv_streams srv' = srv_streams demo_srv \<and> srv_state srv' = srv_state demo_srv \<and>
     permits (srv_limiter srv') = permits (srv_limiter demo_srv)"
proof -
  let ?evs = "[Accept_Error ''no fds'', Incoming (0, 0, SocketV4 203 0 113 9 5000, late_env)]"
  obtain logged srv1 where "accept_data demo_deps demo_ctx 0 0 (SocketV4 203 0 113 9 5000) late_env demo_srv =
      (Some (Failed (Timed_Out ''handshake timed out'')), logged, srv1)"
    by (rule late_failed)
  then have away: "all_turned_away demo_deps demo_ctx ?evs demo_srv" by (simp add: turned_away_def)
  obtain lines srv' where "run_data_accept_loop demo_deps demo_ctx ''0.0.0.0:9001'' None ?evs demo_srv = (lines, srv')"
    by (cases "run_data_accept_loop demo_deps demo_ctx ''0.0.0.0:9001'' None ?evs demo_srv")
  from failed_connection_traceless [OF this away] show ?thesis by blast
qed


subsection \<open>The control session\<close>

text \<open>
  C15: as long as what arrives between two turns of the loop is whole frames, the server's session
  stays up and writes exactly a \<open>Pong\<close> for every \<open>Ping\<close> and every announcement, in order.
\<close>

theorem server_session_replies:
  assumes "\<forall>t \<in> set ts. \<forall>m \<in> set (received t). json_reads_back to_json from_json m"
  shows "server_session from_json True (map (\<lambda>t. the (traffic_event to_json t)) ts) =
    new_session\<lparr>outgoing := concat (map server_sent ts)\<rparr>"
  using frame_aligned_run [OF assms never_hangs_up_server, of new_session]
  by (simp add: server_session_def session_run_def server_traffic) (simp add: new_session_def server_traffic)

lemma server_session_replies_witness:
  "server_session control_of_text True
     (map (\<lambda>t. the (traffic_event control_text t)) [Frames [Ping, Ping], Interrupt (OpenStream ''dev'' 1)]) =
   new_session\<lparr>outgoing :=
     concat (map server_sent [Frames [Ping, Ping], Interrupt (OpenStream ''dev'' 1)])\<rparr>"
  by (rule server_session_replies) (simp add: demo_messages)

text \<open>
  C16: reading a frame is not cancel-safe. A frame that keeps the session up when it arrives at
  once ends the session when another branch of the \<open>select!\<close> runs after its length prefix has been
  read: the prefix is dropped, and the text of the message is taken for a length.
\<close>

theorem interrupted_frame_ends_session:
  assumes "send_json to_json m = Inr fr" and "json_reads_back to_json from_json m"
    and "4 \<le> length (drop 4 fr)" and "max_message_len < le_val (take 4 (drop 4 fr))"
  shows "alive (server_session from_json True [Arrive fr]) \<and>
    \<not> alive (server_session from_json True [Arrive (take 4 fr), Other_Branch other, Arrive (drop 4 fr)])"
proof
  have "server_session from_json True (map (\<lambda>t. the (traffic_event to_json t)) [Frames [m]]) =
      fold (traffic_effect server_on_incoming) [Frames [m]] new_session"
    unfolding server_session_def session_run_def
    by (rule frame_aligned_run) (simp_all add: assms(2) never_hangs_up_server new_session_def)
  then have "server_session from_json True [Arrive fr] =
      fold (traffic_effect server_on_incoming) [Frames [m]] new_session"
    using assms(1) by simp
  then show "alive (server_session from_json True [Arrive fr])"
    by (simp only: server_traffic) (simp add: new_session_def)
next
  have "length (drop 4 fr) \<le> max_message_len"
    using assms(1,2) by (auto simp: send_json_def json_reads_back_def)
  from interrupted_frame [where h = server_on_incoming, OF assms(1) this assms(3,4)]
  show "\<not> alive (server_session from_json True [Arrive (take 4 fr), Other_Branch other, Arrive (drop 4 fr)])"
    by (simp add: server_session_def)
qed

lemma interrupted_frame_ends_session_witness:
  "\<exists>fr. alive (server_session control_of_text True [Arrive fr]) \<and>
    \<not> alive (server_session control_of_text True
        [Arrive (take 4 fr), Other_Branch (OpenStream ''dev'' 1), Arrive (drop 4 fr)])"
proof -
  have "send_json control_text Ping = Inr (u32_le 4 @ ''Ping'')" by (simp add: send_json_def)
  then show ?thesis
    using interrupted_frame_ends_session [OF _ demo_messages(1), of "u32_le 4 @ ''Ping''" "OpenStream ''dev'' 1"]
    by (auto simp: max_message_len_def byte_def)
qed

text \<open>
  C17: claiming does not look at the link a waiting connection belongs to. A peer that may use one
  reverse link is joined to a connection that came in on the listener of another reverse link,
  which it may not use, when it names that connection's id.
\<close>

theorem claim_ignores_the_listener:
  assumes "find (\<lambda>l. link_id l = i) (cfg_links cfg) = Some link" and "link_mode link = Reverse"
    and "link_transport link = Tcp" and "i \<in> rp_links peer" and "st_links (srv_state srv) i \<noteq> None"
    and "pending (srv_streams srv) n = Some c" and "(n, other, c) \<in> set (accepted (srv_streams srv))"
    and "other \<notin> rp_links peer"
  shows "fst (handle_hello cfg peer \<lparr>hello_link_id = i, hello_stream_id = Some n\<rparr> env srv) = Relayed i c"
  using assms find_SomeD [OF assms(1)]
  by (simp add: handle_hello_def serve_reverse_def claim_stream_def)

lemma claim_ignores_the_listener_witness:
  "fst (handle_hello demo_server laptop_peer \<lparr>hello_link_id = ''dev'', hello_stream_id = Some 1\<rparr>
      demo_env (demo_srv\<lparr>srv_streams := ops_streams\<rparr>)) = Relayed ''dev'' 9"
  by (rule claim_ignores_the_listener [where link = dev_link and other = "''ops''"])
    (simp_all add: demo_server_def web_link_def dev_link_def laptop_peer_def demo_srv_def
      new_state_links ops_streams_fields)

subsection \<open>Counters\<close>

text \<open>
  C18: however the tasks interleave, the active count of a link is the number of tasks that are
  relaying on it at that moment; and whenever no task is between its claim and its last counter
  update, the total is the number of relays that ended and the byte counters are the sums of what
  they reported (modulo \<open>2 ^ 64\<close>); a relay that ended in an error adds no bytes.
\<close>

theorem relays_add_up:
  assumes "sys_reaches d ctx sys" and "st_links (srv_state (sys_server sys)) i = Some st"
    and "results = map (\<lambda>t. env_copied (task_env t)) (filter (relayed_on i) (sys_tasks sys))"
  shows "active_streams st = of_nat (length (filter (relaying_on i) (sys_tasks sys))) \<and>
    ((\<forall>t \<in> set (sys_tasks sys). \<forall>c left. task_phase t \<noteq> Relay i c left) \<longrightarrow>
       total_streams st = of_nat (length results) \<and>
       bytes_forward st = sum_list (map forwarded results) \<and>
       bytes_back st = sum_list (map returned results))"
proof -
  have "total_streams st = of_nat (length results) \<and> bytes_forward st = sum_list (map forwarded results) \<and>
      bytes_back st = sum_list (map returned results)"
    if "\<forall>t \<in> set (sys_tasks sys). \<forall>c left. task_phase t \<noteq> Relay i c left"
    using settled_counters [OF assms(1,2) that] unfolding assms(3) by (simp add: account_def zero_stats_def)
  then show ?thesis using active_is_relaying [OF assms(1,2)] by blast
qed

lemma relays_add_up_witness:
  "\<exists>(sys :: nat system) st. sys_tasks sys \<noteq> [] \<and> st_links (srv_state (sys_server sys)) ''dev'' = Some st \<and>
     active_streams st = of_nat (length (filter (relaying_on ''dev'') (sys_tasks sys)))"
proof -
  obtain sys left where sys: "sys_reaches demo_deps demo_ctx sys" and ne: "sys_tasks sys \<noteq> []"
    and phase: "task_phase (last (sys_tasks sys)) = Relay ''dev'' 7 left"
    and "task_env (last (sys_tasks sys)) = claim_env"
    and "accepted (srv_streams (sys_server sys)) = [(1, ''dev'', 7)]" by (rule claim_relaying)
  obtain st where st: "st_links (srv_state (sys_server sys)) ''dev'' = Some st"
    using reaches_ok(2) [OF sys refl] by (auto simp: has_links_def demo_ctx_def demo_server_def dev_link_def)
  show ?thesis using ne st relays_add_up [OF sys st refl] by blast
qed

subsection \<open>UDP\<close>

text \<open>
  C19: the demultiplexer keeps the sources apart. Whatever datagrams other sources send, the queue
  of a source stays as it is; every queue holds at most sixteen datagrams, a session is only opened
  for a source that has none, and the permits of the limiter are where they were.
\<close>

theorem udp_sources_isolated:
  assumes "\<forall>e \<in> set es. ev_src e \<noteq> a"
  shows "sessions (fold (\<lambda>e s. fst (server_datagram sn ctx e s)) es srv) a = sessions srv a \<and>
    permits (udp_limiter (fold (\<lambda>e s. fst (server_datagram sn ctx e s)) es srv)) = permits (udp_limiter srv) \<and>
    (\<forall>b ch. sessions (fold (\<lambda>e s. fst (server_datagram sn ctx e s)) es new_udp_server) b = Some ch \<longrightarrow>
       length (queued ch) \<le> 16)"
proof -
  have "permits (udp_limiter (fold (\<lambda>e s. fst (server_datagram sn ctx e s)) es srv)) =
      permits (udp_limiter srv)"
    by (induction es arbitrary: srv) (simp_all add: datagram_permits)
  then show ?thesis
    using server_flows.isolated [OF assms, of sn ctx srv]
      server_flows.run_bounded [OF new_server_bounded, of sn ctx es]
    by (auto simp: server_flows.bounded_def)
qed

lemma udp_sources_isolated_witness:
  "sessions (fold (\<lambda>e s. fst (server_datagram demo_snow demo_uctx e s)) [demo_datagram] new_udp_server)
      (SocketV4 198 51 100 1 6000) = sessions new_udp_server (SocketV4 198 51 100 1 6000) \<and>
    permits (udp_limiter (fold (\<lambda>e s. fst (server_datagram demo_snow demo_uctx e s)) [demo_datagram] new_udp_server)) =
      permits (udp_limiter new_udp_server)"
proof -
  have "\<forall>e \<in> set [demo_datagram]. ev_src e \<noteq> SocketV4 198 51 100 1 6000" by (simp add: demo_datagram_def)
  from udp_sources_isolated [OF this, of demo_snow demo_uctx new_udp_server] show ?thesis by blast
qed

end
