(* ===== verification/Client_Properties.thy ===== *)
theory Client_Properties
  imports Examples
begin

section \<open>Properties of the client and of the wire\<close>

text \<open>
  What a started client promises (no failed \<open>expect\<close>, which links it opens streams for, how it
  reconnects), and that messages and UDP flows arrive as they were sent.
\<close>

lemma started_client:
  assumes "start_daemon b64_dec toml_from env path s = Client_Started ctx"
  shows "valid_config b64_dec (cctx_config ctx) \<and> cfg_role (cctx_config ctx) = Client"
proof -
  obtain cfg priv where c: "validate b64_dec cfg = []" "start_role b64_dec cfg priv = Client_Started ctx"
    using assms by (auto simp: start_daemon_def Let_def split: sum.splits if_splits)
  then have "valid_config b64_dec cfg" by (simp add: validate_Nil_iff)
  from start_role_valid [OF this, of priv] this show ?thesis using c(2) by auto
qed

lemma client_links:
  "start_daemon b64_dec toml_from env path s = Client_Started ctx \<Longrightarrow>
     \<forall>l \<in> set (cfg_links (cctx_config ctx)). valid_link Client l"
  using started_client [of b64_dec toml_from env path s ctx] by (auto simp: valid_config_def)

lemma udp_link_addr:
  "valid_udp cfg \<Longrightarrow> cfg_role cfg = Client \<Longrightarrow> l \<in> set (cfg_links cfg) \<Longrightarrow> link_transport l = Udp \<Longrightarrow>
     server_udp_addr cfg \<noteq> None"
  by (auto simp: valid_udp_def)

subsection \<open>Startup\<close>

text \<open>
  C21: a daemon that started as a client finds every field its configuration was validated for: it
  knows its listeners and its server, no task of it ever panics, however they interleave, and no
  UDP flow of a link it listens for does.
\<close>

theorem client_never_panics:
  assumes "start_daemon b64_dec toml_from fe path s = Client_Started ctx" and "cl_reaches d ctx sys"
  shows "run_client (cctx_config ctx) \<noteq> None \<and> udp_listeners (cfg_links (cctx_config ctx)) \<noteq> None \<and>
    (\<forall>t \<in> set (cl_dials sys). \<forall>msg. d_phase t \<noteq> Dial_Panic msg) \<and>
    (\<forall>l \<in> set (cfg_links (cctx_config ctx)). link_transport l = Udp \<longrightarrow>
       run_flow sn' hw (cctx_config ctx) priv remote (link_id l) addr dgram flow \<noteq> Flow_Panic)"
proof -
  let ?cfg = "cctx_config ctx"
  note v = started_client [OF assms(1)] and links = client_links [OF assms(1)]
  have addrs: "server_control_addr ?cfg \<noteq> None" "server_data_addr ?cfg \<noteq> None"
    using v by (auto simp: valid_config_def valid_role_def)
  have "run_client ?cfg \<noteq> None" "udp_listeners (cfg_links ?cfg) \<noteq> None"
    using forward_listeners_Some [OF links] udp_listeners_Some [OF links] addrs
    by (auto simp: run_client_def)
  moreover have "d_phase t \<noteq> Dial_Panic msg" if "t \<in> set (cl_dials sys)" for t msg
    using cl_reaches_sound [OF assms(2)] that addrs(2)
    by (auto simp: client_sound_def dial_ok_def dial_phase_ok_def split: dial_phase.splits)
  moreover have "run_flow sn' hw ?cfg priv remote (link_id l) addr dgram flow \<noteq> Flow_Panic"
    if "l \<in> set (cfg_links ?cfg)" "link_transport l = Udp" for l
    by (rule flow_no_panic, rule udp_link_addr [OF _ _ that]) (use v in \<open>auto simp: valid_config_def\<close>)
  ultimately show ?thesis by blast
qed

lemma client_never_panics_witness:
  "\<exists>(sys :: (bytes \<times> bytes) client_sys) t. cl_dials sys = [t] \<and> d_phase t \<noteq> Dial_Panic [] \<and>
   run_client demo_client \<noteq> None \<and>
   run_flow demo_snow hello_text demo_client laptop_key server_key ''dns'' (SocketV4 127 0 0 1 5353)
     ''query'' demo_flow \<noteq> Flow_Panic"
proof -
  obtain sys bs where "cl_reaches demo_cdeps demo_client_ctx sys" and d: "cl_dials sys =
      [\<lparr>d_link = ''dev'', d_stream = Some 1, d_peer = SocketV4 127 0 0 1 3000, d_env = demo_dial,
        d_phase = Tunnel bs [Active_Sub, Forward_Add 3, Back_Add 5]\<rparr>]"
    and "\<exists>st. st_links (cl_state sys) ''dev'' = Some st" by (rule client_relaying)
  note it = client_never_panics [OF demo_client_started this(1), of demo_snow hello_text laptop_key server_key
      "SocketV4 127 0 0 1 5353" "''query''" demo_flow]
  have "dns_link\<lparr>link_listen := Some ''0.0.0.0:8080'', link_target := None\<rparr> \<in> set (cfg_links demo_client)"
    by (simp add: demo_client_def)
  moreover have cfg: "cctx_config demo_client_ctx = demo_client" by (simp add: demo_client_ctx_def)
  ultimately have "run_flow demo_snow hello_text demo_client laptop_key server_key ''dns''
      (SocketV4 127 0 0 1 5353) ''query'' demo_flow \<noteq> Flow_Panic"
    using it unfolding cfg by (auto simp: dns_link_def)
  moreover obtain t where "cl_dials sys = [t]" using d by blast
  ultimately show ?thesis using it unfolding cfg by (intro exI [of _ sys] exI [of _ t]) simp
qed

subsection \<open>The tasks\<close>

text \<open>
  C22: however the client's tasks, sessions and reconnects interleave, and whatever the server sends,
  the tasks opened for streams are exactly the streams announced over the control connections, in
  order, each for an own reverse link; every other task is for an own forward link; what a task
  wrote into its tunnel is the hello of its link and stream; and the status says connected exactly
  while a session is up. When what arrives between two turns of a session is whole frames, it
  announces exactly the streams of the reverse links in the messages, in spite of any number of pings.
\<close>

theorem client_dials_as_announced:
  assumes "cl_reaches d ctx sys"
  shows "streams_opened sys = announced_so_far sys \<and>
    (\<forall>t \<in> set (cl_dials sys). allowed_link (cctx_config ctx) (d_link t) (d_stream t) \<and>
       (\<forall>bs left. d_phase t = Tunnel bs left \<longrightarrow>
          send_json (cd_hello d) \<lparr>hello_link_id = d_link t, hello_stream_id = d_stream t\<rparr> = Inr bs)) \<and>
    (control_status.connected (st_control (cl_state sys)) \<longleftrightarrow> cl_session sys \<noteq> None) \<and>
    (\<forall>ts. (\<forall>t \<in> set ts. \<forall>m \<in> set (received t). json_reads_back to_json (cd_control d) m) \<longrightarrow>
       spawned (client_session (cd_control d) True (cctx_config ctx) (map (\<lambda>t. the (traffic_event to_json t)) ts)) =
       concat (map (traffic_spawn (cctx_config ctx)) ts))"
proof -
  have "spawned (client_session (cd_control d) True cfg (map (\<lambda>t. the (traffic_event to_json t)) ts)) =
      concat (map (traffic_spawn cfg) ts)"
    if "\<forall>t \<in> set ts. \<forall>m \<in> set (received t). json_reads_back to_json (cd_control d) m" for cfg ts
    unfolding client_session_def session_run_def
    by (subst frame_aligned_run [OF that never_hangs_up_client])
      (simp_all add: client_traffic, simp_all add: new_session_def)
  then show ?thesis
    using cl_reaches_sound [OF assms]
    by (auto simp: client_sound_def dial_ok_def dial_phase_ok_def split: dial_phase.splits)
qed

lemma client_dials_as_announced_witness:
  "\<exists>(sys :: (bytes \<times> bytes) client_sys) bs. announced_so_far sys = [(''dev'', 1)] \<and>
     send_json hello_text \<lparr>hello_link_id = ''dev'', hello_stream_id = Some 1\<rparr> = Inr bs"
proof -
  obtain sys bs where "cl_reaches demo_cdeps demo_client_ctx sys" and d: "cl_dials sys =
      [\<lparr>d_link = ''dev'', d_stream = Some 1, d_peer = SocketV4 127 0 0 1 3000, d_env = demo_dial,
        d_phase = Tunnel bs [Active_Sub, Forward_Add 3, Back_Add 5]\<rparr>]"
    and "\<exists>st. st_links (cl_state sys) ''dev'' = Some st" by (rule client_relaying)
  note it = client_dials_as_announced [OF this(1), of control_text]
  have "streams_opened sys = [(''dev'', 1)]" by (simp add: streams_opened_def d map_filter_simps)
  moreover have "cd_hello demo_cdeps = hello_text" by (simp add: demo_cdeps_def)
  ultimately show ?thesis using it by (intro exI [of _ sys] exI [of _ bs]) (simp add: d)
qed

text \<open>
  C23: the client's counters are those of its tasks too: the active count of a link is the number of
  tasks relaying on it at that moment, and when none of its tasks is between two updates the totals
  are those of the relays that ended.
\<close>

theorem client_relays_add_up:
  assumes "cl_reaches d ctx sys" and "st_links (cl_state sys) i = Some st"
    and "results = map (\<lambda>t. dial_copied (d_env t)) (filter (dial_relayed_on i) (cl_dials sys))"
  shows "active_streams st = of_nat (length (filter (dial_relays_on i) (cl_dials sys))) \<and>
    ((\<forall>t \<in> set (cl_dials sys). \<forall>bs op ops. d_link t = i \<longrightarrow> d_phase t \<noteq> Tunnel bs (op # ops)) \<longrightarrow>
       total_streams st = of_nat (length results) \<and>
       bytes_forward st = sum_list (map forwarded results) \<and>
       bytes_back st = sum_list (map returned results))"
  using client_active [OF assms(1,2)] client_settled [OF assms(1,2)]
  unfolding assms(3) by (simp add: account_def zero_stats_def)

lemma client_relays_add_up_witness:
  "\<exists>(sys :: (bytes \<times> bytes) client_sys) st. st_links (cl_state sys) ''dev'' = Some st \<and> active_streams st = 1"
proof -
  obtain sys bs where r: "cl_reaches demo_cdeps demo_client_ctx sys" and d: "cl_dials sys =
      [\<lparr>d_link = ''dev'', d_stream = Some 1, d_peer = SocketV4 127 0 0 1 3000, d_env = demo_dial,
        d_phase = Tunnel bs [Active_Sub, Forward_Add 3, Back_Add 5]\<rparr>]"
    and st: "\<exists>st. st_links (cl_state sys) ''dev'' = Some st" by (rule client_relaying)
  then obtain st where "st_links (cl_state sys) ''dev'' = Some st" by blast
  moreover have "filter (dial_relays_on ''dev'') (cl_dials sys) = cl_dials sys"
    by (simp add: d dial_relays_on_def)
  ultimately show ?thesis using client_relays_add_up [OF r _ refl] d by fastforce
qed

subsection \<open>Reconnecting\<close>

text \<open>
  C24: after a session, the reconnect loop sleeps 1, 2, 4, ... seconds, never more than 30, until
  the next session, whatever happened before; and after every attempt the status says
  disconnected.
\<close>

theorem reconnect_backoff:
  "slept (run_control_loop pal io_text addr (before @ Connected_At now # map Connect_Failed es) c) =
     slept (run_control_loop pal io_text addr before c) @
     map (\<lambda>k. min (secs 1 * 2 ^ k) (secs 30)) [0..<Suc (length es)] \<and>
   \<not> control_status.connected (last (statuses (run_control_loop pal io_text addr attempts (set_disconnected c))))"
proof
  show "slept (run_control_loop pal io_text addr (before @ Connected_At now # map Connect_Failed es) c) =
     slept (run_control_loop pal io_text addr before c) @
     map (\<lambda>k. min (secs 1 * 2 ^ k) (secs 30)) [0..<Suc (length es)]"
    unfolding run_control_loop_def fold_append comp_apply session_then_failures
    by (simp add: backoff_at_def max_backoff_def)
  show "\<not> control_status.connected (last (statuses (run_control_loop pal io_text addr attempts (set_disconnected c))))"
    using loop_statuses [of "start_loop (set_disconnected c)" pal io_text addr attempts]
    by (simp add: run_control_loop_def start_loop_def set_disconnected_def)
qed

end
