(* ===== verification/Tool_Properties.thy ===== *)
theory Tool_Properties
  imports Examples
begin

section \<open>Properties of the programs around the tunnel\<close>

text \<open>
  Configuration, keys and startup of the daemon; the firewall that reads its log; the metrics
  exporter.
\<close>

subsection \<open>Configuration and startup\<close>

text \<open>
  C25: the list of problems is empty exactly for the configurations that satisfy the rules of both
  roles, stated once as a predicate: which fields are present, keys that decode and are distinct,
  unique names and link ids, links with exactly the address their direction needs, and the UDP
  address present exactly when a link uses UDP.
\<close>

theorem no_problems_iff_valid: "validate b64_dec cfg = [] \<longleftrightarrow> valid_config b64_dec cfg"
  by (rule validate_Nil_iff)

text \<open>
  C26: \<open>ghostport run\<close> starts a role exactly when the file loads, is valid, and the private key it
  names can be loaded; it never panics on the way.
\<close>

theorem daemon_starts_exactly_when:
  "((\<exists>ctx uctx. start_daemon b64_dec toml_from env path s = Server_Started ctx uctx) \<or>
    (\<exists>ctx. start_daemon b64_dec toml_from env path s = Client_Started ctx) \<longleftrightarrow>
    (\<exists>cfg priv. load toml_from env path s = Inr cfg \<and> valid_config b64_dec cfg \<and>
       load_private_key b64_dec env (private_key_path cfg) s = Inr priv)) \<and>
   start_daemon b64_dec toml_from env path s \<noteq> Start_Panic"
  unfolding daemon_starts_iff [symmetric]
  using daemon_no_panic [of b64_dec toml_from env path s]
  by (cases "start_daemon b64_dec toml_from env path s") auto



text \<open>
  C28: after \<open>ghostport keygen\<close> has succeeded, the private key file has mode \<open>0600\<close> and loads as
  the generated key, and the public key beside it is the text that decodes to the public half.
\<close>

theorem keygen_then_load:
  assumes "b64_lawful b64_enc b64_dec" and "length (kp_private kp) = 32" and "length (kp_public kp) = 32"
    and "run_keygen pal b64_enc sha256 env home out kp s = (Success, ls, Inr s')"
    and "env (Read_File (expand_tilde home out)) = None"
  shows "load_private_key b64_dec env (expand_tilde home out) s' = Inr (kp_private kp) \<and>
    map_option f_mode (fs_files s' (expand_tilde home out)) = Some 384 \<and>
    (\<exists>f. fs_files s' (public_key_path (expand_tilde home out)) = Some f \<and>
       decode_public_key b64_dec (trim (f_data f)) = Inr (kp_public kp))"
proof -
  note files = keygen_files [OF assms(4)]
  obtain f where f: "fs_files s' (public_key_path (expand_tilde home out)) = Some f"
    "f_data f = b64_enc (kp_public kp) @ [CHR 10]"
    using files(2) by blast
  have "trim (f_data f) = encode_public_key b64_enc (kp_public kp)"
    using assms(1) f(2) by (simp add: b64_lawful_def encode_public_key_def)
  then have "decode_public_key b64_dec (trim (f_data f)) = Inr (kp_public kp)"
    using decode_encode [OF assms(1,3)] by simp
  then show ?thesis
    using keygen_private_loads [OF assms(1,2,4,5)] files(1) f(1) by simp
qed

lemma keygen_then_load_witness:
  "\<exists>s'. load_private_key hex_dec willing (expand_tilde None ''/k/id'') s' = Inr server_key \<and>
    map_option f_mode (fs_files s' (expand_tilde None ''/k/id'')) = Some 384 \<and>
    (\<exists>f. fs_files s' (public_key_path (expand_tilde None ''/k/id'')) = Some f \<and>
       decode_public_key hex_dec (trim (f_data f)) = Inr laptop_key)"
proof -
  obtain ls s' where "run_keygen no_colour hex_enc (\<lambda>_. []) willing None ''/k/id'' demo_pair demo_store =
      (Success, ls, Inr s')"
    by (rule demo_keygen)
  moreover have "length (kp_private demo_pair) = 32" "length (kp_public demo_pair) = 32"
    by (simp_all add: demo_pair_def server_key_def laptop_key_def)
  moreover have "willing (Read_File (expand_tilde None ''/k/id'')) = None" by (simp add: willing_def)
  ultimately have "load_private_key hex_dec willing (expand_tilde None ''/k/id'') s' = Inr (kp_private demo_pair) \<and>
    map_option f_mode (fs_files s' (expand_tilde None ''/k/id'')) = Some 384 \<and>
    (\<exists>f. fs_files s' (public_key_path (expand_tilde None ''/k/id'')) = Some f \<and>
       decode_public_key hex_dec (trim (f_data f)) = Inr (kp_public demo_pair))"
    using keygen_then_load [OF hex_lawful] by blast
  then show ?thesis by (auto simp: demo_pair_def)
qed

text \<open>
  A status snapshot is read by \<open>ghostport status\<close> as the daemon took it, and the socket it
  comes through can only be opened by its owner.
\<close>

lemma status_reaches_its_owner:
  assumes "run_ipc_server env socket s = (True, s')" and "env (Set_Permissions socket 384) = None"
    and "respond to_json snap = Inr bs" and "from_json bs = Inr snap"
  shows "query_status from_json socket (Inr (Inr bs)) = Inr snap \<and>
    map_option f_mode (fs_files s' socket) = Some 384"
proof -
  have "map_option f_mode (fs_files s' socket) = Some 384"
    using ipc_socket_mode [OF assms(1,2)] by auto
  then show ?thesis using assms(4) by (simp add: query_status_def)
qed

subsection \<open>Addresses\<close>

text \<open>
  The text the daemon prints for an IPv4 address or socket address is read back as the same
  address, and a link with such an address passes the check of the configuration.
\<close>

lemma printed_addresses_parse:
  "parse_socket_addr (show_socket_addr (SocketV4 a b c d p)) = Some (SocketV4 a b c d p) \<and>
   parse_ip_addr (show_ip (V4 a b c d)) = Some (V4 a b c d) \<and>
   valid_addr (Some (show_socket_addr (SocketV4 a b c d p)))"
  using parse_show_socket_v4 [of a b c d p] parse_ip_show_v4 [of a b c d]
  by (simp add: valid_addr_def)

subsection \<open>The firewall\<close>

text \<open>The patterns over the daemon's own lines, read from left to right.\<close>

lemma socket_v4_chars:
  "c \<notin> set (show_socket_addr (SocketV4 a b d e p))" if "\<not> is_digit c" and "c \<noteq> CHR ''.''" and "c \<noteq> CHR '':''"
  using that show_nat_digits by (auto simp: show_v4_def show_word_def)

lemma captures_socket_skip:
  assumes "prefix \<noteq> []" and "\<not> is_digit (hd prefix)" and "hd prefix \<noteq> CHR ''.''" and "hd prefix \<noteq> CHR '':''"
  shows "captures nd (prefix, suffix) (show_socket_addr (SocketV4 a b c d p) @ t) =
    captures nd (prefix, suffix) t"
  by (rule captures_first_char) (use assms socket_v4_chars in auto)

lemma esc_code: "esc = CHR 0x1B"
  by (simp add: esc_def char_of_def bit_iff_odd)

lemma no_esc_socket: "no_esc (show_socket_addr (SocketV4 a b c d p))"
  unfolding no_esc_def by (rule socket_v4_chars) (simp_all add: is_digit_def esc_code byte_def)


lemma strip_erred:
  assumes "is_sgr (red pal)" and "is_sgr (reset pal)" and "no_esc t"
  shows "strip_ansi (tagged (err pal t)) = ''ghostport: '' @ t"
  unfolding tagged_def err_def
  by (rule strip_painted [OF assms(1,2) _ assms(3)]) (simp add: no_esc_def esc_code)

lemma captured_after:
  assumes "\<not> ip_char (hd r)" and "r \<noteq> []" and "hd r \<noteq> CHR '']''" and "starts_with suffix r" and "prefix \<noteq> []"
  shows "captures nd (prefix, suffix) (prefix @ show_socket_addr (SocketV4 a b c d p) @ r) =
    Some (show_v4 a b c d)"
  by (rule captures_here) (use assms capture_socket_v4 in auto)

text \<open>What the detector sees of the daemon's own lines.\<close>

lemma too_many_after:
  "captures nd (prefix, too_many) (prefix @ show_socket_addr (SocketV4 a b c d p) @ too_many @ t) =
     Some (show_v4 a b c d)" if "prefix \<noteq> []"
  by (rule captured_after)
    (simp_all add: that too_many_def ip_char_def is_digit_def byte_def starts_with_def)









lemma injected_seen:
  assumes "CHR ''c'' \<notin> set name"
  shows "captures nd (''control: rejected '', too_many)
     (''ghostport: '' @ ''data connection from '' @ show_socket_addr (SocketV4 a b c d p) @
      '': peer '' @ quoted name @ '' is not authorized for link '' @ CHR 0x22 #
      (''control: rejected '' @ show_socket_addr (SocketV4 a' b' c' d' p') @ too_many @ t)) =
   Some (show_v4 a' b' c' d')"
proof -
  let ?rest = "''control: rejected '' @ show_socket_addr (SocketV4 a' b' c' d' p') @ too_many @ t"
  have 1: "captures nd (''control: rejected '', too_many)
      ((quoted name @ '' is not authorized for link '' @ [CHR 0x22]) @ ?rest) = Some (show_v4 a' b' c' d')"
    using assms too_many_after [of "''control: rejected ''" nd a' b' c' d' p' t]
    by (subst captures_first_char) (simp_all del: captures.simps add: quoted_def)
  have 2: "captures nd (''control: rejected '', too_many) ('': peer '' @ s) =
      captures nd (''control: rejected '', too_many) s" for s
    by (rule captures_first_char) simp_all
  have 3: "captures nd (''control: rejected '', too_many)
      (''ghostport: '' @ ''data connection from '' @ show_socket_addr (SocketV4 a b c d p) @ s) =
      captures nd (''control: rejected '', too_many) s" for s
    by (simp add: captures_socket_skip is_digit_def byte_def starts_with_def del: show_socket_addr.simps)
  let ?x = "quoted name @ '' is not authorized for link '' @ CHR 0x22 # ?rest"
  have "(quoted name @ '' is not authorized for link '' @ [CHR 0x22]) @ ?rest = ?x" by simp
  then show ?thesis using 1 3 [of "'': peer '' @ ?x"] 2 [of ?x] by argo
qed

text \<open>
  C30: a link id goes into the log as the peer sent it, so an authenticated peer can write a line
  that reads as the rejection of an address of its choice: it is refused the link, and the firewall
  is told to ban the address at once.
\<close>

theorem log_injection_bans_anyone:
  assumes "is_sgr (red pal)" and "is_sgr (reset pal)" and "io_text = (\<lambda>e. case e of Other t \<Rightarrow> t | _ \<Rightarrow> [])"
    and "CHR ''c'' \<notin> set (rp_name peer)" and "no_esc (rp_name peer)"
    and "hello_link_id hello = ''control: rejected '' @ show_socket_addr (SocketV4 a' b' c' d' p') @ too_many"
    and "hello_link_id hello \<notin> rp_links peer"
  shows "\<exists>line. data_log pal io_text (SocketV4 a b c d p) (fst (handle_hello cfg peer hello env srv)) = [line] \<and>
    extract_offense nd line = Some (V4 a' b' c' d', Rate_Limited)"
proof -
  let ?t = "''data connection from '' @ show_socket_addr (SocketV4 a b c d p) @ '': peer '' @
    quoted (rp_name peer) @ '' is not authorized for link '' @ CHR 0x22 #
    (''control: rejected '' @ show_socket_addr (SocketV4 a' b' c' d' p') @ too_many @ [CHR 0x22])"
  have line: "data_log pal io_text (SocketV4 a b c d p) (fst (handle_hello cfg peer hello env srv)) =
      [tagged (err pal ?t)]"
    using assms(3,6,7) by (simp add: handle_hello_def not_authorized_def quoted_def)
  have "no_esc ?t"
    using no_esc_socket [of a b c d p] no_esc_socket [of a' b' c' d' p'] assms(5)
    by (simp add: no_esc_def esc_code too_many_def quoted_def)
  note seen = strip_erred [OF assms(1,2) this]
  have "extract_offense nd (tagged (err pal ?t)) = Some (V4 a' b' c' d', Rate_Limited)"
    unfolding extract_offense_def seen patterns_def first_offense.simps injected_seen [OF assms(4)]
    by (simp add: parse_ip_show_v4)
  then show ?thesis using line by blast
qed

lemma log_injection_bans_anyone_witness:
  "\<exists>line. data_log no_colour (\<lambda>e. case e of Other t \<Rightarrow> t | _ \<Rightarrow> []) (SocketV4 198 51 100 1 6000)
      (fst (handle_hello demo_server laptop_peer
        \<lparr>hello_link_id = ''control: rejected '' @ show_socket_addr (SocketV4 203 0 113 9 5000) @ too_many,
         hello_stream_id = None\<rparr> demo_env demo_srv)) = [line] \<and>
    extract_offense no_unicode_digit line = Some (V4 203 0 113 9, Rate_Limited)"
  by (rule log_injection_bans_anyone)
    (simp_all add: no_colour_sgr laptop_peer_def no_esc_def esc_code)



text \<open>
  C32: the tracker against the history: an address that may be banned is banned exactly when the
  daemon's own limiter rejected it, or some window holds as many failed handshakes of it as the
  threshold, however the reports of other addresses are mixed in.
\<close>

theorem banned_exactly_when_sustained:
  assumes "sorted (map fst evs)" and "\<not> is_never_bannable ip" and "ip \<notin> set (parsed_allowlist cfg)"
    and "0 < app_threshold cfg"
  shows "if (\<exists>now. (now, ip, Rate_Limited) \<in> set evs) \<or> sustained cfg ip evs
    then Script (ban_script ip (unat (ban_secs cfg))) \<in> set (issued (watch nft cfg False evs (start_firewall cfg)))
    else \<forall>cmd \<in> set (issued (watch nft cfg False evs (start_firewall cfg))).
      \<exists>ip'. ip' \<noteq> ip \<and> cmd = Script (ban_script ip' (unat (ban_secs cfg)))"
proof (cases "limited_in ip evs")
  case True
  then show ?thesis
    using limited_banned [OF assms(2,3)] by (auto simp: limited_in_def)
next
  case False
  then show ?thesis
    using calm [OF assms(2-4,1) False] sustained_banned [OF assms(2-4,1) False]
    by (simp add: limited_in_def others_only_def)
qed

lemma banned_exactly_when_sustained_witness:
  "Script (ban_script demo_ip 3600) \<in> set (issued (watch quiet_nft demo_app False
     [(0, demo_ip, Handshake_Failed), (1, V4 203 0 113 77, Handshake_Failed), (2, demo_ip, Handshake_Failed),
      (3, demo_ip, Handshake_Failed)] (start_firewall demo_app)))"
proof -
  let ?evs = "[(0 :: instant, demo_ip, Handshake_Failed), (1, V4 203 0 113 77, Handshake_Failed),
    (2, demo_ip, Handshake_Failed), (3, demo_ip, Handshake_Failed)]"
  have "sustained demo_app demo_ip ?evs"
    unfolding sustained_def
    by (rule exI [of _ 0])
      (simp add: fail_times_def in_window_def demo_app_def demo_ip_def secs_def)
  moreover have "sorted (map fst ?evs)" "\<not> is_never_bannable demo_ip"
    "demo_ip \<notin> set (parsed_allowlist demo_app)" "0 < app_threshold demo_app"
    by (simp_all add: demo_allowlist) (simp_all add: demo_ip_def demo_app_def)
  note banned_exactly_when_sustained [OF this, of quiet_nft]
  ultimately show ?thesis by (simp add: demo_app_def)
qed

subsection \<open>The metrics exporter\<close>

text \<open>
  C33: however the request \<open>GET /metrics\<close> is cut into reads, a Prometheus client that reads the
  answer by its length gets exactly the rendered snapshot.
\<close>

theorem scrape_gets_the_snapshot:
  assumes "\<forall>c \<in> set cs. c \<noteq> []"
    and "concat cs = ''GET /metrics HTTP/1.1'' @ [CHR 0x0D] @ line_feed # rest"
  shows "\<exists>resp. handle_http True (map Inr cs @ later) q = Some resp \<and>
    http_body resp = Some (render (query_snapshot q))"
proof -
  have "read_request_line [] (map Inr cs @ later) =
      Some (Inr (trim (from_utf8_lossy (''GET /metrics HTTP/1.1'' @ [CHR 0x0D]))))"
    by (rule read_request_chunks [where rest = rest])
      (use assms in \<open>simp_all add: line_feed_def max_request_line_def\<close>)
  then have "read_request_line [] (map Inr cs @ later) = Some (Inr ''GET /metrics HTTP/1.1'')"
    by (simp only: demo_request)
  then show ?thesis
    by (simp add: handle_http_def demo_request_path http_body_response no_cr_def)
qed

lemma scrape_gets_the_snapshot_witness:
  "\<exists>resp. handle_http True (map Inr [''GET /met'', ''rics HTTP/1.1'' @ [CHR 0x0D], line_feed # ''Host: x''] @ [])
      (In_Time (Inr demo_snapshot)) = Some resp \<and>
    http_body resp = Some (render (query_snapshot (In_Time (Inr demo_snapshot))))"
  by (rule scrape_gets_the_snapshot [where rest = "''Host: x''"]) simp_all

end
