(* ===== verification/Tui_Strings.thy ===== *)
theory Tui_Strings
  imports Tui_Events
begin

section \<open>The strings of the console are strings\<close>

text \<open>
  A Rust \<open>String\<close> is valid UTF-8, by its type. The model has byte sequences, so this is an invariant
  of it: whatever characters are typed into the input lines, cut off them by Backspace and trimmed,
  every string of the interface stays valid UTF-8, the texts of its messages included, and so does
  the file it writes.
\<close>

subsection \<open>The types of the state\<close>

definition link_utf8 :: "link_config \<Rightarrow> bool" where
  "link_utf8 l \<longleftrightarrow> utf8 (link_id l) \<and> pred_option utf8 (link_listen l) \<and> pred_option utf8 (link_target l)"

definition peer_utf8 :: "peer_config \<Rightarrow> bool" where
  "peer_utf8 p \<longleftrightarrow> utf8 (peer_name p) \<and> utf8 (peer_key p) \<and> list_all utf8 (peer_links p)"

definition config_utf8 :: "config \<Rightarrow> bool" where
  "config_utf8 cfg \<longleftrightarrow> utf8 (private_key_path cfg) \<and>
     list_all (pred_option utf8) [peer_public_key cfg, listen_control cfg, listen_data cfg, listen_udp cfg,
       server_control_addr cfg, server_data_addr cfg, server_udp_addr cfg] \<and>
     list_all link_utf8 (cfg_links cfg) \<and> list_all peer_utf8 (cfg_peers cfg)"

definition snapshot_utf8 :: "status_snapshot \<Rightarrow> bool" where
  "snapshot_utf8 s \<longleftrightarrow> utf8 (snap_role s) \<and> pred_option utf8 (snap_peer_addr s) \<and>
     pred_option utf8 (snap_peer_name s) \<and>
     list_all (\<lambda>l. utf8 (snap_id l) \<and> utf8 (snap_mode l)) (snap_links s)"

definition app_utf8 :: "app \<Rightarrow> bool" where
  "app_utf8 a \<longleftrightarrow> utf8 (config_path a) \<and> config_utf8 (app_config a) \<and> utf8 (input_buffer a) \<and>
     list_all (pred_option utf8) [status_error a, service_state a, enabled_state a, message a,
       pending_link_id a, pending_default_address a, editing_original_id a, pending_peer_name a,
       pending_peer_public_key a, pending_default_peer_public_key a, editing_original_peer_name a] \<and>
     list_all utf8 (pending_peer_links a) \<and> pred_option snapshot_utf8 (status_snap a) \<and>
     pred_option (\<lambda>(at, s). snapshot_utf8 s) (previous_snapshot a)"

definition file_utf8 :: "string \<Rightarrow> fs \<Rightarrow> bool" where
  "file_utf8 path s \<longleftrightarrow> pred_option (\<lambda>f. utf8 (f_data f)) (fs_files s path)"

text \<open>What the outside gives: the strings of the libraries and the operating system, and the keys.\<close>

definition env_utf8 :: "tui_env \<Rightarrow> bool" where
  "env_utf8 env \<longleftrightarrow>
     (case env_query env of Inl e \<Rightarrow> utf8 e | Inr s \<Rightarrow> snapshot_utf8 s) \<and>
     (\<forall>op. pred_option utf8 (env_fs env op)) \<and>
     (\<forall>cfg. case env_toml env cfg of Inl e \<Rightarrow> utf8 e | Inr out \<Rightarrow> utf8 out)"

definition event_typed :: "tui_event \<Rightarrow> bool" where
  "event_typed ev \<longleftrightarrow> (case ev of Key (Char c) \<Rightarrow> unicode_scalar c | _ \<Rightarrow> True)"

lemmas app_utf8_defs = app_utf8_def config_utf8_def link_utf8_def peer_utf8_def

lemma utf8_literals [simp]:
  "utf8 ([CHR 0xE2, CHR 0x80, CHR 0x94] @ s) = utf8 s"
  "utf8 (CHR 0xE2 # CHR 0x80 # CHR 0x94 # s) = utf8 s"
  by (subst utf8.simps, simp add: utf8_next_def second_ok_def is_continuation_def byte_def
      numeral_2_eq_2)+

lemma utf8_quoted [simp]: "utf8 s \<Longrightarrow> utf8 (quoted s)"
  by (simp add: quoted_def byte_def)

subsection \<open>The texts of the validation\<close>

lemma require_utf8:
  assumes "utf8 field" and "utf8 because"
  shows "list_all utf8 (require_present field v because)" and "list_all utf8 (require_absent field v because)"
  using assms by (simp_all add: require_defs byte_def)

lemma validate_link_utf8: "link_utf8 l \<Longrightarrow> list_all utf8 (validate_link r l)"
  by (cases r; cases "link_mode l")
    (auto simp: validate_link_def link_utf8_def link_needs_listen_def byte_def Let_def split: option.split)

lemma validate_links_utf8: "list_all link_utf8 ls \<Longrightarrow> list_all utf8 (validate_links r seen ls)"
  by (induction r seen ls rule: validate_links.induct)
    (auto simp: validate_link_utf8 link_utf8_def byte_def)

lemma validate_udp_utf8:
  assumes "list_all link_utf8 (cfg_links cfg)"
  shows "list_all utf8 (validate_udp cfg)"
proof -
  have "list_all utf8 (reverse_udp_error l)" if "l \<in> set (cfg_links cfg)" for l
    using assms that by (auto simp: reverse_udp_error_def link_utf8_def list_all_iff byte_def)
  then have "list_all utf8 (concat (map reverse_udp_error (cfg_links cfg)))"
    by (auto simp: list_all_iff)
  then show ?thesis
    by (auto simp: validate_udp_def Let_def byte_def quoted_def intro!: require_utf8 split: role.split)
qed

lemma validate_peers_utf8:
  "list_all peer_utf8 ps \<Longrightarrow> list_all utf8 (validate_peers_loop b64_dec ids names keys ps)"
proof (induction ps arbitrary: names keys)
  case (Cons p ps)
  have p: "utf8 (peer_name p)" "\<forall>i \<in> set (peer_links p). utf8 i" "list_all peer_utf8 ps"
    using Cons.prems by (simp_all add: peer_utf8_def list_all_iff)
  define head where "head = ''peer '' @ quoted (peer_name p) @ '': ''"
  define unknown where "unknown = (\<lambda>i. if i \<notin> ids then [head @ ''link id '' @ quoted i @
    '' is not defined in this config's `links`''] else [])"
  have head: "utf8 head" unfolding head_def using p(1) by (simp add: byte_def)
  then have "\<forall>i \<in> set (peer_links p). list_all utf8 (unknown i)"
    using p(2) by (simp add: unknown_def byte_def)
  then have "list_all utf8 (concat (map unknown (peer_links p)))"
    by (auto simp: list_all_iff)
  moreover have "utf8 (head @ ''duplicate name'')"
    "utf8 (head @ ''public_key is already used by another peer'')"
    "utf8 (head @ ''public_key is not a valid base64-encoded 32-byte key'')"
    using head by (simp_all add: byte_def)
  moreover note Cons.IH [OF p(3)]
  ultimately show ?case
    unfolding validate_peers_loop.simps Let_def head_def [symmetric] unknown_def [symmetric]
    by (simp del: utf8_append split: sum.split)
qed simp

lemma validate_role_utf8:
  assumes "config_utf8 cfg"
  shows "list_all utf8 (validate_role b64_dec cfg)"
  using assms
  by (cases "cfg_role cfg")
    (simp_all add: validate_role_def validate_peers_def config_utf8_def validate_peers_utf8
      require_utf8 Let_def byte_def quoted_def split: option.split sum.split)

lemma validate_utf8: "config_utf8 cfg \<Longrightarrow> list_all utf8 (validate b64_dec cfg)"
  by (simp add: validate_def validate_role_utf8 validate_links_utf8 validate_udp_utf8 config_utf8_def)

subsection \<open>The operations\<close>

lemma nth_opt_utf8:
  "list_all p xs \<Longrightarrow> nth_opt xs i = Some x \<Longrightarrow> p x"
  by (auto simp: nth_opt_def list_all_iff split: if_splits)

lemma upsert_all: "list_all p xs \<Longrightarrow> p x \<Longrightarrow> list_all p (upsert key old x xs)"
  by (auto simp: list_all_iff upsert_set)

lemma remove_at_all: "list_all p xs \<Longrightarrow> list_all p (remove_at i xs)"
  by (auto simp: list_all_iff remove_at_def dest: in_set_takeD in_set_dropD)

lemma note_utf8 [simp]: "utf8 (unsaved_note)"
  by (simp add: unsaved_note_def byte_def)

lemma template_utf8: "t \<in> set templates \<Longrightarrow> utf8 (default_id t)"
  by (auto simp: templates_def template_def byte_def)

lemma default_utf8: "pred_option utf8 x \<Longrightarrow> utf8 (unwrap_or_default x)"
  by (cases x) (simp_all add: unwrap_or_default_def)

lemma link_ops_utf8:
  "app_utf8 a \<Longrightarrow> app_utf8 (move_link_selection d a)" "app_utf8 a \<Longrightarrow> app_utf8 (begin_add_link a)"
  "app_utf8 a \<Longrightarrow> app_utf8 (move_template_selection d a)" "app_utf8 a \<Longrightarrow> app_utf8 (cancel_link_wizard a)"
  "app_utf8 a \<Longrightarrow> app_utf8 (confirm_link_id a)" "app_utf8 a \<Longrightarrow> app_utf8 (choose_link_mode m a)"
  by (simp_all add: app_utf8_def move_link_selection_def begin_add_link_def move_template_selection_def
      cancel_link_wizard_def confirm_link_id_def choose_link_mode_def utf8_trim default_utf8 Let_def)

lemma edit_link_utf8: "app_utf8 a \<Longrightarrow> app_utf8 (begin_edit_link a)"
  by (auto simp: app_utf8_defs begin_edit_link_def selected_link_def default_utf8
      dest!: nth_opt_utf8 [rotated] split: option.split)

lemma template_choice_utf8: "app_utf8 a \<Longrightarrow> app_utf8 (confirm_template_choice a)"
  by (auto simp: app_utf8_def confirm_template_choice_def nth_opt_def template_utf8 show_word_def byte_def
      Let_def split: option.split if_splits)

lemma wizard_link_utf8: "utf8 i \<Longrightarrow> utf8 addr \<Longrightarrow> link_utf8 (wizard_link cfg i m addr)"
  by (simp add: wizard_link_def link_utf8_def)

lemma set_links_utf8:
  "app_utf8 a \<Longrightarrow> list_all link_utf8 ls \<Longrightarrow> app_utf8 (set_links ls a)"
  "app_utf8 a \<Longrightarrow> list_all peer_utf8 ps \<Longrightarrow> app_utf8 (set_peers ps a)"
  by (simp_all add: app_utf8_def config_utf8_def set_links_def set_peers_def)

lemma app_utf8_lists:
  "app_utf8 a \<Longrightarrow> list_all link_utf8 (app_links a)" "app_utf8 a \<Longrightarrow> list_all peer_utf8 (app_peers a)"
  by (simp_all add: app_utf8_def config_utf8_def)

lemma store_link_utf8:
  assumes "app_utf8 a" and "utf8 i" and "utf8 addr"
  shows "app_utf8 (store_link i m addr a)"
proof -
  have "app_utf8 (set_links (upsert link_id (editing_original_id a) (wizard_link (app_config a) i m addr)
      (app_links a)) a)"
    using assms by (intro set_links_utf8 upsert_all wizard_link_utf8 app_utf8_lists)
  then show ?thesis
    using assms(2) by (simp add: store_link_def app_utf8_def byte_def Let_def)
qed

lemma link_address_utf8: "app_utf8 a \<Longrightarrow> app_utf8 (confirm_link_address a)"
  using store_link_utf8 [of a "the (pending_link_id a)" "trim (input_buffer a)" "the (pending_link_mode a)"]
  by (auto simp: confirm_link_address_def Let_def bad_address_note_def byte_def split: option.split)
    (auto simp: app_utf8_def utf8_trim byte_def)

lemma remove_link_utf8:
  assumes "app_utf8 a"
  shows "app_utf8 (remove_selected_link a)"
proof -
  have "app_utf8 (set_links (remove_at (links_selected a) (app_links a)) a)"
    using assms by (intro set_links_utf8 remove_at_all app_utf8_lists)
  moreover have "utf8 (link_id (app_links a ! i))" if "i < length (app_links a)" for i
    using app_utf8_lists [OF assms] that by (simp add: list_all_length link_utf8_def)
  ultimately show ?thesis
    using assms by (simp add: remove_selected_link_def) (simp add: app_utf8_def byte_def)
qed

lemma peer_ops_utf8:
  "app_utf8 a \<Longrightarrow> app_utf8 (move_peer_selection d a)" "app_utf8 a \<Longrightarrow> app_utf8 (begin_add_peer a)"
  "app_utf8 a \<Longrightarrow> app_utf8 (cancel_peer_wizard a)" "app_utf8 a \<Longrightarrow> app_utf8 (confirm_peer_name a)"
  "app_utf8 a \<Longrightarrow> app_utf8 (confirm_peer_public_key b64_dec a)"
  "app_utf8 a \<Longrightarrow> app_utf8 (move_peer_links_cursor d a)"
  by (simp_all add: app_utf8_def move_peer_selection_def begin_add_peer_def cancel_peer_wizard_def
      confirm_peer_name_def confirm_peer_public_key_def move_peer_links_cursor_def utf8_trim default_utf8
      byte_def Let_def)

lemma edit_peer_utf8: "app_utf8 a \<Longrightarrow> app_utf8 (begin_edit_peer a)"
  by (auto simp: app_utf8_defs begin_edit_peer_def selected_peer_def
      dest!: nth_opt_utf8 [rotated] split: option.split)

lemma toggle_utf8: "app_utf8 a \<Longrightarrow> app_utf8 (toggle_peer_link a)"
  using nth_opt_utf8 [OF app_utf8_lists(1) [of a]]
  by (auto simp: toggle_peer_link_def app_utf8_def remove_at_all link_utf8_def split: option.split)

lemma store_peer_utf8:
  assumes "app_utf8 a" and "utf8 name" and "utf8 key"
  shows "app_utf8 (store_peer name key a)"
proof -
  let ?p = "\<lparr>peer_name = name, peer_key = key, peer_links = pending_peer_links a\<rparr>"
  have "peer_utf8 ?p" using assms by (simp add: peer_utf8_def app_utf8_def)
  then have "app_utf8 (set_peers (upsert peer_name (editing_original_peer_name a) ?p (app_peers a)) a)"
    using assms by (intro set_links_utf8 upsert_all app_utf8_lists)
  then show ?thesis
    using assms(2) by (simp add: store_peer_def app_utf8_def byte_def Let_def)
qed

lemma peer_links_utf8: "app_utf8 a \<Longrightarrow> app_utf8 (confirm_peer_links a)"
  using store_peer_utf8 [of a "the (pending_peer_name a)" "the (pending_peer_public_key a)"]
  by (auto simp: confirm_peer_links_def split: option.split) (auto simp: app_utf8_def)

lemma remove_peer_utf8:
  assumes "app_utf8 a"
  shows "app_utf8 (remove_selected_peer a)"
proof -
  have "app_utf8 (set_peers (remove_at (peers_selected a) (app_peers a)) a)"
    using assms by (intro set_links_utf8 remove_at_all app_utf8_lists)
  moreover have "utf8 (peer_name (app_peers a ! i))" if "i < length (app_peers a)" for i
    using app_utf8_lists [OF assms] that by (simp add: list_all_length peer_utf8_def)
  ultimately show ?thesis
    using assms by (simp add: remove_selected_peer_def) (simp add: app_utf8_def byte_def)
qed

lemma service_ops_utf8:
  "app_utf8 a \<Longrightarrow> app_utf8 (move_service_selection d a)"
  "app_utf8 a \<Longrightarrow> app_utf8 (activate_selected_service_action a)"
  "app_utf8 a \<Longrightarrow> app_utf8 (cancel_service_action a)"
  by (simp_all add: app_utf8_def move_service_selection_def activate_selected_service_action_def
      cancel_service_action_def Let_def)

lemma plain_utf8 [simp]:
  "app_utf8 (a\<lparr>mode_of := m\<rparr>) = app_utf8 a" "app_utf8 (should_quit_update h a) = app_utf8 a"
  "app_utf8 (tab_of_update g a) = app_utf8 a" "app_utf8 (next_tab a) = app_utf8 a"
  "app_utf8 (a\<lparr>pending_service_action := act\<rparr>) = app_utf8 a"
  by (simp_all add: app_utf8_def next_tab_def)

lemma no_message_utf8: "app_utf8 a \<Longrightarrow> app_utf8 (a\<lparr>message := None\<rparr>)"
  by (simp add: app_utf8_def)

lemma status_utf8: "app_utf8 a \<Longrightarrow> env_utf8 env \<Longrightarrow> app_utf8 (apply_status now (env_query env) a)"
  by (cases "env_query env") (auto simp: app_utf8_def env_utf8_def apply_status_def split: option.split)

lemma service_info_utf8: "app_utf8 a \<Longrightarrow> app_utf8 (refresh_service_info env a)"
proof -
  have "pred_option utf8 (systemctl_field out)" for out
    by (simp add: systemctl_field_def utf8_trim utf8_lossy Let_def split: option.split)
  then show "app_utf8 a \<Longrightarrow> app_utf8 (refresh_service_info env a)"
    by (simp add: app_utf8_def refresh_service_info_def)
qed

lemma join_utf8: "utf8 sep \<Longrightarrow> list_all utf8 ss \<Longrightarrow> utf8 (join sep ss)"
  by (induction sep ss rule: join.induct) simp_all

lemma fs_write_error_utf8:
  assumes "\<forall>op. pred_option utf8 (env op)" and "fs_write env path out s = Inl e"
  shows "utf8 e"
proof -
  have "utf8 enoent" by (simp add: enoent_def byte_def)
  moreover have "utf8 e'" if "env op = Some e'" for op e' using assms(1) that by (metis option.pred_inject(2))
  ultimately show ?thesis
    using assms(2) by (auto simp: fs_write_def create_file_def write_all_def split: option.splits sum.splits)
qed

lemma save_errors_utf8:
  assumes "config_utf8 cfg" and "utf8 path" and "env_utf8 env"
    and "save b64_dec (env_toml env) (env_fs env) cfg path s = Inl es"
  shows "list_all utf8 es"
proof -
  have "utf8 e" if "env_toml env cfg = Inl e" for e
    using assms(3) that by (auto simp: env_utf8_def split: sum.splits)
  moreover have "utf8 e" if "fs_write (env_fs env) path out s = Inl e" for e out
    using fs_write_error_utf8 [OF _ that] assms(3) by (simp add: env_utf8_def)
  ultimately show ?thesis
    using assms(2,4) validate_utf8 [OF assms(1)]
    by (auto simp: save_def byte_def Let_def split: if_splits sum.splits)
qed

lemma save_config_utf8:
  assumes "app_utf8 a" and "env_utf8 env"
  shows "app_utf8 (fst (save_config b64_dec (env_toml env) (env_fs env) a s))"
proof -
  have a: "utf8 (config_path a)" "config_utf8 (app_config a)" using assms(1) by (simp_all add: app_utf8_def)
  have "utf8 (join ''; '' es)"
    if "save b64_dec (env_toml env) (env_fs env) (app_config a) (config_path a) s = Inl es" for es
    by (rule join_utf8) (simp add: byte_def, rule save_errors_utf8 [OF a(2,1) assms(2) that])
  then show ?thesis
    using assms(1) a by (auto simp: save_config_def app_utf8_def byte_def split: sum.split)
qed

subsection \<open>The events\<close>

lemmas op_utf8 = link_ops_utf8 edit_link_utf8 template_choice_utf8 link_address_utf8 remove_link_utf8
  peer_ops_utf8 edit_peer_utf8 toggle_utf8 peer_links_utf8 remove_peer_utf8 service_ops_utf8
  no_message_utf8 status_utf8 service_info_utf8

lemma save_key_utf8: "app_utf8 (ui t) \<Longrightarrow> env_utf8 env \<Longrightarrow> app_utf8 (ui (save_key env t))"
  by (simp add: save_key_ui save_config_utf8)

lemma run_pending_utf8:
  "app_utf8 (ui t) \<Longrightarrow> env_utf8 env \<Longrightarrow> app_utf8 (ui (run_pending_service_action env t))"
  by (simp add: run_pending_service_action_def op_utf8 split: option.split)

lemma normal_utf8:
  assumes "app_utf8 (ui t)" and "env_utf8 env"
  shows "app_utf8 (ui (handle_normal env k t))"
proof -
  have "app_utf8 (ui (links_key env k t))" "app_utf8 (ui (peers_key env k t))"
    using assms by (simp_all add: links_key_def peers_key_def op_utf8 save_key_utf8)
  moreover have "app_utf8 (ui (service_key env k t))"
    using assms by (simp add: service_key_def op_utf8 run_pending_utf8 Let_def)
  ultimately show ?thesis using assms by (simp add: handle_normal_def op_utf8 split: tab.split)
qed

lemma edit_buffer_utf8: "app_utf8 a \<Longrightarrow> event_typed (Key k) \<Longrightarrow> app_utf8 (edit_buffer k a)"
  by (cases k) (simp_all add: app_utf8_def utf8_push utf8_pop event_typed_def)

lemma text_input_utf8:
  "app_utf8 a \<Longrightarrow> event_typed (Key k) \<Longrightarrow> app_utf8 (handle_link_text_input k a)"
  "app_utf8 a \<Longrightarrow> event_typed (Key k) \<Longrightarrow> app_utf8 (handle_peer_text_input b64_dec k a)"
  by (simp_all add: handle_link_text_input_def handle_peer_text_input_def op_utf8 edit_buffer_utf8
      split: ui_mode.split)

lemma handle_key_utf8:
  assumes "app_utf8 (ui t)" and "env_utf8 env" and "event_typed (Key k)"
  shows "app_utf8 (ui (handle_key env k t))"
  using assms
  by (cases "mode_of (ui t)")
    (simp_all add: handle_key_def normal_utf8 text_input_utf8 handle_choose_template_def
      handle_link_mode_choice_def handle_peer_links_checklist_def handle_confirm_remove_link_def
      handle_confirm_remove_peer_def handle_confirm_service_action_def op_utf8 run_pending_utf8)

lemma step_utf8:
  assumes "app_utf8 (ui t)" and "env_utf8 env" and "event_typed ev"
  shows "app_utf8 (ui (tui_step (env, ev) t))"
proof (cases ev)
  case (Key k)
  have "app_utf8 (ui (on_ui (message_update (\<lambda>_. None)) t))" using assms(1) by (simp add: op_utf8)
  from handle_key_utf8 [OF this assms(2)] show ?thesis using assms(1,3) Key by simp
next
  case Idle
  then show ?thesis using assms by (simp add: idle_tick_def op_utf8 split: tab.split)
qed

lemma saved_utf8:
  assumes "env_utf8 env" and "file_utf8 path s"
  shows "file_utf8 path (store_after_save b64_dec (env_toml env) fe cfg path s)"
proof -
  have "utf8 out" if "env_toml env cfg = Inr out" for out
    using assms(1) that by (auto simp: env_utf8_def split: sum.splits)
  then show ?thesis using assms(2)
    by (auto simp: file_utf8_def store_after_save_def create_file_def write_all_def
        split: sum.split option.split if_splits)
qed

text \<open>No operation changes the path of the file.\<close>

lemma op_path [simp]:
  "config_path (move_link_selection d a) = config_path a" "config_path (begin_add_link a) = config_path a"
  "config_path (begin_edit_link a) = config_path a" "config_path (move_template_selection d a) = config_path a"
  "config_path (confirm_template_choice a) = config_path a" "config_path (cancel_link_wizard a) = config_path a"
  "config_path (confirm_link_id a) = config_path a" "config_path (choose_link_mode m a) = config_path a"
  "config_path (confirm_link_address a) = config_path a" "config_path (remove_selected_link a) = config_path a"
  "config_path (move_peer_selection d a) = config_path a" "config_path (begin_add_peer a) = config_path a"
  "config_path (begin_edit_peer a) = config_path a" "config_path (cancel_peer_wizard a) = config_path a"
  "config_path (confirm_peer_name a) = config_path a"
  "config_path (confirm_peer_public_key b64_dec a) = config_path a"
  "config_path (move_peer_links_cursor d a) = config_path a" "config_path (toggle_peer_link a) = config_path a"
  "config_path (confirm_peer_links a) = config_path a" "config_path (remove_selected_peer a) = config_path a"
  "config_path (move_service_selection d a) = config_path a"
  "config_path (activate_selected_service_action a) = config_path a"
  "config_path (cancel_service_action a) = config_path a" "config_path (next_tab a) = config_path a"
  "config_path (apply_status now r a) = config_path a" "config_path (refresh_service_info env a) = config_path a"
  "config_path (fst (save_config b64_dec toml_to fe a s)) = config_path a"
  "config_path (edit_buffer k a) = config_path a"
  by (simp_all add: move_link_selection_def begin_add_link_def begin_edit_link_def
      move_template_selection_def confirm_template_choice_def cancel_link_wizard_def confirm_link_id_def
      choose_link_mode_def confirm_link_address_def store_link_def set_links_def remove_selected_link_def
      move_peer_selection_def begin_add_peer_def begin_edit_peer_def cancel_peer_wizard_def
      confirm_peer_name_def confirm_peer_public_key_def move_peer_links_cursor_def toggle_peer_link_def
      confirm_peer_links_def store_peer_def set_peers_def remove_selected_peer_def
      move_service_selection_def activate_selected_service_action_def cancel_service_action_def
      next_tab_def apply_status_def refresh_service_info_def save_config_def Let_def
      split: option.split sum.split) (cases k; simp)

lemma handle_key_path: "config_path (ui (handle_key env k t)) = config_path (ui t)"
proof -
  have act: "config_path (ui (run_pending_service_action env t')) = config_path (ui t')" for t'
    by (simp add: run_pending_service_action_def split: option.split)
  then have "config_path (ui (handle_normal env k t)) = config_path (ui t)"
    by (simp add: handle_normal_def links_key_def peers_key_def service_key_def save_key_ui Let_def
        split: tab.split)
  with act show ?thesis
    by (cases "mode_of (ui t)")
      (simp_all add: handle_key_def handle_choose_template_def handle_link_text_input_def
        handle_link_mode_choice_def handle_peer_text_input_def handle_peer_links_checklist_def
        handle_confirm_remove_link_def handle_confirm_remove_peer_def handle_confirm_service_action_def)
qed

lemma step_path: "config_path (ui (tui_step (env, ev) t)) = config_path (ui t)"
  by (cases ev) (simp_all add: handle_key_path idle_tick_def split: tab.split)

lemma step_file_utf8:
  assumes "env_utf8 env" and "file_utf8 (config_path (ui t)) (store t)"
  shows "file_utf8 (config_path (ui t)) (store (tui_step (env, ev) t))"
proof (cases "store (tui_step (env, ev) t) = store t")
  case False
  show ?thesis using step_store [OF False] saved_utf8 [OF assms] by metis
qed (use assms(2) in \<open>simp del: tui_step.simps\<close>)

lemma run_utf8:
  assumes "\<forall>(env, ev) \<in> set evs. env_utf8 env \<and> event_typed ev"
    and "app_utf8 (ui t)" and "file_utf8 (config_path (ui t)) (store t)"
  shows "app_utf8 (ui (run_event_loop evs t)) \<and> file_utf8 (config_path (ui t)) (store (run_event_loop evs t))"
  using assms
proof (induction evs arbitrary: t)
  case (Cons e evs)
  obtain env ev where e: "e = (env, ev)" by (cases e)
  have "env_utf8 env" "event_typed ev" using Cons.prems e by auto
  then show ?case
    using Cons.IH [of "tui_step (env, ev) t"] Cons.prems(1) step_utf8 [OF Cons.prems(2)]
      step_file_utf8 [OF _ Cons.prems(3)]
    by (simp add: run_event_loop_def e step_path del: tui_step.simps)
qed (simp add: run_event_loop_def)

end
