(* ===== verification/Tui_Properties.thy ===== *)
theory Tui_Properties
  imports Examples Tui_Screens Tui_Strings
begin

section \<open>Properties of the terminal interface\<close>

text \<open>
  What holds of the interface's state between events, and how the screen relates to what the next
  key does. A screen is drawn before every key is read, from the state the key is applied to.
\<close>

subsection \<open>The state between events\<close>

lemma valid_config_wf: "valid_config b64_dec cfg \<Longrightarrow> config_wf b64_dec (new_app path cfg)"
  by (auto simp: config_wf_def links_ok_def peers_ok_def new_app_def valid_config_def valid_role_def
      valid_peers_def decoded_keys_def split: role.splits)

lemma started_wf:
  assumes "start_tui toml_from env path s c = Inr t" and "load toml_from (env_fs env) path s = Inr cfg"
    and "valid_config b64_dec cfg"
  shows "config_wf b64_dec (ui t)"
proof -
  have "ui t = apply_status (env_now env) (env_query env) (refresh_service_info env (new_app path cfg))"
    using assms(1,2) by (auto simp: start_tui_def)
  then show ?thesis
    using same_config_wf [OF same_config_env(1)] same_config_wf [OF same_config_env(2)]
      valid_config_wf [OF assms(3)] by simp
qed

text \<open>
  C34: whatever keys are pressed and whatever the daemon, \<open>systemctl\<close> and the file system answer,
  the interface stays consistent: cursors inside their lists, every wizard step with what the steps
  before it gave, a service action pending only while it is being confirmed; and the configuration
  it edits keeps unique link ids and peer names, links that pass the check, and keys that decode.
\<close>

theorem interface_stays_consistent:
  assumes "start_tui toml_from env path s c = Inr t" and "load toml_from (env_fs env) path s = Inr cfg"
    and "valid_config b64_dec cfg" and "\<forall>(env', ev) \<in> set evs. env_b64 env' = b64_dec"
  shows "ui_ok (ui (run_event_loop evs t)) \<and> config_wf b64_dec (ui (run_event_loop evs t))"
  using run_ok [OF start_ok [OF assms(1)]] run_wf [OF assms(4) started_wf [OF assms(1-3)]] by simp

lemma interface_stays_consistent_witness:
  "\<exists>t. ui_ok (ui (run_event_loop [(demo_tui_env, Key Tab_Key), (demo_tui_env, Key (Char 97)), (demo_tui_env, Idle)] t)) \<and>
    config_wf hex_dec (ui (run_event_loop [(demo_tui_env, Key Tab_Key), (demo_tui_env, Key (Char 97)), (demo_tui_env, Idle)] t))"
proof -
  obtain t where t: "start_tui demo_toml demo_tui_env ''/c'' demo_store demo_console = Inr t"
    using demo_load by (simp add: start_tui_def demo_tui_env_def)
  have "load demo_toml (env_fs demo_tui_env) ''/c'' demo_store = Inr demo_server"
    using demo_load by (simp add: demo_tui_env_def)
  from interface_stays_consistent [OF t this demo_server_valid] show ?thesis
    by (intro exI [of _ t]) (simp add: demo_tui_env_def del: tui_step.simps)
qed

text \<open>
  C40: the interface touches the file only when \<open>s\<close> is pressed outside every dialog and the
  configuration is valid; then the store is what saving that configuration makes of it.
\<close>

theorem only_valid_configs_written:
  assumes "store (tui_step (env, ev) t) \<noteq> store t"
  shows "ev = Key (Char (byte CHR ''s'')) \<and> mode_of (ui t) = Normal \<and>
    validate (env_b64 env) (app_config (ui t)) = [] \<and>
    store (tui_step (env, ev) t) =
      store_after_save (env_b64 env) (env_toml env) (env_fs env) (app_config (ui t))
        (config_path (ui t)) (store t)"
  unfolding validate_Nil_iff by (rule step_store [OF assms])

lemma only_valid_configs_written_witness:
  "mode_of (ui (tui_at links_app)) = Normal \<and>
   validate (env_b64 demo_tui_env) (app_config (ui (tui_at links_app))) = []"
proof -
  have "store (tui_step (demo_tui_env, Key (Char 115)) (tui_at links_app)) \<noteq> store (tui_at links_app)"
    using s_writes by (simp add: tui_at_def del: tui_step.simps)
  from only_valid_configs_written [OF this] show ?thesis by blast
qed






subsection \<open>The screen and the next key\<close>




text \<open>
  When \<open>sudo tee\<close> cannot be started or written to, the installation of the unit leaves the terminal
  in cooked mode on the main screen, and the event loop goes on to draw there.
\<close>

lemma failed_install_loses_screen:
  assumes "console_of t' = snd (run_service_action_suspended (env_term env) Install_Unit (console_of t))"
    and "terminal_ok (env_term env)" and "\<not> unit_piped (env_term env)"
  shows "\<not> raw_mode (console_of t') \<and> \<not> alternate (console_of t')"
  using action_screen [OF assms(2,1)] assms(3) by (auto simp: on_screen_def)





text \<open>
  C39: a byte count from 1024 up to \<open>2 ^ 53\<close> is shown with one decimal in the largest unit that
  leaves at least one (or in TB), and the number shown is off by at most half of its last digit.
\<close>

theorem byte_counts_are_accurate:
  assumes "1024 \<le> unat n" and "unat n < 2 ^ 53"
  shows "\<exists>t u. show_bytes n = show_nat (t div 10) @ ''.'' @ show_nat (t mod 10) @ '' '' @ units ! u \<and>
    0 < u \<and> u < length units \<and> 1024 ^ u \<le> unat n \<and>
    (unat n < 1024 * 1024 ^ u \<or> u = length units - 1) \<and>
    \<bar>of_nat t / 10 - of_nat (unat n) / 1024 ^ u\<bar> \<le> (1 / 20 :: rat)"
  by (rule show_bytes_scaled [OF assms])

lemma byte_counts_are_accurate_witness:
  "\<exists>t u. show_bytes 1536 = show_nat (t div 10) @ ''.'' @ show_nat (t mod 10) @ '' '' @ units ! u \<and>
    \<bar>of_nat t / 10 - of_nat 1536 / 1024 ^ u\<bar> \<le> (1 / 20 :: rat)"
  using byte_counts_are_accurate [of 1536] by auto

end
