(* ===== verification/Main_Program.thy ===== *)
theory Main_Program
  imports Cli Tui_Events
begin

section \<open>The binary as a whole (\<open>main.rs\<close>, \<open>run\<close> of \<open>tui/mod.rs\<close>)\<close>

text \<open>
  Which command runs with which paths, and the console from the command line to its exit code, with
  the terminal before, between and after its events.
\<close>

subsection \<open>The commands\<close>

datatype command = Keygen string | Check string | Run string "string option"
  | Status "string option" bool bool | Tui string "string option"

datatype main_action = Do_Keygen string | Do_Check string | Do_Run string string
  | Do_Status string bool bool | Do_Tui string string

definition socket_or_default :: "string option \<Rightarrow> string option \<Rightarrow> string" where
  "socket_or_default home socket = (case socket of Some p \<Rightarrow> p | None \<Rightarrow> default_socket_path home)"

text \<open>Whether the banner is printed, and the function that is called.\<close>

fun dispatch :: "string option \<Rightarrow> command \<Rightarrow> bool \<times> main_action" where
  "dispatch home (Keygen out) = (True, Do_Keygen out)"
| "dispatch home (Check cfg) = (False, Do_Check cfg)"
| "dispatch home (Run cfg socket) = (True, Do_Run cfg (socket_or_default home socket))"
| "dispatch home (Status socket watching json) = (False, Do_Status (socket_or_default home socket) watching json)"
| "dispatch home (Tui cfg socket) = (False, Do_Tui cfg (socket_or_default home socket))"

subsection \<open>The console\<close>

text \<open>
  \<open>run\<close>: the application is built, the terminal taken, the loop run, the terminal given back and the
  result of the loop turned into an exit code. When taking the terminal fails, \<open>run\<close> returns without
  giving back what it took (\<open>why\<close> is the text of the error). The exit code is \<open>None\<close> while the loop runs.
\<close>

definition run_tui ::
  "(string \<Rightarrow> string + config) \<Rightarrow> tui_env \<Rightarrow> string \<Rightarrow> term_env \<Rightarrow> string \<Rightarrow> fs \<Rightarrow> console \<Rightarrow>
     (tui_env \<times> loop_turn) list \<Rightarrow> exit_code option \<times> string list \<times> console" where
  "run_tui toml_from env why restoring path s c turns =
     (case start_tui toml_from env path s c of
        Inl e \<Rightarrow> (Some Failure, [tagged e], c)
      | Inr t \<Rightarrow>
         (let (ok, c1) = setup_terminal (env_term env) c
          in if \<not> ok then (Some Failure, [tagged (''failed to start TUI: '' @ why)], c1)
             else let (result, t') = event_loop turns (t\<lparr>console_of := c1\<rparr>)
                  in case result of
                       None \<Rightarrow> (None, [], console_of t')
                     | Some r \<Rightarrow>
                        (let c2 = restore_terminal restoring (console_of t')
                         in case r of
                              Inr u \<Rightarrow> (Some Success, [], c2)
                            | Inl e \<Rightarrow> (Some Failure, [tagged (''TUI error: '' @ e)], c2))))"

text \<open>The loop with its errors is the loop of \<open>Tui_Events\<close> as long as nothing fails.\<close>

lemma tui_step_quit: "should_quit (ui t) \<Longrightarrow> tui_step e t = t"
  by (cases e) simp

lemma run_quit: "should_quit (ui t) \<Longrightarrow> run_event_loop evs t = t"
  by (induction evs) (simp_all add: run_event_loop_def tui_step_quit)

lemma event_loop_run:
  "snd (event_loop (map (\<lambda>(env, ev). (env, Happens ev)) evs) t) = run_event_loop evs t"
proof (induction evs arbitrary: t)
  case (Cons e evs)
  obtain env ev where e: "e = (env, ev)" by (cases e)
  show ?case
    using Cons run_quit [of t "e # evs"] run_quit [of "tui_step (env, ev) t" evs]
    by (auto simp: e run_event_loop_def Let_def simp del: tui_step.simps)
qed (simp add: run_event_loop_def)

text \<open>
  However the loop ends, and whatever its actions did to the terminal, the console leaves it in cooked
  mode on the main screen, if the two calls for that succeed.
\<close>

lemma terminal_given_back:
  assumes "run_tui toml_from env why restoring path s c turns = (Some code, ls, c')"
    and "raw_off restoring" and "leave_screen restoring"
    and "\<not> raw_mode c" and "\<not> alternate c" and "fst (setup_terminal (env_term env) c)"
  shows "\<not> raw_mode c' \<and> \<not> alternate c'"
  using assms
  by (auto simp: run_tui_def restore_terminal_def set_raw_def set_screen_def split_beta Let_def
      split: sum.splits option.splits)

text \<open>When the alternate screen cannot be entered, the terminal is left in raw mode.\<close>

lemma failed_setup_leaves_raw_mode:
  assumes "start_tui toml_from env path s c = Inr t" and "raw_on (env_term env)"
    and "\<not> enter_screen (env_term env)"
  shows "\<exists>ls c'. run_tui toml_from env why restoring path s c turns = (Some Failure, ls, c') \<and> raw_mode c'"
  using assms by (simp add: run_tui_def setup_terminal_def set_raw_def set_screen_def Let_def)

end
