(* ===== verification/Core_Tests.thy ===== *)
theory Core_Tests
  imports Cli
begin

section \<open>The unit tests of the core crate\<close>

text \<open>
  The modules \<open>tests\<close> of \<open>keys.rs\<close>, \<open>stats.rs\<close>, \<open>ratelimit.rs\<close>, \<open>framing.rs\<close>, \<open>noise.rs\<close>,
  \<open>peermatch.rs\<close> and \<open>ipc.rs\<close>, run on the model as in \<open>Config_Tests\<close>. What a test takes from other
  crates (base64, generated keys, the Noise implementation, the JSON texts, the clock) is an argument,
  with what it relies on as a hypothesis of the lemma that the test passes.
\<close>

subsection \<open>\<open>keys.rs\<close>\<close>

definition private_key_save_and_load_round_trip ::
  "b64_encoder \<Rightarrow> b64_decoder \<Rightarrow> bytes \<Rightarrow> string \<Rightarrow> fs \<Rightarrow> bool" where
  "private_key_save_and_load_round_trip enc dec key path s \<longleftrightarrow>
     (case save_private_key enc willing path key s of Inl e \<Rightarrow> False
      | Inr s' \<Rightarrow> load_private_key dec willing path s' = Inr key)"

definition saved_private_key_file_is_owner_only :: "b64_encoder \<Rightarrow> bytes \<Rightarrow> string \<Rightarrow> fs \<Rightarrow> bool" where
  "saved_private_key_file_is_owner_only enc key path s \<longleftrightarrow>
     (case save_private_key enc willing path key s of Inl e \<Rightarrow> False
      | Inr s' \<Rightarrow> (case fs_files s' path of None \<Rightarrow> False | Some f \<Rightarrow> f_mode f mod 512 = 384))"

text \<open>A scratch path: its directory exists, or can be made, and is not a file.\<close>

definition scratch_path :: "string \<Rightarrow> fs \<Rightarrow> bool" where
  "scratch_path path s \<longleftrightarrow>
     (case parent path of None \<Rightarrow> False | Some d \<Rightarrow> d \<noteq> [] \<and> d \<noteq> path \<and> fs_files s d = None)"

lemma willing_line:
  obtains s' f where "write_base64_line enc willing path bs s = Inr s'" and "fs_files s' path = Some f"
proof -
  have "\<exists>s' f. write_base64_line enc willing path bs s = Inr s' \<and> fs_files s' path = Some f"
    by (simp add: write_base64_line_def create_file_def write_all_def willing_def)
  then show ?thesis using that by blast
qed

lemma scratch_save:
  assumes "scratch_path path s"
  obtains s' where "save_private_key enc willing path key s = Inr s'"
proof -
  obtain d where d: "parent path = Some d" "d \<noteq> []" "fs_files s d = None"
    using assms by (auto simp: scratch_path_def split: option.splits)
  then have "\<exists>s1. (case create_dir_all willing d s of Inl e \<Rightarrow> Inl e | Inr s \<Rightarrow> set_permissions willing d 448 s) = Inr s1"
    by (cases "fs_dirs s d") (simp_all add: create_dir_all_def set_permissions_def willing_def)
  then obtain s1 where s1:
    "(case create_dir_all willing d s of Inl e \<Rightarrow> Inl e | Inr s \<Rightarrow> set_permissions willing d 448 s) = Inr s1" by blast
  obtain s2 f where "write_base64_line enc willing path key s1 = Inr s2" "fs_files s2 path = Some f"
    by (rule willing_line)
  then show ?thesis
    using s1 d(1) that by (simp add: save_private_key_def set_permissions_def willing_def)
qed

lemma private_key_save_and_load_round_trip_passes:
  assumes "b64_lawful enc dec" and "length key = 32" and "scratch_path path s"
  shows "private_key_save_and_load_round_trip enc dec key path s"
proof -
  obtain s' where "save_private_key enc willing path key s = Inr s'" using scratch_save [OF assms(3)] by blast
  then show ?thesis
    using save_load_private_key [OF assms(1,2)]
    by (simp add: private_key_save_and_load_round_trip_def willing_def)
qed

lemma saved_private_key_file_is_owner_only_passes:
  assumes "scratch_path path s"
  shows "saved_private_key_file_is_owner_only enc key path s"
proof -
  obtain s' where "save_private_key enc willing path key s = Inr s'" using scratch_save [OF assms] by blast
  then show ?thesis
    using save_private_key_ok by (simp add: saved_private_key_file_is_owner_only_def)
qed

definition public_key_saved_as_sibling_pub_file ::
  "b64_encoder \<Rightarrow> b64_decoder \<Rightarrow> bytes \<Rightarrow> string \<Rightarrow> fs \<Rightarrow> bool" where
  "public_key_saved_as_sibling_pub_file enc dec key path s \<longleftrightarrow>
     (let pub_path = public_key_path path
      in case save_public_key enc willing pub_path key s of Inl e \<Rightarrow> False
      | Inr s' \<Rightarrow> pub_path = path @ ''.pub'' \<and>
         (case read_to_string willing pub_path s' of Inl e \<Rightarrow> False
          | Inr out \<Rightarrow> decode_public_key dec (trim out) = Inr key))"

lemma utf8_line_end: "utf8 t \<Longrightarrow> utf8 (t @ [CHR 10])"
  by (simp add: utf8_append)

lemma public_key_saved_as_sibling_pub_file_passes:
  assumes "b64_lawful enc dec" and "length key = 32"
  shows "public_key_saved_as_sibling_pub_file enc dec key path s"
proof -
  have "\<exists>s1. (case parent (public_key_path path) of None \<Rightarrow> Inr s | Some d \<Rightarrow> create_dir_all willing d s) = Inr s1"
    by (simp add: create_dir_all_def willing_def split: option.split)
  then obtain s1 where s1:
    "(case parent (public_key_path path) of None \<Rightarrow> Inr s | Some d \<Rightarrow> create_dir_all willing d s) = Inr s1" by blast
  obtain s' f' where "write_base64_line enc willing (public_key_path path) key s1 = Inr s'"
    "fs_files s' (public_key_path path) = Some f'" by (rule willing_line)
  with s1 have s: "save_public_key enc willing (public_key_path path) key s = Inr s'"
    by (simp add: save_public_key_def)
  then obtain s1 where "write_base64_line enc willing (public_key_path path) key s1 = Inr s'"
    by (auto simp: save_public_key_def split: sum.splits)
  then obtain f where f: "fs_files s' (public_key_path path) = Some f" "f_data f = enc key @ [CHR 10]"
    using write_base64_line_ok by blast
  have "utf8 (enc key @ [CHR 10])" "trim (enc key @ [CHR 10]) = enc key"
    using assms(1) by (simp_all add: b64_lawful_def utf8_line_end)
  then show ?thesis
    using s f decode_encode [OF assms]
    by (simp add: public_key_saved_as_sibling_pub_file_def Let_def read_to_string_def willing_def
        encode_public_key_def) (simp add: public_key_path_def)
qed

definition public_key_encode_decode_round_trip :: "b64_encoder \<Rightarrow> b64_decoder \<Rightarrow> bytes \<Rightarrow> bool" where
  "public_key_encode_decode_round_trip enc dec key \<longleftrightarrow>
     decode_public_key dec (encode_public_key enc key) = Inr key"

lemma public_key_encode_decode_round_trip_passes:
  "b64_lawful enc dec \<Longrightarrow> length key = 32 \<Longrightarrow> public_key_encode_decode_round_trip enc dec key"
  using decode_encode by (simp add: public_key_encode_decode_round_trip_def)

definition rejects_wrong_length_public_key :: "b64_encoder \<Rightarrow> b64_decoder \<Rightarrow> bool" where
  "rejects_wrong_length_public_key enc dec \<longleftrightarrow> isl (decode_public_key dec (enc [1, 2, 3]))"

lemma rejects_wrong_length_public_key_passes:
  "b64_lawful enc dec \<Longrightarrow> rejects_wrong_length_public_key enc dec"
  by (simp add: rejects_wrong_length_public_key_def decode_public_key_def b64_lawful_trim)
    (simp add: b64_lawful_def)

text \<open>The parts of a text between colons.\<close>

fun split_colon :: "string \<Rightarrow> string \<Rightarrow> string list" where
  "split_colon part [] = [part]"
| "split_colon part (c # s) = (if c = CHR '':'' then part # split_colon [] s else split_colon (part @ [c]) s)"

definition is_ascii_hexdigit :: "char \<Rightarrow> bool" where
  "is_ascii_hexdigit c \<longleftrightarrow>
     is_digit c \<or> (97 \<le> byte c \<and> byte c \<le> 102) \<or> (65 \<le> byte c \<and> byte c \<le> 70)"

definition fingerprint_is_colon_grouped_hex_of_the_full_sha256_digest :: "(bytes \<Rightarrow> bytes) \<Rightarrow> bytes \<Rightarrow> bool" where
  "fingerprint_is_colon_grouped_hex_of_the_full_sha256_digest sha256 key \<longleftrightarrow>
     (let groups = split_colon [] (fingerprint sha256 key)
      in length groups = 32 \<and> list_all (\<lambda>g. length g = 2 \<and> list_all is_ascii_hexdigit g) groups)"

lemma split_colon_part:
  "CHR '':'' \<notin> set s \<Longrightarrow> split_colon part (s @ CHR '':'' # r) = (part @ s) # split_colon [] r"
  by (induction s arbitrary: part) auto

lemma split_colon_last: "CHR '':'' \<notin> set s \<Longrightarrow> split_colon part s = [part @ s]"
  by (induction s arbitrary: part) auto

lemma split_colon_join:
  "gs \<noteq> [] \<Longrightarrow> \<forall>g \<in> set gs. CHR '':'' \<notin> set g \<Longrightarrow> split_colon [] (join '':'' gs) = gs"
proof (induction "'':''" gs rule: join.induct)
  case (3 x y gs)
  then show ?case using split_colon_part [of x "[]"] by simp
qed (simp_all add: split_colon_last)

lemma show_hex_digits: "c \<in> set (show_hex n) \<Longrightarrow> is_ascii_hexdigit c"
proof (induction n rule: show_hex.induct)
  case (1 n)
  have "n mod 16 < 16" by simp
  then show ?case
    using 1 by (subst (asm) show_hex.simps) (auto simp: Let_def is_ascii_hexdigit_def is_digit_def byte_char_of split: if_splits)
qed

lemma hex2_chars: "c \<in> set (show_hex2 b) \<Longrightarrow> is_ascii_hexdigit c"
  using show_hex_digits by (auto simp: show_hex2_def is_ascii_hexdigit_def is_digit_def byte_def split: if_splits)

lemma split_fingerprint:
  assumes "length (sha256 key) = 32"
  shows "split_colon [] (fingerprint sha256 key) = map show_hex2 (sha256 key)"
proof -
  have "\<not> is_ascii_hexdigit (CHR '':'')" by (simp add: is_ascii_hexdigit_def is_digit_def byte_def)
  then show ?thesis
    unfolding fingerprint_def using assms hex2_chars by (intro split_colon_join) auto
qed

lemma fingerprint_is_colon_grouped_hex_of_the_full_sha256_digest_passes:
  assumes "length (sha256 key) = 32"
  shows "fingerprint_is_colon_grouped_hex_of_the_full_sha256_digest sha256 key"
  using assms hex2_chars split_fingerprint [of sha256 key]
  by (auto simp: fingerprint_is_colon_grouped_hex_of_the_full_sha256_digest_def Let_def list_all_iff length_show_hex2)

definition fingerprint_differs_for_different_keys :: "(bytes \<Rightarrow> bytes) \<Rightarrow> bytes \<Rightarrow> bytes \<Rightarrow> bool" where
  "fingerprint_differs_for_different_keys sha256 a b \<longleftrightarrow> fingerprint sha256 a \<noteq> fingerprint sha256 b"

text \<open>A fingerprint determines the digest it shows.\<close>

lemma hex_digit_read:
  "n < 16 \<Longrightarrow> radix_val 16 acc (show_hex n @ s) = radix_val 16 (16 * acc + n) s"
  by (auto simp: show_hex.simps [of n] to_digit_def byte_char_of Let_def)

lemma show_hex2_read: "radix_val 16 0 (show_hex2 b) = unat b"
proof (cases "unat b < 16")
  case True
  have "to_digit 16 (CHR ''0'') = Some 0" by (simp add: to_digit_def byte_def)
  then show ?thesis using True hex_digit_read [of "unat b" 0 "[]"] by (simp add: show_hex2_def)
next
  case False
  have "unat b < 256" by (rule unat_u8)
  then have "unat b div 16 < 16" by simp
  moreover have "show_hex (unat b) = show_hex (unat b div 16) @ show_hex (unat b mod 16) @ []"
    using False by (subst show_hex.simps) (simp add: show_hex.simps [of "unat b mod 16"] Let_def)
  ultimately show ?thesis using False by (simp only: show_hex2_def) (simp add: hex_digit_read hex_digit_read [where s = "[]", simplified])
qed

lemma fingerprint_digest:
  assumes "length (sha256 a) = 32" and "length (sha256 b) = 32"
    and "fingerprint sha256 a = fingerprint sha256 b"
  shows "sha256 a = sha256 b"
proof -
  have "inj show_hex2" by (rule injI) (metis show_hex2_read unsigned_word_eqI)
  moreover have "map show_hex2 (sha256 a) = map show_hex2 (sha256 b)"
    using assms(3) split_fingerprint [of sha256 a, OF assms(1)] split_fingerprint [of sha256 b, OF assms(2)] by simp
  ultimately show ?thesis by (simp add: inj_map_eq_map)
qed

lemma fingerprint_differs_for_different_keys_passes:
  assumes "length (sha256 a) = 32" and "length (sha256 b) = 32" and "sha256 a \<noteq> sha256 b"
  shows "fingerprint_differs_for_different_keys sha256 a b"
  using fingerprint_digest [of sha256 a b] assms by (auto simp: fingerprint_differs_for_different_keys_def)

subsection \<open>\<open>stats.rs\<close>\<close>

definition tcp_forward :: "string \<Rightarrow> string \<Rightarrow> link_config" where
  "tcp_forward i target = \<lparr>link_id = i, link_mode = Forward, link_transport = Tcp, link_listen = None,
     link_target = Some target\<rparr>"

definition stats_config :: config where
  "stats_config =
     \<lparr>cfg_role = Server, private_key_path = [], peer_public_key = None, cfg_peers = [],
      listen_control = Some ''0.0.0.0:9000'', listen_data = Some ''0.0.0.0:9001'', listen_udp = None,
      server_control_addr = None, server_data_addr = None, server_udp_addr = None,
      cfg_links = [tcp_forward ''fwd'' ''127.0.0.1:1'']\<rparr>"

text \<open>The tests read the clock when the state is made (\<open>t0\<close>) and at each snapshot.\<close>

definition snapshot_reflects_zeroed_counters_at_start :: "u64 \<Rightarrow> u64 \<Rightarrow> bool" where
  "snapshot_reflects_zeroed_counters_at_start t0 t1 \<longleftrightarrow>
     (let snap = snapshot t1 stats_config (new_state t0 stats_config); l = snap_links snap ! 0
      in snap_role snap = ''server'' \<and> \<not> snap_connected snap \<and> length (snap_links snap) = 1 \<and>
         snap_id l = ''fwd'' \<and> snap_active l = 0 \<and> snap_forward l = 0)"

lemmas stats_test_defs = snapshot_def new_state_def stats_config_def tcp_forward_def zero_stats_def
  link_snapshot_of_def map_filter_simps Let_def

lemma role_text: "to_lowercase ''Server'' = ''server''"
  by code_simp

lemma snapshot_reflects_zeroed_counters_at_start_passes: "snapshot_reflects_zeroed_counters_at_start t0 t1"
  by (simp add: snapshot_reflects_zeroed_counters_at_start_def stats_test_defs role_text)

definition snapshot_reflects_updated_counters :: "u64 \<Rightarrow> u64 \<Rightarrow> bool" where
  "snapshot_reflects_updated_counters t0 t1 \<longleftrightarrow>
     (let state = new_state t0 stats_config;
          bump = (\<lambda>s. s\<lparr>active_streams := active_streams s + 1, total_streams := total_streams s + 3,
                        bytes_forward := bytes_forward s + 1024\<rparr>);
          state = state\<lparr>st_links := (st_links state)(''fwd'' := map_option bump (st_links state ''fwd''))\<rparr>;
          l = snap_links (snapshot t1 stats_config state) ! 0
      in snap_active l = 1 \<and> snap_total l = 3 \<and> snap_forward l = 1024)"

lemma snapshot_reflects_updated_counters_passes: "snapshot_reflects_updated_counters t0 t1"
  by (simp add: snapshot_reflects_updated_counters_def stats_test_defs)

definition control_connect_disconnect_reflected_in_snapshot :: "u64 \<Rightarrow> u64 \<Rightarrow> u64 \<Rightarrow> u64 \<Rightarrow> bool" where
  "control_connect_disconnect_reflected_in_snapshot t0 t1 t2 t3 \<longleftrightarrow>
     (let state = new_state t0 stats_config;
          up = state\<lparr>st_control := set_connected t1 ''1.2.3.4:5678'' (Some ''alice'') (st_control state)\<rparr>;
          snap = snapshot t2 stats_config up;
          down = up\<lparr>st_control := set_disconnected (st_control up)\<rparr>;
          snap' = snapshot t3 stats_config down
      in snap_connected snap \<and> snap_peer_addr snap = Some ''1.2.3.4:5678'' \<and>
         snap_peer_name snap = Some ''alice'' \<and> connected_since_secs_ago snap \<noteq> None \<and>
         \<not> snap_connected snap' \<and> connected_since_secs_ago snap' = None)"

lemma control_connect_disconnect_reflected_in_snapshot_passes:
  "control_connect_disconnect_reflected_in_snapshot t0 t1 t2 t3"
  by (simp add: control_connect_disconnect_reflected_in_snapshot_def stats_test_defs set_connected_def
      set_disconnected_def)

definition unknown_link_ids_in_config_are_skipped_gracefully :: "u64 \<Rightarrow> u64 \<Rightarrow> bool" where
  "unknown_link_ids_in_config_are_skipped_gracefully t0 t1 \<longleftrightarrow>
     (let cfg = stats_config\<lparr>cfg_links := cfg_links stats_config @ [tcp_forward ''not-in-state'' ''127.0.0.1:2'']\<rparr>
      in length (snap_links (snapshot t1 cfg (new_state t0 stats_config))) = 1)"

lemma unknown_link_ids_in_config_are_skipped_gracefully_passes:
  "unknown_link_ids_in_config_are_skipped_gracefully t0 t1"
  by (simp add: unknown_link_ids_in_config_are_skipped_gracefully_def stats_test_defs)

subsection \<open>\<open>ratelimit.rs\<close>\<close>

definition test_ip :: ip_addr where
  "test_ip = V4 127 0 0 1"

text \<open>
  The attempts of a loop over clock readings, with their results; \<open>hold\<close> says whether the permits
  are kept, as in the first test, or dropped at the end of each iteration.
\<close>

fun attempts :: "bool \<Rightarrow> ip_addr \<Rightarrow> (instant \<times> instant) list \<Rightarrow> limiter \<Rightarrow> bool list \<times> limiter" where
  "attempts hold ip [] lim = ([], lim)"
| "attempts hold ip ((t1, t2) # ts) lim =
     (let (granted, lim) = try_acquire t1 t2 ip lim;
          lim = (if granted \<and> \<not> hold then release lim else lim);
          (gs, lim) = attempts hold ip ts lim
      in (granted # gs, lim))"

definition allows_up_to_the_per_ip_limit_then_rejects ::
  "(instant \<times> instant) list \<Rightarrow> instant \<Rightarrow> instant \<Rightarrow> bool" where
  "allows_up_to_the_per_ip_limit_then_rejects ts t1 t2 \<longleftrightarrow>
     (let (granted, lim) = attempts True test_ip ts new_limiter
      in length granted = max_attempts_per_window \<and> list_all (\<lambda>g. g) granted \<and>
         \<not> fst (try_acquire t1 t2 test_ip lim))"

definition different_ips_have_independent_budgets ::
  "(instant \<times> instant) list \<Rightarrow> instant \<Rightarrow> instant \<Rightarrow> instant \<Rightarrow> instant \<Rightarrow> bool" where
  "different_ips_have_independent_budgets ts t1 t2 u1 u2 \<longleftrightarrow>
     (let ip_a = test_ip; ip_b = V4 10 0 0 1;
          (granted, lim) = attempts False ip_a ts new_limiter;
          (again, lim) = try_acquire t1 t2 ip_a lim
      in length granted = max_attempts_per_window \<and> list_all (\<lambda>g. g) granted \<and> \<not> again \<and>
         fst (try_acquire u1 u2 ip_b lim))"

text \<open>The tests take less than the window: every reading is within sixty seconds of the start.\<close>

definition quick :: "instant \<Rightarrow> (instant \<times> instant) list \<Rightarrow> bool" where
  "quick t0 ts \<longleftrightarrow> list_all (\<lambda>(t1, t2). t0 \<le> t1 \<and> t1 \<le> t0 + int window \<and> t0 \<le> t2 \<and> t2 \<le> t0 + int window) ts"

lemma quick_attempt:
  assumes "quick t0 [(t1, t2)]" and "\<forall>t \<in> set (attempts_of lim ip). t0 \<le> t"
  shows "pruned lim t1 ip = attempts_of lim ip"
  using assms
  by (cases "attempts_of lim ip") (auto simp: quick_def pruned_def limiter_stale_def)

lemma attempts_granted:
  assumes "quick t0 ts" and "\<forall>t \<in> set (attempts_of lim ip). t0 \<le> t"
    and "length (attempts_of lim ip) + length ts \<le> max_attempts_per_window" and "length ts < permits lim"
  shows "\<exists>lim'. attempts hold ip ts lim = (replicate (length ts) True, lim') \<and>
    attempts_of lim' ip = attempts_of lim ip @ map snd ts \<and>
    permits lim' = (if hold then permits lim - length ts else permits lim) \<and>
    (\<forall>ip'. ip' = ip \<or> attempts_of lim' ip' = attempts_of lim ip')"
  using assms
proof (induction ts arbitrary: lim)
  case (Cons p ts)
  obtain t1 t2 where p: "p = (t1, t2)" by (cases p)
  have q: "quick t0 [(t1, t2)]" "quick t0 ts" using Cons.prems(1) p by (simp_all add: quick_def)
  let ?lim1 = "lim\<lparr>permits := permits lim - 1, per_ip := (per_ip lim)(ip \<mapsto> attempts_of lim ip @ [t2])\<rparr>"
  let ?lim2 = "if \<not> hold then release ?lim1 else ?lim1"
  have acq: "try_acquire t1 t2 ip lim = (True, ?lim1)"
    using quick_attempt [OF q(1) Cons.prems(2)] Cons.prems(3,4) by (simp add: try_acquire_def Let_def)
  have att: "attempts_of ?lim2 ip = attempts_of lim ip @ [t2]"
    "\<forall>ip'. ip' = ip \<or> attempts_of ?lim2 ip' = attempts_of lim ip'"
    by (simp_all add: attempts_of_def release_def)
  have per: "permits ?lim2 = (if hold then permits lim - 1 else permits lim)"
    using Cons.prems(4) by (simp add: release_def)
  have "\<exists>lim'. attempts hold ip ts ?lim2 = (replicate (length ts) True, lim') \<and>
      attempts_of lim' ip = attempts_of ?lim2 ip @ map snd ts \<and>
      permits lim' = (if hold then permits ?lim2 - length ts else permits ?lim2) \<and>
      (\<forall>ip'. ip' = ip \<or> attempts_of lim' ip' = attempts_of ?lim2 ip')"
    using q Cons.prems att(1) per by (intro Cons.IH) (auto simp: quick_def)
  then obtain lim' where rest: "attempts hold ip ts ?lim2 = (replicate (length ts) True, lim')"
    "attempts_of lim' ip = attempts_of ?lim2 ip @ map snd ts"
    "permits lim' = (if hold then permits ?lim2 - length ts else permits ?lim2)"
    "\<forall>ip'. ip' = ip \<or> attempts_of lim' ip' = attempts_of ?lim2 ip'" by blast
  have "\<forall>ip'. ip' = ip \<or> attempts_of lim' ip' = attempts_of lim ip'" using rest(4) att(2) by metis
  moreover have "attempts hold ip (p # ts) lim = (replicate (length (p # ts)) True, lim')"
    using acq rest(1) by (cases hold) (simp_all add: p Let_def)
  ultimately show ?case using rest(2,3) att(1) per p by (intro exI [of _ lim']) auto
qed simp

lemma ten_attempts:
  assumes "quick t0 ts" and "length ts = max_attempts_per_window" and "quick t0 [(t1, t2)]"
  obtains lim where "attempts hold test_ip ts new_limiter = (replicate (length ts) True, lim)"
    and "try_acquire t1 t2 test_ip lim = (False, lim\<lparr>per_ip := (per_ip lim)(test_ip \<mapsto> map snd ts)\<rparr>)"
    and "0 < permits lim" and "\<And>ip. ip \<noteq> test_ip \<Longrightarrow> attempts_of lim ip = []"
proof -
  obtain lim where lim: "attempts hold test_ip ts new_limiter = (replicate (length ts) True, lim)"
    "attempts_of lim test_ip = map snd ts"
    "permits lim = (if hold then permits new_limiter - length ts else permits new_limiter)"
    "\<forall>ip. ip = test_ip \<or> attempts_of lim ip = attempts_of new_limiter ip"
    using attempts_granted [OF assms(1), of new_limiter test_ip hold] assms(2)
    by (auto simp: attempts_of_def new_limiter_def max_concurrent_handshakes_def max_attempts_per_window_def)
  have "\<forall>t \<in> set (attempts_of lim test_ip). t0 \<le> t"
    using assms(1) lim(2) by (auto simp: quick_def list_all_iff)
  from quick_attempt [OF assms(3) this]
  have "try_acquire t1 t2 test_ip lim = (False, lim\<lparr>per_ip := (per_ip lim)(test_ip \<mapsto> map snd ts)\<rparr>)"
    using assms(2) lim(2) by (simp add: try_acquire_def)
  moreover have "0 < permits lim"
    using lim(3) assms(2) by (simp add: new_limiter_def max_concurrent_handshakes_def max_attempts_per_window_def)
  moreover have "attempts_of lim ip = []" if "ip \<noteq> test_ip" for ip
    using lim(4) that by (auto simp: new_limiter_def attempts_of_def)
  ultimately show ?thesis using that lim(1) by blast
qed

lemma allows_up_to_the_per_ip_limit_then_rejects_passes:
  assumes "quick t0 ts" and "length ts = max_attempts_per_window" and "quick t0 [(t1, t2)]"
  shows "allows_up_to_the_per_ip_limit_then_rejects ts t1 t2"
  by (rule ten_attempts [OF assms, of True])
    (simp add: allows_up_to_the_per_ip_limit_then_rejects_def assms(2) list_all_iff)

lemma different_ips_have_independent_budgets_passes:
  assumes "quick t0 ts" and "length ts = max_attempts_per_window" and "quick t0 [(t1, t2)]"
  shows "different_ips_have_independent_budgets ts t1 t2 u1 u2"
proof -
  obtain lim where lim: "attempts False test_ip ts new_limiter = (replicate (length ts) True, lim)"
    "try_acquire t1 t2 test_ip lim = (False, lim\<lparr>per_ip := (per_ip lim)(test_ip \<mapsto> map snd ts)\<rparr>)"
    "0 < permits lim" "\<And>ip. ip \<noteq> test_ip \<Longrightarrow> attempts_of lim ip = []"
    using ten_attempts [OF assms, of False] by blast
  have "V4 10 0 0 1 \<noteq> test_ip" by (simp add: test_ip_def)
  then have "fst (try_acquire u1 u2 (V4 10 0 0 1) (lim\<lparr>per_ip := (per_ip lim)(test_ip \<mapsto> map snd ts)\<rparr>))"
    using lim(3,4) by (simp add: try_acquire_def pruned_def attempts_of_def max_attempts_per_window_def split: option.splits)
  then show ?thesis
    using lim(1,2) assms(2) by (simp add: different_ips_have_independent_budgets_def list_all_iff Let_def)
qed

text \<open>\<open>gap\<close> is the millisecond by which the old attempts miss the window.\<close>

definition per_ip_budget_recovers_after_the_window_elapses ::
  "instant \<Rightarrow> int \<Rightarrow> instant \<Rightarrow> instant \<Rightarrow> bool" where
  "per_ip_budget_recovers_after_the_window_elapses now gap t1 t2 \<longleftrightarrow>
     (let old_enough = now - int window - gap;
          lim = \<lparr>permits = max_concurrent_handshakes,
                 per_ip = [test_ip \<mapsto> replicate max_attempts_per_window old_enough]\<rparr>
      in fst (try_acquire t1 t2 test_ip lim))"

lemma per_ip_budget_recovers_after_the_window_elapses_passes:
  assumes "0 < gap" and "now \<le> t1"
  shows "per_ip_budget_recovers_after_the_window_elapses now gap t1 t2"
proof -
  have "dropWhile (limiter_stale t1) (replicate n (now - int window - gap)) = []" for n
    using assms by (induction n) (simp_all add: limiter_stale_def)
  then show ?thesis
    by (simp add: per_ip_budget_recovers_after_the_window_elapses_def try_acquire_def pruned_def attempts_of_def
        max_attempts_per_window_def max_concurrent_handshakes_def Let_def)
qed

definition global_concurrency_cap_is_enforced_even_with_per_ip_budget_left ::
  "instant \<Rightarrow> instant \<Rightarrow> instant \<Rightarrow> instant \<Rightarrow> instant \<Rightarrow> instant \<Rightarrow> bool" where
  "global_concurrency_cap_is_enforced_even_with_per_ip_budget_left t1 t2 u1 u2 v1 v2 \<longleftrightarrow>
     (let ip_b = V4 10 0 0 2;
          (first, lim) = try_acquire t1 t2 test_ip \<lparr>permits = 1, per_ip = Map.empty\<rparr>;
          (other, lim) = try_acquire u1 u2 ip_b lim;
          lim = release lim
      in first \<and> \<not> other \<and> fst (try_acquire v1 v2 ip_b lim))"

lemma global_concurrency_cap_is_enforced_even_with_per_ip_budget_left_passes:
  "global_concurrency_cap_is_enforced_even_with_per_ip_budget_left t1 t2 u1 u2 v1 v2"
  by (simp add: global_concurrency_cap_is_enforced_even_with_per_ip_budget_left_def try_acquire_def pruned_def
      attempts_of_def max_attempts_per_window_def release_def test_ip_def Let_def)

subsection \<open>\<open>framing.rs\<close>\<close>

text \<open>The tests send a struct of their own through an in-memory pipe.\<close>

record sample =
  sample_a :: u32
  sample_b :: string

definition round_trips_over_an_in_memory_duplex :: "sample writer \<Rightarrow> sample reader \<Rightarrow> bool" where
  "round_trips_over_an_in_memory_duplex to_json from_json \<longleftrightarrow>
     (let msg = \<lparr>sample_a = 42, sample_b = ''hello''\<rparr>
      in case send_json to_json msg of Inl e \<Rightarrow> False
      | Inr fr \<Rightarrow> (case recv_json from_json fr of Inl e \<Rightarrow> False | Inr (got, rest) \<Rightarrow> got = msg))"

lemma round_trips_over_an_in_memory_duplex_passes:
  assumes "json_reads_back to_json from_json \<lparr>sample_a = 42, sample_b = ''hello''\<rparr>"
  shows "round_trips_over_an_in_memory_duplex to_json from_json"
proof -
  obtain fr where "send_json to_json \<lparr>sample_a = 42, sample_b = ''hello''\<rparr> = Inr fr"
    and "recv_json from_json (fr @ []) = Inr (\<lparr>sample_a = 42, sample_b = ''hello''\<rparr>, [])"
    using send_recv [OF assms] by blast
  then show ?thesis by (simp add: round_trips_over_an_in_memory_duplex_def Let_def)
qed

definition oversized_length_prefix_is_rejected_without_allocating :: "sample reader \<Rightarrow> string \<Rightarrow> bool" where
  "oversized_length_prefix_is_rejected_without_allocating from_json rest \<longleftrightarrow>
     isl (recv_json from_json (u32_le (of_nat max_message_len + 1) @ rest))"

lemma oversized_length_prefix_is_rejected_without_allocating_passes:
  "oversized_length_prefix_is_rejected_without_allocating from_json rest"
  by (simp add: oversized_length_prefix_is_rejected_without_allocating_def recv_json_def le_val_u32_le
      max_message_len_def Let_def)

definition two_messages_in_sequence_dont_interfere :: "sample writer \<Rightarrow> sample reader \<Rightarrow> bool" where
  "two_messages_in_sequence_dont_interfere to_json from_json \<longleftrightarrow>
     (let first = \<lparr>sample_a = 1, sample_b = ''one''\<rparr>; second = \<lparr>sample_a = 2, sample_b = ''two''\<rparr>
      in case send_all to_json [first, second] of Inl e \<Rightarrow> False
      | Inr s \<Rightarrow> (case recv_n from_json 2 s of Inl e \<Rightarrow> False | Inr (ms, rest) \<Rightarrow> ms = [first, second]))"

lemma two_messages_in_sequence_dont_interfere_passes:
  assumes "json_reads_back to_json from_json \<lparr>sample_a = 1, sample_b = ''one''\<rparr>"
    and "json_reads_back to_json from_json \<lparr>sample_a = 2, sample_b = ''two''\<rparr>"
  shows "two_messages_in_sequence_dont_interfere to_json from_json"
proof -
  let ?ms = "[\<lparr>sample_a = 1, sample_b = ''one''\<rparr>, \<lparr>sample_a = 2, sample_b = ''two''\<rparr>]"
  have "\<forall>m \<in> set ?ms. json_reads_back to_json from_json m" using assms by simp
  from send_all_recv_n [OF this]
  obtain s where "send_all to_json ?ms = Inr s" "recv_n from_json (length ?ms) (s @ []) = Inr (?ms, [])" by blast
  moreover have "s @ [] = s" by simp
  moreover have "length ?ms = 2" by simp
  ultimately show ?thesis
    unfolding two_messages_in_sequence_dont_interfere_def Let_def by (simp only: sum.case prod.case)
qed

subsection \<open>\<open>noise.rs\<close> and \<open>peermatch.rs\<close>\<close>

definition matching_pinned_keys_let_initiator_and_responder_build :: "'hs snow \<Rightarrow> keypair \<Rightarrow> keypair \<Rightarrow> bool" where
  "matching_pinned_keys_let_initiator_and_responder_build sn a b \<longleftrightarrow>
     \<not> isl (initiator sn (kp_private a) (kp_public b)) \<and> \<not> isl (responder sn (kp_private b) (kp_public a))"

text \<open>\<open>snow\<close> builds a handshake state from any two keys of 32 bytes.\<close>

definition builds :: "'hs snow \<Rightarrow> bool" where
  "builds sn \<longleftrightarrow> (\<forall>private public. length private = 32 \<and> length public = 32 \<longrightarrow>
     \<not> isl (build_initiator sn private public) \<and> \<not> isl (build_responder sn private public))"

definition generated :: "keypair \<Rightarrow> bool" where
  "generated kp \<longleftrightarrow> length (kp_private kp) = 32 \<and> length (kp_public kp) = 32"

lemma matching_pinned_keys_let_initiator_and_responder_build_passes:
  assumes "builds sn" and "generated a" and "generated b"
  shows "matching_pinned_keys_let_initiator_and_responder_build sn a b"
proof -
  have "\<not> isl (build_initiator sn (kp_private a) (kp_public b))" "\<not> isl (build_responder sn (kp_private b) (kp_public a))"
    using assms by (simp_all add: builds_def generated_def)
  then show ?thesis
    by (cases "build_initiator sn (kp_private a) (kp_public b)"; cases "build_responder sn (kp_private b) (kp_public a)")
      (simp_all add: matching_pinned_keys_let_initiator_and_responder_build_def initiator_def responder_def)
qed

text \<open>
  In the tests a real initiator writes the first message to a socket: here it is a byte string
  \<open>m\<close>, sent with its length in two bytes, that the responder built for the initiator's key accepts
  and one built for another key does not. \<open>my_turn\<close> is \<open>is_my_turn\<close> of the accepted state.
\<close>

definition resolved :: "string \<Rightarrow> bytes \<Rightarrow> string list \<Rightarrow> resolved_peer" where
  "resolved name public links = \<lparr>rp_name = name, rp_public_key = public, rp_links = set links\<rparr>"

definition with_u16_len :: "string \<Rightarrow> string" where
  "with_u16_len m = [char_of (length m mod 256), char_of (length m div 256 mod 256)] @ m"

definition wrote :: "'hs snow \<Rightarrow> ('hs \<Rightarrow> bool) \<Rightarrow> bytes \<Rightarrow> bytes \<Rightarrow> string \<Rightarrow> bool" where
  "wrote sn my_turn responder_private initiator_public m \<longleftrightarrow> length m < 65536 \<and>
     (\<forall>public. accepts sn m responder_private (resolved [] public []) \<longleftrightarrow> public = initiator_public) \<and>
     (\<forall>st st'. read_message sn st m = Some st' \<longrightarrow> my_turn st')"

definition matches_the_correct_candidate_when_it_is_not_first ::
  "'hs snow \<Rightarrow> ('hs \<Rightarrow> bool) \<Rightarrow> keypair \<Rightarrow> keypair \<Rightarrow> keypair \<Rightarrow> string \<Rightarrow> bool" where
  "matches_the_correct_candidate_when_it_is_not_first sn my_turn responder_kp initiator_kp decoy_kp m \<longleftrightarrow>
     (let peers = [resolved ''decoy'' (kp_public decoy_kp) [''a''], resolved ''real'' (kp_public initiator_kp) [''b'']]
      in case fst (match_peer sn (with_u16_len m) (kp_private responder_kp) peers) of Inl e \<Rightarrow> False
         | Inr (index, state) \<Rightarrow> index = 1 \<and> my_turn state)"

definition no_candidate_matches_an_unrecognized_key ::
  "'hs snow \<Rightarrow> keypair \<Rightarrow> keypair \<Rightarrow> string \<Rightarrow> bool" where
  "no_candidate_matches_an_unrecognized_key sn responder_kp stranger_kp m \<longleftrightarrow>
     fst (match_peer sn (with_u16_len m) (kp_private responder_kp)
       [resolved ''stranger'' (kp_public stranger_kp) [''a'']]) = Inl NoMatch"

definition match_peer_bytes_matches_a_real_message_one_buffer ::
  "'hs snow \<Rightarrow> ('hs \<Rightarrow> bool) \<Rightarrow> keypair \<Rightarrow> keypair \<Rightarrow> string \<Rightarrow> bool" where
  "match_peer_bytes_matches_a_real_message_one_buffer sn my_turn responder_kp initiator_kp m \<longleftrightarrow>
     (let tcp = with_u16_len m; len = le_val (take 2 tcp); message = take len (drop 2 tcp);
          peers = [resolved ''real'' (kp_public initiator_kp) [''a'']]
      in case match_peer_bytes sn message (kp_private responder_kp) peers of Inl e \<Rightarrow> False
         | Inr (index, state) \<Rightarrow> index = 0 \<and> my_turn state)"

lemma with_u16_len_val: "length m < 65536 \<Longrightarrow> le_val (take 2 (with_u16_len m)) = length m"
  by (simp add: with_u16_len_def byte_def)

lemma match_peer_frame:
  assumes "length m < 65536"
  shows "fst (match_peer sn (with_u16_len m) k ps) = match_loop sn m k 0 ps"
  using with_u16_len_val [OF assms]
  by (simp add: match_peer_def match_peer_bytes_def Let_def) (simp add: with_u16_len_def)

lemma wrote_step:
  assumes "wrote sn my_turn k public m"
  shows "public = p \<Longrightarrow> \<exists>st st'. responder sn k p = Inr st \<and> read_message sn st m = Some st' \<and> my_turn st'"
    and "public \<noteq> p \<Longrightarrow> responder sn k p = Inr st \<Longrightarrow> read_message sn st m = None"
proof -
  have acc: "accepts sn m k (resolved [] p []) \<longleftrightarrow> p = public" using assms by (auto simp: wrote_def)
  show "\<exists>st st'. responder sn k p = Inr st \<and> read_message sn st m = Some st' \<and> my_turn st'" if "public = p"
  proof -
    have "accepts sn m k (resolved [] p [])" using acc that by simp
    then obtain st st' where "responder sn k p = Inr st" "read_message sn st m = Some st'"
      by (auto simp: accepts_def resolved_def split: sum.splits)
    then show ?thesis using assms by (auto simp: wrote_def)
  qed
  show "read_message sn st m = None" if "public \<noteq> p" "responder sn k p = Inr st"
    using acc that by (auto simp: accepts_def resolved_def split: sum.splits)
qed

lemma matches_the_correct_candidate_when_it_is_not_first_passes:
  assumes "wrote sn my_turn (kp_private responder_kp) (kp_public initiator_kp) m"
    and "kp_public decoy_kp \<noteq> kp_public initiator_kp"
  shows "matches_the_correct_candidate_when_it_is_not_first sn my_turn responder_kp initiator_kp decoy_kp m"
proof -
  obtain st st' where real: "responder sn (kp_private responder_kp) (kp_public initiator_kp) = Inr st"
    "read_message sn st m = Some st'" "my_turn st'"
    using wrote_step(1) [OF assms(1) refl] by blast
  have decoy: "read_message sn st m = None" if "responder sn (kp_private responder_kp) (kp_public decoy_kp) = Inr st" for st
    using wrote_step(2) [OF assms(1) assms(2) [symmetric]] that by blast
  have "length m < 65536" using assms(1) by (simp add: wrote_def)
  then show ?thesis
    using real decoy
    by (cases "responder sn (kp_private responder_kp) (kp_public decoy_kp)")
      (simp_all add: matches_the_correct_candidate_when_it_is_not_first_def match_peer_frame resolved_def Let_def)
qed

lemma no_candidate_matches_an_unrecognized_key_passes:
  assumes "wrote sn my_turn (kp_private responder_kp) public m" and "kp_public stranger_kp \<noteq> public"
  shows "no_candidate_matches_an_unrecognized_key sn responder_kp stranger_kp m"
proof -
  have "length m < 65536" using assms(1) by (simp add: wrote_def)
  then show ?thesis
    using wrote_step(2) [OF assms(1) assms(2) [symmetric]]
    by (cases "responder sn (kp_private responder_kp) (kp_public stranger_kp)")
      (simp_all add: no_candidate_matches_an_unrecognized_key_def match_peer_frame resolved_def)
qed

lemma match_peer_bytes_matches_a_real_message_one_buffer_passes:
  assumes "wrote sn my_turn (kp_private responder_kp) (kp_public initiator_kp) m"
  shows "match_peer_bytes_matches_a_real_message_one_buffer sn my_turn responder_kp initiator_kp m"
proof -
  obtain st st' where real: "responder sn (kp_private responder_kp) (kp_public initiator_kp) = Inr st"
    "read_message sn st m = Some st'" "my_turn st'"
    using wrote_step(1) [OF assms refl] by blast
  have "length m < 65536" using assms by (simp add: wrote_def)
  then have "take (le_val (take 2 (with_u16_len m))) (drop 2 (with_u16_len m)) = m"
    by (simp add: with_u16_len_val) (simp add: with_u16_len_def)
  then show ?thesis
    using real by (simp add: match_peer_bytes_matches_a_real_message_one_buffer_def match_peer_bytes_def resolved_def Let_def)
qed

subsection \<open>\<open>ipc.rs\<close>\<close>

definition query_fails_cleanly_when_nothing_is_listening ::
  "(string \<Rightarrow> string + status_snapshot) \<Rightarrow> string \<Rightarrow> string \<Rightarrow> bool" where
  "query_fails_cleanly_when_nothing_is_listening from_json path e \<longleftrightarrow> isl (query_status from_json path (Inl e))"

lemma query_fails_cleanly_when_nothing_is_listening_passes:
  "query_fails_cleanly_when_nothing_is_listening from_json path e"
  by (simp add: query_fails_cleanly_when_nothing_is_listening_def query_status_def)

definition ipc_config :: config where
  "ipc_config = stats_config\<lparr>cfg_links := []\<rparr>"

definition round_trips_a_real_snapshot_over_a_real_socket ::
  "(status_snapshot \<Rightarrow> string + string) \<Rightarrow> (string \<Rightarrow> string + status_snapshot) \<Rightarrow> u64 \<Rightarrow> u64 \<Rightarrow> u64 \<Rightarrow>
     string \<Rightarrow> fs \<Rightarrow> bool" where
  "round_trips_a_real_snapshot_over_a_real_socket to_json from_json t0 t1 t2 path s \<longleftrightarrow>
     (let state = new_state t0 ipc_config;
          state = state\<lparr>st_control := set_connected t1 ''9.9.9.9:1'' (Some ''alice'') (st_control state)\<rparr>
      in fst (run_ipc_server willing path s) \<and>
         (case respond to_json (snapshot t2 ipc_config state) of Inl e \<Rightarrow> False
          | Inr bs \<Rightarrow>
             (case query_status from_json path (Inr (Inr bs)) of Inl e \<Rightarrow> False
              | Inr snap \<Rightarrow> snap_role snap = ''server'' \<and> snap_connected snap \<and>
                  snap_peer_addr snap = Some ''9.9.9.9:1'')))"

definition socket_file_is_owner_only :: "string \<Rightarrow> fs \<Rightarrow> bool" where
  "socket_file_is_owner_only path s \<longleftrightarrow>
     (let (bound, s') = run_ipc_server willing path s
      in bound \<and> (case fs_files s' path of None \<Rightarrow> False | Some f \<Rightarrow> f_mode f mod 512 = 384))"

lemma ipc_server_binds:
  assumes "parent path = Some d" and "d \<noteq> path"
  obtains s' f where "run_ipc_server willing path s = (True, s')" and "fs_files s' path = Some f" and "f_mode f = 384"
proof -
  have "\<exists>s1. create_dir_all willing d s = Inr s1" by (simp add: create_dir_all_def willing_def)
  then obtain s1 where s1: "create_dir_all willing d s = Inr s1" by blast
  let ?s2 = "ignore_error s1 (set_permissions willing d 448 s1)"
  let ?s3 = "ignore_error ?s2 (remove_file willing path ?s2)"
  have "fs_files ?s3 path = None"
    by (cases "fs_files ?s2 path") (simp_all add: remove_file_def ignore_error_def willing_def)
  then have "\<exists>s'. run_ipc_server willing path s = (True, s') \<and> (\<exists>f. fs_files s' path = Some f \<and> f_mode f = 384)"
    using s1 assms(1)
    by (simp add: run_ipc_server_def Let_def bind_socket_def create_file_def set_permissions_def ignore_error_def willing_def)
  then show ?thesis using that by blast
qed

lemma round_trips_a_real_snapshot_over_a_real_socket_passes:
  assumes "parent path = Some d" and "d \<noteq> path"
    and "\<And>snap. \<exists>bs. to_json snap = Inr bs \<and> from_json bs = Inr snap"
  shows "round_trips_a_real_snapshot_over_a_real_socket to_json from_json t0 t1 t2 path s"
proof -
  let ?state = "new_state t0 ipc_config"
  let ?snap = "snapshot t2 ipc_config (?state\<lparr>st_control := set_connected t1 ''9.9.9.9:1'' (Some ''alice'') (st_control ?state)\<rparr>)"
  obtain bs where "to_json ?snap = Inr bs" "from_json bs = Inr ?snap" using assms(3) by blast
  moreover have "snap_role ?snap = ''server''" "snap_connected ?snap" "snap_peer_addr ?snap = Some ''9.9.9.9:1''"
    by (simp_all add: ipc_config_def stats_test_defs role_text set_connected_def)
  moreover have "fst (run_ipc_server willing path s)"
    using ipc_server_binds [OF assms(1,2), of s] by force
  ultimately show ?thesis
    by (simp add: round_trips_a_real_snapshot_over_a_real_socket_def respond_def query_status_def Let_def)
qed

lemma socket_file_is_owner_only_passes:
  assumes "parent path = Some d" and "d \<noteq> path"
  shows "socket_file_is_owner_only path s"
  by (rule ipc_server_binds [OF assms, of s]) (simp add: socket_file_is_owner_only_def)

end
