(* ===== verification/Tool_Tests.thy ===== *)
theory Tool_Tests
  imports Firewall Tui_Format Udp
begin

section \<open>The unit tests of the firewall, of the UDP crate and of \<open>format.rs\<close>\<close>

text \<open>
  The modules \<open>tests\<close> of \<open>detector.rs\<close>, the firewall's \<open>config.rs\<close>, the UDP \<open>server.rs\<close> and
  \<open>client.rs\<close>, and \<open>tui/format.rs\<close>, run on the model as in \<open>Config_Tests\<close>.
\<close>

subsection \<open>\<open>detector.rs\<close>: lines\<close>

definition RED :: string where
  "RED = esc # ''[38;2;255;59;82m''"

definition RESET :: string where
  "RESET = esc # ''[0m''"

text \<open>The line is read as the offense of the parsed address.\<close>

definition offense_is :: "(string \<Rightarrow> nat) \<Rightarrow> string \<Rightarrow> string \<Rightarrow> offense \<Rightarrow> bool" where
  "offense_is nd line ip off \<longleftrightarrow>
     (case parse_ip_addr ip of None \<Rightarrow> False | Some a \<Rightarrow> extract_offense nd line = Some (a, off))"

definition extracts_ip_from_control_rate_limit_rejection :: "(string \<Rightarrow> nat) \<Rightarrow> bool" where
  "extracts_ip_from_control_rate_limit_rejection nd \<longleftrightarrow>
     offense_is nd
       (RED @ ''control: rejected 198.51.100.7:51422 (too many recent handshake attempts)'' @ RESET)
       ''198.51.100.7'' Rate_Limited"

definition extracts_ip_from_data_rate_limit_rejection :: "(string \<Rightarrow> nat) \<Rightarrow> bool" where
  "extracts_ip_from_data_rate_limit_rejection nd \<longleftrightarrow>
     offense_is nd ''data: rejected 203.0.113.9:9000 (too many recent handshake attempts)''
       ''203.0.113.9'' Rate_Limited"

definition extracts_ip_from_tcp_handshake_failed :: "(string \<Rightarrow> nat) \<Rightarrow> bool" where
  "extracts_ip_from_tcp_handshake_failed nd \<longleftrightarrow>
     offense_is nd
       (RED @ ''control: handshake with 198.51.100.7:51422 failed: decryption failed'' @ RESET)
       ''198.51.100.7'' Handshake_Failed"

definition extracts_ip_from_udp_handshake_failed :: "(string \<Rightarrow> nat) \<Rightarrow> bool" where
  "extracts_ip_from_udp_handshake_failed nd \<longleftrightarrow>
     offense_is nd
       (''ghostport-udp: handshake with 203.0.113.9:33000 ('' @ quoted ''client'' @ '') failed: decryption failed'')
       ''203.0.113.9'' Handshake_Failed"

definition extracts_ipv6_from_bracketed_socketaddr_format :: "(string \<Rightarrow> nat) \<Rightarrow> bool" where
  "extracts_ipv6_from_bracketed_socketaddr_format nd \<longleftrightarrow>
     offense_is nd ''control: rejected [2001:db8::1]:5678 (too many recent handshake attempts)''
       ''2001:db8::1'' Rate_Limited"

definition ignores_handshake_timeouts :: "(string \<Rightarrow> nat) \<Rightarrow> bool" where
  "ignores_handshake_timeouts nd \<longleftrightarrow>
     extract_offense nd ''control: handshake with 198.51.100.7:51422 timed out'' = None"

definition ignores_address_less_authorization_failures :: "(string \<Rightarrow> nat) \<Rightarrow> bool" where
  "ignores_address_less_authorization_failures nd \<longleftrightarrow>
     extract_offense nd (''peer '' @ quoted ''alice'' @ '' is not authorized for link '' @ quoted ''db'') = None"

definition ignores_unrelated_lines :: "(string \<Rightarrow> nat) \<Rightarrow> bool" where
  "ignores_unrelated_lines nd \<longleftrightarrow>
     extract_offense nd
       (''ghostport: control channel connected from 198.51.100.7:51422 (peer '' @ quoted ''alice'' @ '')'') = None"

lemmas parser_defs =
  parse_ip_addr_def parse_all_def read_ip_def read_ipv4_def read_ipv6_def read_octet_def read_number_def
  read_separator_def to_digit_def is_radix_digit_def is_digit_def byte_def from_be_bytes_def Let_def

lemma parsed_addrs:
  "parse_ip_addr ''198.51.100.7'' = Some (V4 198 51 100 7)"
  "parse_ip_addr ''203.0.113.9'' = Some (V4 203 0 113 9)"
  "parse_ip_addr ''8.8.8.8'' = Some (V4 8 8 8 8)"
  "parse_ip_addr ''127.0.0.1'' = Some (V4 127 0 0 1)"
  "parse_ip_addr ''10.1.2.3'' = Some (V4 10 1 2 3)"
  "parse_ip_addr ''172.16.5.5'' = Some (V4 172 16 5 5)"
  "parse_ip_addr ''192.168.1.50'' = Some (V4 192 168 1 50)"
  "parse_ip_addr ''169.254.1.1'' = Some (V4 169 254 1 1)"
  by (simp_all add: parser_defs)

lemma read_v6_groups:
  "read_groups 8 0 [] ''2001:db8::1'' = ([0x2001, 0xdb8], False, ''::1'')"
  "read_groups 5 0 [] ''1'' = ([1], False, [])"
  "read_groups 8 0 [] ''::1'' = ([], False, ''::1'')"
  "read_groups 7 0 [] ''1'' = ([1], False, [])"
  by (simp_all add: parser_defs read_groups.simps)

lemma not_v4:
  "read_ipv4 ''2001:db8::1'' = None" "read_ipv4 ''::1'' = None"
  by (simp_all add: parser_defs)

lemma zeros: "replicate 5 (0 :: u16) = [0, 0, 0, 0, 0]" "replicate 7 (0 :: u16) = [0, 0, 0, 0, 0, 0, 0]"
  by (simp_all add: eval_nat_numeral)

lemma parsed_v6:
  "parse_ip_addr ''2001:db8::1'' = Some (V6 [0x2001, 0xdb8, 0, 0, 0, 0, 0, 1])"
  "parse_ip_addr ''::1'' = Some (V6 [0, 0, 0, 0, 0, 0, 0, 1])"
  by (simp_all add: parse_ip_addr_def parse_all_def read_ip_def read_ipv6_def not_v4 read_v6_groups zeros)

lemma extracts_ip_from_control_rate_limit_rejection_passes: "extracts_ip_from_control_rate_limit_rejection nd"
  by code_simp

lemma extracts_ip_from_data_rate_limit_rejection_passes: "extracts_ip_from_data_rate_limit_rejection nd"
  by code_simp

lemma extracts_ip_from_tcp_handshake_failed_passes: "extracts_ip_from_tcp_handshake_failed nd"
  by code_simp

lemma extracts_ip_from_udp_handshake_failed_passes: "extracts_ip_from_udp_handshake_failed nd"
  by code_simp

lemma ignores_handshake_timeouts_passes: "ignores_handshake_timeouts nd"
  by code_simp

lemma ignores_address_less_authorization_failures_passes: "ignores_address_less_authorization_failures nd"
  by code_simp

lemma ignores_unrelated_lines_passes: "ignores_unrelated_lines nd"
  by code_simp

lemma plain_v6_line:
  "strip_ansi ''control: rejected [2001:db8::1]:5678 (too many recent handshake attempts)'' =
     ''control: rejected [2001:db8::1]:5678 (too many recent handshake attempts)''"
  by code_simp

lemma captures_v6_line:
  "captures nd (''control: rejected '', too_many)
     ''control: rejected [2001:db8::1]:5678 (too many recent handshake attempts)'' = Some ''2001:db8::1''"
  by code_simp

lemma extracts_ipv6_from_bracketed_socketaddr_format_passes: "extracts_ipv6_from_bracketed_socketaddr_format nd"
  by (simp only: extracts_ipv6_from_bracketed_socketaddr_format_def offense_is_def parsed_v6 option.case
      extract_offense_def plain_v6_line patterns_def first_offense.simps captures_v6_line)

subsection \<open>\<open>detector.rs\<close>: addresses and the tracker\<close>

definition protects :: "string \<Rightarrow> bool option" where
  "protects ip = map_option is_never_bannable (parse_ip_addr ip)"

definition loopback_and_private_ranges_never_bannable :: bool where
  "loopback_and_private_ranges_never_bannable \<longleftrightarrow>
     list_all (\<lambda>ip. protects ip = Some True)
       [''127.0.0.1'', ''10.1.2.3'', ''172.16.5.5'', ''192.168.1.50'', ''169.254.1.1'', ''::1''] \<and>
     list_all (\<lambda>ip. protects ip = Some False) [''198.51.100.7'', ''203.0.113.9'', ''8.8.8.8'']"

lemma loopback_and_private_ranges_never_bannable_passes: loopback_and_private_ranges_never_bannable
  by (simp add: loopback_and_private_ranges_never_bannable_def protects_def parsed_addrs parsed_v6)

text \<open>The answers of \<open>record\<close> for one address at the given times.\<close>

fun record_each :: "ip_addr \<Rightarrow> instant list \<Rightarrow> tracker \<Rightarrow> bool list \<times> tracker" where
  "record_each ip [] tr = ([], tr)"
| "record_each ip (t # ts) tr =
     (let (fired, tr) = record_failure ip t tr; (later, tr) = record_each ip ts tr in (fired # later, tr))"

definition tracker_fires_exactly_once_at_threshold :: "ip_addr \<Rightarrow> instant \<Rightarrow> bool" where
  "tracker_fires_exactly_once_at_threshold ip t0 \<longleftrightarrow>
     fst (record_each ip [t0, t0, t0, t0] (new_tracker (secs 600) 3)) = [False, False, True, False]"

definition tracker_prunes_outside_window :: "ip_addr \<Rightarrow> instant \<Rightarrow> bool" where
  "tracker_prunes_outside_window ip t0 \<longleftrightarrow>
     fst (record_each ip [t0, t0 + secs 30] (new_tracker (secs 10) 2)) = [False, False]"

definition forget_resets_the_count :: "ip_addr \<Rightarrow> instant \<Rightarrow> bool" where
  "forget_resets_the_count ip t0 \<longleftrightarrow>
     (let (answers, tracker) = record_each ip [t0, t0] (new_tracker (secs 600) 2);
          tracker = forget ip tracker
      in answers = [False, True] \<and> \<not> fst (record_failure ip t0 tracker))"

lemmas tracker_defs =
  new_tracker_def record_failure_def failures_of_def forget_def tracker_stale_def duration_since_def secs_def

lemma tracker_fires_exactly_once_at_threshold_passes: "tracker_fires_exactly_once_at_threshold ip t0"
  by (simp add: tracker_fires_exactly_once_at_threshold_def tracker_defs Let_def)

lemma tracker_prunes_outside_window_passes: "tracker_prunes_outside_window ip t0"
  by (simp add: tracker_prunes_outside_window_def tracker_defs Let_def)

lemma forget_resets_the_count_passes: "forget_resets_the_count ip t0"
  by (simp add: forget_resets_the_count_def tracker_defs Let_def)

subsection \<open>The firewall's \<open>config.rs\<close>\<close>

definition defaults_match_vortexwall_convention :: bool where
  "defaults_match_vortexwall_convention \<longleftrightarrow>
     (let cfg = default_app_config
      in app_threshold cfg = 5 \<and> window_secs cfg = 600 \<and> ban_secs cfg = 3600 \<and> allowlist cfg = [] \<and>
         service cfg = ''ghostport'')"

lemma defaults_match_vortexwall_convention_passes: defaults_match_vortexwall_convention
  by (simp add: defaults_match_vortexwall_convention_def app_defaults)

subsection \<open>\<open>format.rs\<close>\<close>

definition duration_formats_each_scale :: bool where
  "duration_formats_each_scale \<longleftrightarrow>
     show_duration 0 = ''0s'' \<and> show_duration 45 = ''45s'' \<and> show_duration 65 = ''1m 5s'' \<and>
     show_duration 3665 = ''1h 1m 5s'' \<and> show_duration 90065 = ''1d 1h 1m''"

definition bytes_formats_each_scale :: bool where
  "bytes_formats_each_scale \<longleftrightarrow>
     show_bytes 0 = ''0 B'' \<and> show_bytes 512 = ''512 B'' \<and> show_bytes 2048 = ''2.0 KB'' \<and>
     show_bytes (5 * 1024 * 1024) = ''5.0 MB''"

definition rate_appends_per_second :: bool where
  "rate_appends_per_second \<longleftrightarrow> show_rate 2048 = ''2.0 KB/s''"

lemma duration_formats_each_scale_passes: duration_formats_each_scale
  by (simp add: duration_formats_each_scale_def show_duration_def show_nat.simps digit_chars)

lemma f64_round_numeral: "numeral k < (2 ^ 53 :: nat) \<Longrightarrow> f64_round (numeral k) = numeral k"
  using f64_of_nat_exact [of "numeral k"] by (simp add: f64_of_nat_def)

lemma round_half_even_numeral: "round_half_even (numeral k) = numeral k"
  using round_half_even_int [of "numeral k"] by simp

lemmas shown_bytes =
  show_bytes_def scale_bytes.simps units_def f64_div_def f64_of_nat_def f64_round_numeral show_tenths_def
  round_half_even_numeral show_word_def show_nat.simps digit_chars

lemma bytes_formats_each_scale_passes: bytes_formats_each_scale
  by (simp add: bytes_formats_each_scale_def shown_bytes)

lemma rate_appends_per_second_passes: rate_appends_per_second
proof -
  have "\<lfloor>4097 / 2 :: rat\<rfloor> = 2048" by (rule floor_unique) simp_all
  then have "round_to_u64 2048 = 2048" by (simp add: round_to_u64_def)
  then show ?thesis by (simp add: rate_appends_per_second_def show_rate_def shown_bytes)
qed

subsection \<open>The UDP \<open>server.rs\<close> and \<open>client.rs\<close>\<close>

text \<open>
  A peer that never follows up: the handshake's reply is sent, the channel stays empty until the
  timeout, and \<open>run_session\<close> ends without serving a link.
\<close>

definition empty_server_config :: config where
  "empty_server_config =
     \<lparr>cfg_role = Server, private_key_path = [], peer_public_key = None, cfg_peers = [], listen_control = None,
      listen_data = None, listen_udp = None, server_control_addr = None, server_data_addr = None,
      server_udp_addr = None, cfg_links = []\<rparr>"

definition empty_client_config :: config where
  "empty_client_config = empty_server_config\<lparr>cfg_role := Client\<rparr>"

definition silent_peer :: "'hs udp_env \<Rightarrow> bool" where
  "silent_peer env \<longleftrightarrow> first_packet env = Elapsed"

definition session_with_no_stream_hello_is_abandoned_not_left_hanging ::
  "(string \<Rightarrow> string + stream_hello) \<Rightarrow> 'hs \<Rightarrow> 'hs udp_env \<Rightarrow> bool" where
  "session_with_no_stream_hello_is_abandoned_not_left_hanging hello_reader state env \<longleftrightarrow>
     (case run_session hello_reader empty_server_config (SocketV4 127 0 0 1 1)
             \<lparr>rp_name = ''test-peer'', rp_public_key = [], rp_links = {}\<rparr> state env of
        Abandoned line \<Rightarrow> True | _ \<Rightarrow> False)"

definition try_send_on_a_full_channel_fails_immediately_instead_of_blocking :: bool where
  "try_send_on_a_full_channel_fails_immediately_instead_of_blocking \<longleftrightarrow>
     (let (first, ch) = try_send [1 :: u8] (channel 1); (result, ch) = try_send [2] ch
      in first = Sent \<and> result \<noteq> Sent \<and> fst (recv_chan ch) = Some [1])"

text \<open>\<open>run\<close> of both roles: still running after any events, with no listener started.\<close>

definition run_never_returns_when_no_link_uses_udp ::
  "'hs snow \<Rightarrow> bytes \<Rightarrow> (string \<Rightarrow> io_error option) \<Rightarrow> (io_error + recv_event) list \<Rightarrow> bool" where
  "run_never_returns_when_no_link_uses_udp sn key bind_error rs \<longleftrightarrow>
     (case run_udp_server sn \<lparr>uctx_config = empty_server_config, uctx_private_key = key, uctx_peers = []\<rparr>
             bind_error rs of
        Running s \<Rightarrow> True | Returned e \<Rightarrow> False)"

lemma session_with_no_stream_hello_is_abandoned_not_left_hanging_passes:
  assumes "silent_peer env"
  shows "session_with_no_stream_hello_is_abandoned_not_left_hanging hello_reader state env"
  using assms
  by (simp add: session_with_no_stream_hello_is_abandoned_not_left_hanging_def silent_peer_def run_session_def
      split: option.split)

lemma try_send_on_a_full_channel_fails_immediately_instead_of_blocking_passes:
  try_send_on_a_full_channel_fails_immediately_instead_of_blocking
  by (simp add: try_send_on_a_full_channel_fails_immediately_instead_of_blocking_def try_send_def channel_def)

lemma run_never_returns_when_no_link_uses_udp_passes:
  "run_never_returns_when_no_link_uses_udp sn key bind_error rs"
  by (simp add: run_never_returns_when_no_link_uses_udp_def run_udp_server_def empty_server_config_def)

end
