(* ===== verification/Metrics_Tests.thy ===== *)
theory Metrics_Tests
  imports Cli Firewall Metrics
begin

section \<open>The unit tests of the exporter\<close>

text \<open>
  The modules \<open>tests\<close> of the exporter's \<open>http.rs\<close>, \<open>render.rs\<close> and \<open>main.rs\<close>, run on the model as in
  \<open>Config_Tests\<close>.
\<close>

subsection \<open>\<open>http.rs\<close>\<close>

definition parses_a_real_get_request_line :: bool where
  "parses_a_real_get_request_line \<longleftrightarrow> parse_request_path ''GET /metrics HTTP/1.1'' = Some ''/metrics''"

definition rejects_non_get_methods :: bool where
  "rejects_non_get_methods \<longleftrightarrow> parse_request_path ''POST /metrics HTTP/1.1'' = None"

definition rejects_a_malformed_or_empty_line :: bool where
  "rejects_a_malformed_or_empty_line \<longleftrightarrow>
     parse_request_path [] = None \<and> parse_request_path ''garbage'' = None"

text \<open>\<open>str::ends_with\<close>.\<close>

definition ends_with :: "string \<Rightarrow> string \<Rightarrow> bool" where
  "ends_with p s \<longleftrightarrow> starts_with (rev p) (rev s)"

definition response_has_a_correct_content_length :: bool where
  "response_has_a_correct_content_length \<longleftrightarrow>
     (let response = http_response 200 ''OK'' ''text/plain'' ''hello''
      in contains ''Content-Length: 5'' response \<and> ends_with ''hello'' response)"

lemma parses_a_real_get_request_line_passes: parses_a_real_get_request_line
  by code_simp

lemma rejects_non_get_methods_passes: rejects_non_get_methods
  by code_simp

lemma rejects_a_malformed_or_empty_line_passes: rejects_a_malformed_or_empty_line
  by code_simp

lemma response_has_a_correct_content_length_passes: response_has_a_correct_content_length
  by code_simp

subsection \<open>\<open>render.rs\<close>\<close>

text \<open>A text without a line feed is in a text of lines exactly if it is in one of them.\<close>

lemma starts_with_line:
  assumes "line_feed \<notin> set p"
  shows "starts_with p (l @ line_feed # s) \<longleftrightarrow> starts_with p l"
proof (cases "length p \<le> length l")
  case True
  then show ?thesis by (simp add: starts_with_def)
next
  case False
  then have "line_feed \<in> set (take (length p) (l @ line_feed # s))" by (simp add: take_Cons')
  then have "take (length p) (l @ line_feed # s) \<noteq> p" using assms by metis
  moreover have "length (take (length p) l) \<noteq> length p" using False by simp
  then have "take (length p) l \<noteq> p" by metis
  ultimately show ?thesis by (simp add: starts_with_def)
qed

lemma contains_line:
  assumes "line_feed \<notin> set p" and "p \<noteq> []"
  shows "contains p (l @ line_feed # s) \<longleftrightarrow> contains p l \<or> contains p s"
proof (induction l)
  case Nil
  have "\<not> starts_with p (line_feed # s)"
    using starts_with_line [OF assms(1), of "[]" s] assms(2) by (simp add: starts_with_def)
  then show ?case using assms(2) by simp
next
  case (Cons c l)
  then show ?case using starts_with_line [OF assms(1), of "c # l" s] by simp
qed

lemma contains_lines:
  assumes "line_feed \<notin> set p" and "p \<noteq> []"
  shows "contains p (concat (map (\<lambda>l. l @ [line_feed]) ls)) \<longleftrightarrow> list_ex (contains p) ls"
  by (induction ls) (use assms contains_line [OF assms] in simp_all)

text \<open>\<open>str::lines\<close>.\<close>

function str_lines :: "string \<Rightarrow> string list" where
  "str_lines s =
     (if s = [] then []
      else let l = takeWhile (\<lambda>c. c \<noteq> line_feed) s
        in (if length l < length s \<and> l \<noteq> [] \<and> last l = CHR 0x0D then butlast l else l) #
           str_lines (drop (Suc (length l)) s))"
  by pat_completeness auto
termination
  by (relation "measure length") auto

declare str_lines.simps [simp del]

definition one_line :: "string \<Rightarrow> bool" where
  "one_line l \<longleftrightarrow> list_all (\<lambda>c. c \<noteq> line_feed \<and> c \<noteq> CHR 0x0D) l"

lemma str_lines_concat:
  "list_all one_line ls \<Longrightarrow> str_lines (concat (map (\<lambda>l. l @ [line_feed]) ls)) = ls"
proof (induction ls)
  case Nil
  show ?case by (simp add: str_lines.simps)
next
  case (Cons l ls)
  let ?rest = "concat (map (\<lambda>l. l @ [line_feed]) ls)"
  have l: "\<forall>c \<in> set l. c \<noteq> line_feed \<and> c \<noteq> CHR 0x0D" using Cons.prems by (simp add: one_line_def list_all_iff)
  then have "takeWhile (\<lambda>c. c \<noteq> line_feed) (l @ line_feed # ?rest) = l" by (simp add: takeWhile_append)
  moreover have "l \<noteq> [] \<Longrightarrow> last l \<noteq> CHR 0x0D" using l by simp
  ultimately have "str_lines (l @ line_feed # ?rest) = l # str_lines ?rest"
    by (subst str_lines.simps) (auto simp: Let_def)
  then show ?case using Cons by simp
qed

definition sample_snapshot :: status_snapshot where
  "sample_snapshot =
     \<lparr>snap_role = ''server'', uptime_secs = 12345, snap_connected = True,
      connected_since_secs_ago = Some 42, snap_peer_addr = Some ''1.2.3.4:5'', snap_peer_name = Some ''laptop'',
      snap_links = [\<lparr>snap_id = ''db'', snap_mode = ''forward'', snap_active = 1, snap_total = 57,
        snap_forward = 123456, snap_back = 654321\<rparr>]\<rparr>"

definition unreachable_daemon_reports_only_up_zero :: bool where
  "unreachable_daemon_reports_only_up_zero \<longleftrightarrow>
     (let text_of = render None
      in contains ''ghostport_up 0'' text_of \<and> \<not> contains ''ghostport_uptime_seconds'' text_of \<and>
         \<not> contains ''ghostport_link_'' text_of)"

definition reachable_daemon_reports_up_one_and_real_fields :: bool where
  "reachable_daemon_reports_up_one_and_real_fields \<longleftrightarrow>
     (let text_of = render (Some sample_snapshot);
          labels = ''{link_id='' @ quoted ''db'' @ '',mode='' @ quoted ''forward'' @ ''} ''
      in list_all (\<lambda>t. contains t text_of)
          [''ghostport_up 1'', ''ghostport_uptime_seconds 12345'', ''ghostport_control_connected 1'',
           ''ghostport_control_connected_seconds 42'',
           ''ghostport_link_active_streams'' @ labels @ ''1'',
           ''ghostport_link_streams_total'' @ labels @ ''57'',
           ''ghostport_link_bytes_forward_total'' @ labels @ ''123456'',
           ''ghostport_link_bytes_back_total'' @ labels @ ''654321''])"

definition disconnected_control_omits_connected_since :: bool where
  "disconnected_control_omits_connected_since \<longleftrightarrow>
     (let text_of = render (Some (sample_snapshot\<lparr>snap_connected := False, connected_since_secs_ago := None\<rparr>))
      in contains ''ghostport_control_connected 0'' text_of \<and>
         \<not> contains ''ghostport_control_connected_seconds'' text_of)"

definition zero_links_omits_link_metrics_entirely :: bool where
  "zero_links_omits_link_metrics_entirely \<longleftrightarrow>
     \<not> contains ''ghostport_link_'' (render (Some (sample_snapshot\<lparr>snap_links := []\<rparr>)))"

text \<open>The body of the test's loop.\<close>

definition help_matched :: "string \<Rightarrow> string \<Rightarrow> bool" where
  "help_matched text_of line \<longleftrightarrow> (starts_with ''# HELP '' line \<longrightarrow>
     (case split_whitespace (drop 7 line) of [] \<Rightarrow> False
      | name # _ \<Rightarrow> contains (''# TYPE '' @ name @ '' '') text_of))"

definition every_help_line_has_a_matching_type_line :: bool where
  "every_help_line_has_a_matching_type_line \<longleftrightarrow>
     (let text_of = render (Some sample_snapshot)
      in list_all (help_matched text_of) (str_lines text_of))"

lemma contains_render:
  "line_feed \<notin> set p \<Longrightarrow> p \<noteq> [] \<Longrightarrow> contains p (render snap) \<longleftrightarrow> list_ex (contains p) (render_lines snap)"
  unfolding render_def by (rule contains_lines)

lemma contains_self: "contains p p"
  by (cases p) (simp_all add: starts_with_def)

lemma contains_rendered:
  "line_feed \<notin> set p \<Longrightarrow> p \<noteq> [] \<Longrightarrow> p \<in> set (render_lines snap) \<Longrightarrow> contains p (render snap)"
  using contains_self by (auto simp: contains_render list_ex_iff)

lemma digits_of_sample:
  "show_word (12345 :: u64) = ''12345''" "show_word (42 :: u64) = ''42''" "show_word (57 :: u64) = ''57''"
  "show_word (1 :: u64) = ''1''" "show_word (123456 :: u64) = ''123456''" "show_word (654321 :: u64) = ''654321''"
  by (simp_all add: show_word_def show_nat.simps digit_chars)

lemmas rendered =
  sample_snapshot_def render_defs link_sample_def show_bool_def digits_of_sample quoted_def

lemma unreachable_daemon_reports_only_up_zero_passes: unreachable_daemon_reports_only_up_zero
  by (simp add: unreachable_daemon_reports_only_up_zero_def contains_render line_feed_def rendered starts_with_def)

lemma reachable_daemon_reports_up_one_and_real_fields_passes: reachable_daemon_reports_up_one_and_real_fields
  unfolding reachable_daemon_reports_up_one_and_real_fields_def Let_def list.pred_inject
  by (intro conjI contains_rendered TrueI) (simp_all add: rendered line_feed_def)

lemma disconnected_control_omits_connected_since_passes: disconnected_control_omits_connected_since
  by (simp add: disconnected_control_omits_connected_since_def contains_render line_feed_def rendered
      starts_with_def)

lemma zero_links_omits_link_metrics_entirely_passes: zero_links_omits_link_metrics_entirely
  by (simp add: zero_links_omits_link_metrics_entirely_def contains_render line_feed_def rendered
      starts_with_def)

definition word_char :: "char \<Rightarrow> bool" where
  "word_char c \<longleftrightarrow> 33 \<le> byte c \<and> byte c < 128"

lemma ws_head_space: "ws_head (CHR '' '' # s) = 1"
  by (cases "CHR '' '' # s" rule: ws_head.cases) (auto simp: ws1_def byte_def)

lemma ws_head_word: "word_char c \<Longrightarrow> ws_head (c # s) = 0"
  by (cases "c # s" rule: ws_head.cases) (auto simp: word_char_def ws1_def ws2_def ws3_def)

lemma split_ws_word:
  "list_all word_char name \<Longrightarrow> cur @ name \<noteq> [] \<Longrightarrow>
     split_ws cur (name @ '' '' @ s) = (cur @ name) # split_ws [] s"
proof (induction name arbitrary: cur)
  case Nil
  then show ?case by (subst split_ws.simps) (simp add: ws_head_space)
next
  case (Cons c name)
  then show ?case by (subst split_ws.simps) (simp add: ws_head_word)
qed

lemma contains_prefix: "contains p (p @ s)"
  by (cases p; cases s) (simp_all add: starts_with_def)

lemma help_family:
  assumes name: "list_all word_char name" "name \<noteq> []"
    and type: "''# TYPE '' @ name @ '' '' @ kind \<in> set (render_lines snap)"
  shows "list_all (help_matched (render snap)) (family name descr kind)"
proof -
  let ?p = "''# TYPE '' @ name @ '' ''"
  have "line_feed \<notin> set name" using name(1) by (auto simp: list_all_iff word_char_def line_feed_def byte_def)
  then have "line_feed \<notin> set ?p" "?p \<noteq> []" by (simp_all add: line_feed_def)
  moreover have "?p @ kind \<in> set (render_lines snap)" using type by simp
  then have "list_ex (contains ?p) (render_lines snap)"
    unfolding list_ex_iff using contains_prefix by (rule bexI [rotated])
  ultimately have "contains ?p (render snap)" by (rule contains_render [THEN iffD2])
  moreover have "split_whitespace (name @ '' '' @ descr) = name # split_ws [] descr"
    using split_ws_word [OF name(1), of "[]" descr] name(2) by (simp add: split_whitespace_def)
  ultimately show ?thesis by (simp add: family_def help_matched_def starts_with_def)
qed

lemma sample_matched: "s = ''ghostport'' @ t \<Longrightarrow> help_matched text_of s"
  by (simp add: help_matched_def starts_with_def)

lemma every_help_line_has_a_matching_type_line_passes: every_help_line_has_a_matching_type_line
proof -
  let ?snap = "Some sample_snapshot"
  have "list_all one_line (render_lines ?snap)" by (simp add: rendered one_line_def line_feed_def)
  then have lines: "str_lines (render ?snap) = render_lines ?snap" by (simp only: render_def str_lines_concat)
  define r where "r = render ?snap"
  have families: "list_all (help_matched r) (family name descr kind)"
    if "list_all word_char name" "name \<noteq> []" "''# TYPE '' @ name @ '' '' @ kind \<in> set (render_lines ?snap)"
    for name descr kind
    unfolding r_def by (rule help_family [OF that])
  have "list_all (help_matched r) (render_lines ?snap)"
    by (simp only: render_lines_def render_status_def render_links_def link_family_def list_all_append
      sample_snapshot_def status_snapshot.simps option.case list.map list.pred_inject if_False list.distinct simp_thms)
      (intro conjI families sample_matched TrueI, simp_all add: word_char_def byte_def rendered)
  then show ?thesis by (simp only: every_help_line_has_a_matching_type_line_def Let_def lines r_def)
qed

subsection \<open>\<open>main.rs\<close>\<close>

text \<open>
  A daemon with an empty server configuration answers the exporter's query, or nothing listens on
  the socket; the body is what the exporter writes to \<open>GET /metrics\<close>. In the test an absent socket
  refuses the connection at once, so the query ends in time.
\<close>

definition live_config :: "string \<Rightarrow> string \<Rightarrow> config" where
  "live_config control_port data_port =
     \<lparr>cfg_role = Server, private_key_path = [], peer_public_key = None, cfg_peers = [],
      listen_control = Some (''127.0.0.1:'' @ control_port), listen_data = Some (''127.0.0.1:'' @ data_port),
      listen_udp = None, server_control_addr = None, server_data_addr = None, server_udp_addr = None,
      cfg_links = []\<rparr>"

definition http_get :: "string \<Rightarrow> (string + status_snapshot) \<Rightarrow> string" where
  "http_get path q =
     (case handle_http True [Inr (''GET '' @ path @ '' HTTP/1.1'' @ crlf @ ''Host: x'' @ crlf @ crlf)] (In_Time q) of
        None \<Rightarrow> [] | Some body \<Rightarrow> body)"

definition metrics_endpoint_reports_real_values_from_a_real_running_daemon ::
  "(status_snapshot \<Rightarrow> string + string) \<Rightarrow> (string \<Rightarrow> string + status_snapshot) \<Rightarrow> u64 \<Rightarrow> u64 \<Rightarrow> string \<Rightarrow>
     string \<Rightarrow> string \<Rightarrow> bool" where
  "metrics_endpoint_reports_real_values_from_a_real_running_daemon to_json from_json t0 t1 socket control_port data_port \<longleftrightarrow>
     (let cfg = live_config control_port data_port
      in case respond to_json (snapshot t1 cfg (new_state t0 cfg)) of Inl e \<Rightarrow> False
         | Inr bs \<Rightarrow>
            (let body = http_get ''/metrics'' (query_status from_json socket (Inr (Inr bs)))
             in list_all (\<lambda>t. contains t body)
                  [''ghostport_up 1'', ''HTTP/1.1 200 OK'', ''ghostport_uptime_seconds'',
                   ''ghostport_control_connected 0'']))"

definition metrics_endpoint_reports_down_promptly_when_daemon_is_unreachable ::
  "(string \<Rightarrow> string + status_snapshot) \<Rightarrow> string \<Rightarrow> string \<Rightarrow> bool" where
  "metrics_endpoint_reports_down_promptly_when_daemon_is_unreachable from_json socket e \<longleftrightarrow>
     contains ''ghostport_up 0'' (http_get ''/metrics'' (query_status from_json socket (Inl e)))"

lemma contains_append: "contains p s \<Longrightarrow> contains p (t @ s)"
  by (induction t) auto

lemma contains_mono: "contains p s \<Longrightarrow> contains p (s @ t)"
proof (induction s)
  case Nil
  then show ?case using contains_prefix [of "[]" t] by simp
next
  case (Cons c s)
  then show ?case
  proof (cases "starts_with p (c # s)")
    case True
    then obtain r where "c # s = p @ r" unfolding starts_with_def by (metis append_take_drop_id)
    then have "(c # s) @ t = p @ (r @ t)" by simp
    then show ?thesis using contains_prefix by metis
  qed simp
qed

lemma read_metrics_request:
  "read_request_line [] [Inr (''GET /metrics HTTP/1.1'' @ crlf @ ''Host: x'' @ crlf @ crlf)] =
     Some (Inr ''GET /metrics HTTP/1.1'')"
  by code_simp

lemma http_get_metrics:
  "http_get ''/metrics'' q =
     ''HTTP/1.1 200 OK'' @ crlf @ ''Content-Type: text/plain; version=0.0.4'' @ crlf @ ''Content-Length: '' @
     show_nat (length (render (query_snapshot (In_Time q)))) @ crlf @ ''Connection: close'' @ crlf @ crlf @
     render (query_snapshot (In_Time q))"
proof -
  have "parse_request_path ''GET /metrics HTTP/1.1'' = Some ''/metrics''" by code_simp
  moreover have "show_word (200 :: u16) = ''200''" by (simp add: show_word_def show_nat.simps digit_chars)
  ultimately show ?thesis
    using read_metrics_request by (simp add: http_get_def handle_http_def http_response_def)
qed

lemma metrics_endpoint_reports_real_values_from_a_real_running_daemon_passes:
  assumes "\<And>snap. \<exists>bs. to_json snap = Inr bs \<and> from_json bs = Inr snap"
  shows "metrics_endpoint_reports_real_values_from_a_real_running_daemon to_json from_json t0 t1 socket control_port data_port"
proof -
  let ?cfg = "live_config control_port data_port"
  let ?snap = "snapshot t1 ?cfg (new_state t0 ?cfg)"
  obtain bs where bs: "to_json ?snap = Inr bs" "from_json bs = Inr ?snap" using assms by blast
  have down: "snap_connected ?snap = False" by (simp add: snapshot_def new_state_def)
  have body: "contains p (http_get ''/metrics'' (query_status from_json socket (Inr (Inr bs))))"
    if "contains p (render (Some ?snap))" for p
    using that bs(2) contains_append
    by (simp only: http_get_metrics query_status_def query_snapshot_def sum.case timed.case)
  have "contains ''ghostport_up 1'' (render (Some ?snap))"
    by (rule contains_rendered) (simp_all add: line_feed_def render_lines_def show_bool_def)
  moreover have "contains ''ghostport_uptime_seconds'' (render (Some ?snap))"
    by (simp add: contains_render line_feed_def render_lines_def render_status_def family_def starts_with_def)
  moreover have "contains ''ghostport_control_connected 0'' (render (Some ?snap))"
    by (rule contains_rendered) (simp_all add: line_feed_def render_lines_def render_status_def show_bool_def down)
  ultimately show ?thesis
    using bs body contains_prefix [of "''HTTP/1.1 200 OK''"]
    by (simp add: metrics_endpoint_reports_real_values_from_a_real_running_daemon_def respond_def Let_def)
      (simp add: http_get_metrics)
qed

lemma metrics_endpoint_reports_down_promptly_when_daemon_is_unreachable_passes:
  "metrics_endpoint_reports_down_promptly_when_daemon_is_unreachable from_json socket e"
proof -
  have "contains ''ghostport_up 0'' (render None)"
    by (rule contains_rendered) (simp_all add: line_feed_def render_lines_def show_bool_def)
  then show ?thesis
    unfolding metrics_endpoint_reports_down_promptly_when_daemon_is_unreachable_def http_get_metrics
    using contains_append by (simp only: query_status_def query_snapshot_def sum.case timed.case)
qed

end
