(* ===== verification/Config_Tests.thy ===== *)
theory Config_Tests
  imports Firewall
begin

section \<open>The unit tests of \<open>config.rs\<close>\<close>

text \<open>
  The module \<open>tests\<close> of \<open>config.rs\<close>, run on the model: a test function is a predicate on what the
  test takes from other crates (a base64 engine and the two keys that \<open>keys::generate\<close> returns), and
  passes for every engine that is lawful and any two distinct keys.
\<close>

subsection \<open>Fixtures\<close>

record fixture =
  fx_enc :: b64_encoder
  fx_dec :: b64_decoder
  fx_own :: bytes \<comment> \<open>the key \<open>base_server\<close> or \<open>base_client\<close> generates\<close>
  fx_other :: bytes \<comment> \<open>the key the test itself generates\<close>

definition own_key :: "fixture \<Rightarrow> string" where
  "own_key fx = encode_public_key (fx_enc fx) (fx_own fx)"

definition other_key :: "fixture \<Rightarrow> string" where
  "other_key fx = encode_public_key (fx_enc fx) (fx_other fx)"

definition base_server :: "fixture \<Rightarrow> config" where
  "base_server fx =
     \<lparr>cfg_role = Server, private_key_path = ''/tmp/server.key'', peer_public_key = None,
      cfg_peers = [\<lparr>peer_name = ''client'', peer_key = own_key fx, peer_links = []\<rparr>],
      listen_control = Some ''0.0.0.0:9000'', listen_data = Some ''0.0.0.0:9001'', listen_udp = None,
      server_control_addr = None, server_data_addr = None, server_udp_addr = None, cfg_links = []\<rparr>"

definition base_client :: "fixture \<Rightarrow> config" where
  "base_client fx =
     \<lparr>cfg_role = Client, private_key_path = ''/tmp/client.key'', peer_public_key = Some (own_key fx),
      cfg_peers = [], listen_control = None, listen_data = None, listen_udp = None,
      server_control_addr = Some ''example.com:9000'', server_data_addr = Some ''example.com:9001'',
      server_udp_addr = None, cfg_links = []\<rparr>"

definition push_link :: "link_config \<Rightarrow> config \<Rightarrow> config" where
  "push_link l cfg = cfg\<lparr>cfg_links := cfg_links cfg @ [l]\<rparr>"

definition push_peer :: "peer_config \<Rightarrow> config \<Rightarrow> config" where
  "push_peer p cfg = cfg\<lparr>cfg_peers := cfg_peers cfg @ [p]\<rparr>"

text \<open>A change of \<open>cfg.peers[0]\<close>.\<close>

definition set_peer :: "(peer_config \<Rightarrow> peer_config) \<Rightarrow> config \<Rightarrow> config" where
  "set_peer f cfg = cfg\<lparr>cfg_peers := (cfg_peers cfg)[0 := f (cfg_peers cfg ! 0)]\<rparr>"

text \<open>For each group of texts, some error of \<open>validate\<close> contains all of them.\<close>

definition complains :: "fixture \<Rightarrow> config \<Rightarrow> string list list \<Rightarrow> bool" where
  "complains fx cfg groups \<longleftrightarrow>
     list_all (\<lambda>texts. list_ex (\<lambda>e. list_all (\<lambda>t. contains t e) texts) (validate (fx_dec fx) cfg)) groups"

definition good_fixture :: "fixture \<Rightarrow> bool" where
  "good_fixture fx \<longleftrightarrow> b64_lawful (fx_enc fx) (fx_dec fx) \<and> length (fx_own fx) = 32 \<and> length (fx_other fx) = 32 \<and>
     fx_own fx \<noteq> fx_other fx \<and> isl (fx_dec fx ''not-base64!!'')"

lemma good_keys [simp]:
  assumes "good_fixture fx"
  shows "decode_public_key (fx_dec fx) (own_key fx) = Inr (fx_own fx)"
    and "decode_public_key (fx_dec fx) (other_key fx) = Inr (fx_other fx)"
  using assms decode_encode by (simp_all add: good_fixture_def own_key_def other_key_def)

lemma test_addrs [simp]:
  "parse_socket_addr ''127.0.0.1:5432'' = Some (SocketV4 127 0 0 1 5432)"
  "parse_socket_addr ''0.0.0.0:5432'' = Some (SocketV4 0 0 0 0 5432)"
  "parse_socket_addr ''0.0.0.0:8080'' = Some (SocketV4 0 0 0 0 8080)"
  "parse_socket_addr ''127.0.0.1:3000'' = Some (SocketV4 127 0 0 1 3000)"
  "parse_socket_addr ''127.0.0.1:1'' = Some (SocketV4 127 0 0 1 1)"
  "parse_socket_addr ''127.0.0.1:2'' = Some (SocketV4 127 0 0 1 2)"
  "parse_socket_addr ''0.0.0.0:5300'' = Some (SocketV4 0 0 0 0 5300)"
  "parse_socket_addr ''127.0.0.1:5300'' = Some (SocketV4 127 0 0 1 5300)"
  "parse_socket_addr ''127.0.0.1:53'' = Some (SocketV4 127 0 0 1 53)"
  using parse_show_socket_v4 [of 127 0 0 1 5432] parse_show_socket_v4 [of 0 0 0 0 5432]
    parse_show_socket_v4 [of 0 0 0 0 8080] parse_show_socket_v4 [of 127 0 0 1 3000]
    parse_show_socket_v4 [of 127 0 0 1 1] parse_show_socket_v4 [of 127 0 0 1 2]
    parse_show_socket_v4 [of 0 0 0 0 5300] parse_show_socket_v4 [of 127 0 0 1 5300]
    parse_show_socket_v4 [of 127 0 0 1 53]
  by (simp_all add: show_v4_def show_word_def show_nat.simps digit_chars)

lemma no_addr [simp]: "parse_socket_addr ''not-an-address'' = None"
  by code_simp

lemma bad_key [simp]:
  assumes "good_fixture fx"
  shows "decode_public_key (fx_dec fx) ''not-base64!!'' =
    Inl (''invalid base64 key: '' @ projl (fx_dec fx ''not-base64!!''))"
proof -
  have "trim ''not-base64!!'' = ''not-base64!!''" by code_simp
  then show ?thesis using assms by (auto simp: good_fixture_def decode_public_key_def isl_def)
qed

lemmas fixture_defs = base_server_def base_client_def push_link_def push_peer_def set_peer_def

lemmas valid_defs = valid_config_def valid_role_def valid_peers_def decoded_keys_def valid_udp_def
  valid_link_def valid_addr_def link_needs_listen_def

lemmas validate_defs = validate_def validate_role_def validate_peers_def validate_udp_def validate_link_def
  require_defs reverse_udp_error_def link_needs_listen_def quoted_def starts_with_def Let_def

subsection \<open>The tests\<close>


definition minimal_valid_server_and_client_configs_pass :: "fixture \<Rightarrow> bool" where
  "minimal_valid_server_and_client_configs_pass fx \<longleftrightarrow>
     validate (fx_dec fx)
      (base_server fx) = [] \<and>
     validate (fx_dec fx)
      (base_client fx) = []"

lemma minimal_valid_server_and_client_configs_pass_passes:
  assumes "good_fixture fx"
  shows "minimal_valid_server_and_client_configs_pass fx"
  using assms by (simp add: minimal_valid_server_and_client_configs_pass_def validate_Nil_iff valid_defs fixture_defs)

definition server_missing_listen_fields_is_rejected :: "fixture \<Rightarrow> bool" where
  "server_missing_listen_fields_is_rejected fx \<longleftrightarrow>
     complains fx ((base_server fx)\<lparr>listen_data := None\<rparr>)
      [[''listen_data'']]"

lemma server_missing_listen_fields_is_rejected_passes:
  assumes "good_fixture fx"
  shows "server_missing_listen_fields_is_rejected fx"
  using assms by (simp add: server_missing_listen_fields_is_rejected_def complains_def validate_defs fixture_defs)

definition client_with_server_only_fields_is_rejected :: "fixture \<Rightarrow> bool" where
  "client_with_server_only_fields_is_rejected fx \<longleftrightarrow>
     complains fx ((base_client fx)\<lparr>listen_control := Some ''0.0.0.0:9000''\<rparr>)
      [[''listen_control'']]"

lemma client_with_server_only_fields_is_rejected_passes:
  assumes "good_fixture fx"
  shows "client_with_server_only_fields_is_rejected fx"
  using assms by (simp add: client_with_server_only_fields_is_rejected_def complains_def validate_defs fixture_defs)

definition invalid_client_peer_public_key_is_rejected :: "fixture \<Rightarrow> bool" where
  "invalid_client_peer_public_key_is_rejected fx \<longleftrightarrow>
     complains fx ((base_client fx)\<lparr>peer_public_key := Some ''not-base64!!''\<rparr>)
      [[''peer_public_key'']]"

lemma invalid_client_peer_public_key_is_rejected_passes:
  assumes "good_fixture fx"
  shows "invalid_client_peer_public_key_is_rejected fx"
  using assms by (simp add: invalid_client_peer_public_key_is_rejected_def complains_def validate_defs fixture_defs)

definition client_missing_peer_public_key_is_rejected :: "fixture \<Rightarrow> bool" where
  "client_missing_peer_public_key_is_rejected fx \<longleftrightarrow>
     complains fx ((base_client fx)\<lparr>peer_public_key := None\<rparr>)
      [[''peer_public_key'']]"

lemma client_missing_peer_public_key_is_rejected_passes:
  assumes "good_fixture fx"
  shows "client_missing_peer_public_key_is_rejected fx"
  using assms by (simp add: client_missing_peer_public_key_is_rejected_def complains_def validate_defs fixture_defs)

definition server_with_peer_public_key_set_is_rejected :: "fixture \<Rightarrow> bool" where
  "server_with_peer_public_key_set_is_rejected fx \<longleftrightarrow>
     complains fx ((base_server fx)\<lparr>peer_public_key := Some (other_key fx)\<rparr>)
      [[''peer_public_key'', ''must not be set'']]"

lemma server_with_peer_public_key_set_is_rejected_passes:
  assumes "good_fixture fx"
  shows "server_with_peer_public_key_set_is_rejected fx"
  using assms by (simp add: server_with_peer_public_key_set_is_rejected_def complains_def validate_defs fixture_defs)

definition client_with_peers_set_is_rejected :: "fixture \<Rightarrow> bool" where
  "client_with_peers_set_is_rejected fx \<longleftrightarrow>
     complains fx ((base_client fx)\<lparr>cfg_peers := [\<lparr>peer_name = ''x'', peer_key = other_key fx, peer_links = []\<rparr>]\<rparr>)
      [[''`peers`'', ''must not be set'']]"

lemma client_with_peers_set_is_rejected_passes:
  assumes "good_fixture fx"
  shows "client_with_peers_set_is_rejected fx"
  using assms by (simp add: client_with_peers_set_is_rejected_def complains_def validate_defs fixture_defs)

definition server_with_no_peers_is_rejected :: "fixture \<Rightarrow> bool" where
  "server_with_no_peers_is_rejected fx \<longleftrightarrow>
     complains fx ((base_server fx)\<lparr>cfg_peers := []\<rparr>)
      [[''`peers`'', ''at least one'']]"

lemma server_with_no_peers_is_rejected_passes:
  assumes "good_fixture fx"
  shows "server_with_no_peers_is_rejected fx"
  using assms by (simp add: server_with_no_peers_is_rejected_def complains_def validate_defs fixture_defs)

definition peer_with_invalid_public_key_is_rejected :: "fixture \<Rightarrow> bool" where
  "peer_with_invalid_public_key_is_rejected fx \<longleftrightarrow>
     complains fx (set_peer (\<lambda>p. p\<lparr>peer_key := ''not-base64!!''\<rparr>) (base_server fx))
      [[''public_key'']]"

lemma peer_with_invalid_public_key_is_rejected_passes:
  assumes "good_fixture fx"
  shows "peer_with_invalid_public_key_is_rejected fx"
  using assms by (simp add: peer_with_invalid_public_key_is_rejected_def complains_def validate_defs fixture_defs)

definition peer_link_id_not_defined_in_links_is_rejected :: "fixture \<Rightarrow> bool" where
  "peer_link_id_not_defined_in_links_is_rejected fx \<longleftrightarrow>
     complains fx (set_peer (\<lambda>p. p\<lparr>peer_links := peer_links p @ [''nonexistent'']\<rparr>) (base_server fx))
      [[''nonexistent'', ''is not defined'']]"

lemma peer_link_id_not_defined_in_links_is_rejected_passes:
  assumes "good_fixture fx"
  shows "peer_link_id_not_defined_in_links_is_rejected fx"
  using assms by (simp add: peer_link_id_not_defined_in_links_is_rejected_def complains_def validate_defs fixture_defs)

definition peer_link_id_that_exists_is_accepted :: "fixture \<Rightarrow> bool" where
  "peer_link_id_that_exists_is_accepted fx \<longleftrightarrow>
     validate (fx_dec fx)
      (set_peer (\<lambda>p. p\<lparr>peer_links := peer_links p @ [''db'']\<rparr>)
      (push_link \<lparr>link_id = ''db'', link_mode = Forward, link_transport = Tcp, link_listen = None, link_target = Some ''127.0.0.1:5432''\<rparr>
       (base_server fx))) = []"

lemma peer_link_id_that_exists_is_accepted_passes:
  assumes "good_fixture fx"
  shows "peer_link_id_that_exists_is_accepted fx"
  using assms by (simp add: peer_link_id_that_exists_is_accepted_def validate_Nil_iff valid_defs fixture_defs)

definition duplicate_peer_public_keys_are_rejected :: "fixture \<Rightarrow> bool" where
  "duplicate_peer_public_keys_are_rejected fx \<longleftrightarrow>
     complains fx (push_peer \<lparr>peer_name = ''second'', peer_key = own_key fx, peer_links = []\<rparr> (base_server fx))
      [[''already used by another peer'']]"

lemma duplicate_peer_public_keys_are_rejected_passes:
  assumes "good_fixture fx"
  shows "duplicate_peer_public_keys_are_rejected fx"
  using assms by (simp add: duplicate_peer_public_keys_are_rejected_def complains_def validate_defs fixture_defs)

definition duplicate_peer_names_are_rejected :: "fixture \<Rightarrow> bool" where
  "duplicate_peer_names_are_rejected fx \<longleftrightarrow>
     complains fx (push_peer \<lparr>peer_name = ''client'', peer_key = other_key fx, peer_links = []\<rparr> (base_server fx))
      [[''duplicate name'']]"

lemma duplicate_peer_names_are_rejected_passes:
  assumes "good_fixture fx"
  shows "duplicate_peer_names_are_rejected fx"
  using assms by (simp add: duplicate_peer_names_are_rejected_def complains_def validate_defs fixture_defs)

definition forward_link_on_client_needs_listen_not_target :: "fixture \<Rightarrow> bool" where
  "forward_link_on_client_needs_listen_not_target fx \<longleftrightarrow>
     complains fx (push_link \<lparr>link_id = ''db'', link_mode = Forward, link_transport = Tcp, link_listen = None, link_target = Some ''127.0.0.1:5432''\<rparr>
       (base_client fx))
      [[''requires `listen`''], [''must not set `target`'']]"

lemma forward_link_on_client_needs_listen_not_target_passes:
  assumes "good_fixture fx"
  shows "forward_link_on_client_needs_listen_not_target fx"
  using assms by (simp add: forward_link_on_client_needs_listen_not_target_def complains_def validate_defs fixture_defs)

definition forward_link_on_server_needs_target_not_listen :: "fixture \<Rightarrow> bool" where
  "forward_link_on_server_needs_target_not_listen fx \<longleftrightarrow>
     complains fx (push_link \<lparr>link_id = ''db'', link_mode = Forward, link_transport = Tcp, link_listen = Some ''0.0.0.0:5432'', link_target = None\<rparr>
       (base_server fx))
      [[''requires `target`''], [''must not set `listen`'']]"

lemma forward_link_on_server_needs_target_not_listen_passes:
  assumes "good_fixture fx"
  shows "forward_link_on_server_needs_target_not_listen fx"
  using assms by (simp add: forward_link_on_server_needs_target_not_listen_def complains_def validate_defs fixture_defs)

definition reverse_link_on_server_needs_listen_client_needs_target :: "fixture \<Rightarrow> bool" where
  "reverse_link_on_server_needs_listen_client_needs_target fx \<longleftrightarrow>
     validate (fx_dec fx)
      (push_link \<lparr>link_id = ''dev'', link_mode = Reverse, link_transport = Tcp, link_listen = Some ''0.0.0.0:8080'', link_target = None\<rparr>
       (base_server fx)) = [] \<and>
     validate (fx_dec fx)
      (push_link \<lparr>link_id = ''dev'', link_mode = Reverse, link_transport = Tcp, link_listen = None, link_target = Some ''127.0.0.1:3000''\<rparr>
       (base_client fx)) = []"

lemma reverse_link_on_server_needs_listen_client_needs_target_passes:
  assumes "good_fixture fx"
  shows "reverse_link_on_server_needs_listen_client_needs_target fx"
  using assms by (simp add: reverse_link_on_server_needs_listen_client_needs_target_def validate_Nil_iff valid_defs fixture_defs)

definition correctly_configured_forward_link_passes_on_both_sides :: "fixture \<Rightarrow> bool" where
  "correctly_configured_forward_link_passes_on_both_sides fx \<longleftrightarrow>
     validate (fx_dec fx)
      (push_link \<lparr>link_id = ''db'', link_mode = Forward, link_transport = Tcp, link_listen = None, link_target = Some ''127.0.0.1:5432''\<rparr>
       (base_server fx)) = [] \<and>
     validate (fx_dec fx)
      (push_link \<lparr>link_id = ''db'', link_mode = Forward, link_transport = Tcp, link_listen = Some ''127.0.0.1:5432'', link_target = None\<rparr>
       (base_client fx)) = []"

lemma correctly_configured_forward_link_passes_on_both_sides_passes:
  assumes "good_fixture fx"
  shows "correctly_configured_forward_link_passes_on_both_sides fx"
  using assms by (simp add: correctly_configured_forward_link_passes_on_both_sides_def validate_Nil_iff valid_defs fixture_defs)

definition duplicate_link_ids_are_rejected :: "fixture \<Rightarrow> bool" where
  "duplicate_link_ids_are_rejected fx \<longleftrightarrow>
     complains fx (push_link \<lparr>link_id = ''dup'', link_mode = Forward, link_transport = Tcp, link_listen = None, link_target = Some ''127.0.0.1:2''\<rparr>
       (push_link \<lparr>link_id = ''dup'', link_mode = Forward, link_transport = Tcp, link_listen = None, link_target = Some ''127.0.0.1:1''\<rparr>
       (base_server fx)))
      [[''duplicate id'']]"

lemma duplicate_link_ids_are_rejected_passes:
  assumes "good_fixture fx"
  shows "duplicate_link_ids_are_rejected fx"
  using assms by (simp add: duplicate_link_ids_are_rejected_def complains_def validate_defs fixture_defs)

definition non_socket_addr_target_is_rejected :: "fixture \<Rightarrow> bool" where
  "non_socket_addr_target_is_rejected fx \<longleftrightarrow>
     complains fx (push_link \<lparr>link_id = ''bad'', link_mode = Forward, link_transport = Tcp, link_listen = None, link_target = Some ''not-an-address''\<rparr>
       (base_server fx))
      [[''not a valid host:port'']]"

lemma non_socket_addr_target_is_rejected_passes:
  assumes "good_fixture fx"
  shows "non_socket_addr_target_is_rejected fx"
  using assms by (simp add: non_socket_addr_target_is_rejected_def complains_def validate_defs fixture_defs)

definition reverse_mode_udp_link_is_rejected :: "fixture \<Rightarrow> bool" where
  "reverse_mode_udp_link_is_rejected fx \<longleftrightarrow>
     complains fx (push_link \<lparr>link_id = ''udp-rev'', link_mode = Reverse, link_transport = Udp, link_listen = Some ''0.0.0.0:5300'', link_target = None\<rparr>
       ((base_server fx)\<lparr>listen_udp := Some ''0.0.0.0:9002''\<rparr>))
      [[''reverse-mode UDP'', ''udp-rev'']]"

lemma reverse_mode_udp_link_is_rejected_passes:
  assumes "good_fixture fx"
  shows "reverse_mode_udp_link_is_rejected fx"
  using assms by (simp add: reverse_mode_udp_link_is_rejected_def complains_def validate_defs fixture_defs)

definition forward_mode_udp_link_requires_listen_udp_on_server :: "fixture \<Rightarrow> bool" where
  "forward_mode_udp_link_requires_listen_udp_on_server fx \<longleftrightarrow>
     complains fx (push_link \<lparr>link_id = ''dns'', link_mode = Forward, link_transport = Udp, link_listen = None, link_target = Some ''127.0.0.1:53''\<rparr>
       (base_server fx))
      [[''listen_udp'']]"

lemma forward_mode_udp_link_requires_listen_udp_on_server_passes:
  assumes "good_fixture fx"
  shows "forward_mode_udp_link_requires_listen_udp_on_server fx"
  using assms by (simp add: forward_mode_udp_link_requires_listen_udp_on_server_def complains_def validate_defs fixture_defs)

definition forward_mode_udp_link_requires_server_udp_addr_on_client :: "fixture \<Rightarrow> bool" where
  "forward_mode_udp_link_requires_server_udp_addr_on_client fx \<longleftrightarrow>
     complains fx (push_link \<lparr>link_id = ''dns'', link_mode = Forward, link_transport = Udp, link_listen = Some ''127.0.0.1:5300'', link_target = None\<rparr>
       (base_client fx))
      [[''server_udp_addr'']]"

lemma forward_mode_udp_link_requires_server_udp_addr_on_client_passes:
  assumes "good_fixture fx"
  shows "forward_mode_udp_link_requires_server_udp_addr_on_client fx"
  using assms by (simp add: forward_mode_udp_link_requires_server_udp_addr_on_client_def complains_def validate_defs fixture_defs)

definition listen_udp_is_rejected_when_no_link_actually_uses_udp :: "fixture \<Rightarrow> bool" where
  "listen_udp_is_rejected_when_no_link_actually_uses_udp fx \<longleftrightarrow>
     complains fx ((base_server fx)\<lparr>listen_udp := Some ''0.0.0.0:9002''\<rparr>)
      [[''listen_udp'', ''must not be set'']]"

lemma listen_udp_is_rejected_when_no_link_actually_uses_udp_passes:
  assumes "good_fixture fx"
  shows "listen_udp_is_rejected_when_no_link_actually_uses_udp fx"
  using assms by (simp add: listen_udp_is_rejected_when_no_link_actually_uses_udp_def complains_def validate_defs fixture_defs)

definition correctly_configured_forward_udp_link_passes_on_both_sides :: "fixture \<Rightarrow> bool" where
  "correctly_configured_forward_udp_link_passes_on_both_sides fx \<longleftrightarrow>
     validate (fx_dec fx)
      (push_link \<lparr>link_id = ''dns'', link_mode = Forward, link_transport = Udp, link_listen = None, link_target = Some ''127.0.0.1:53''\<rparr>
       ((base_server fx)\<lparr>listen_udp := Some ''0.0.0.0:9002''\<rparr>)) = [] \<and>
     validate (fx_dec fx)
      (push_link \<lparr>link_id = ''dns'', link_mode = Forward, link_transport = Udp, link_listen = Some ''127.0.0.1:5300'', link_target = None\<rparr>
       ((base_client fx)\<lparr>server_udp_addr := Some ''example.com:9002''\<rparr>)) = []"

lemma correctly_configured_forward_udp_link_passes_on_both_sides_passes:
  assumes "good_fixture fx"
  shows "correctly_configured_forward_udp_link_passes_on_both_sides fx"
  using assms by (simp add: correctly_configured_forward_udp_link_passes_on_both_sides_def validate_Nil_iff valid_defs fixture_defs)

definition link_needs_listen_matches_the_role_mode_matrix :: "fixture \<Rightarrow> bool" where
  "link_needs_listen_matches_the_role_mode_matrix fx \<longleftrightarrow>
     (let client = cfg_role (base_client fx); server = cfg_role (base_server fx)
      in link_needs_listen client Forward \<and> \<not> link_needs_listen client Reverse \<and>
         \<not> link_needs_listen server Forward \<and> link_needs_listen server Reverse)"

lemma link_needs_listen_matches_the_role_mode_matrix_passes:
  "link_needs_listen_matches_the_role_mode_matrix fx"
  by (simp add: link_needs_listen_matches_the_role_mode_matrix_def link_needs_listen_def fixture_defs)

text \<open>
  The TOML writer and reader are parameters; the tests rely on a configuration surviving them, and
  \<open>load\<close> on the text being UTF-8.
\<close>

definition db_server :: "fixture \<Rightarrow> config" where
  "db_server fx = push_link
     \<lparr>link_id = ''db'', link_mode = Forward, link_transport = Tcp, link_listen = None,
      link_target = Some ''127.0.0.1:5432''\<rparr> (base_server fx)"

definition survives_toml :: "(config \<Rightarrow> string + string) \<Rightarrow> (string \<Rightarrow> string + config) \<Rightarrow> config \<Rightarrow> bool" where
  "survives_toml toml_to toml_from cfg \<longleftrightarrow>
     (case toml_to cfg of Inl e \<Rightarrow> False | Inr out \<Rightarrow> utf8 out \<and> toml_from out = Inr cfg)"

definition round_trips_through_toml ::
  "fixture \<Rightarrow> (config \<Rightarrow> string + string) \<Rightarrow> (string \<Rightarrow> string + config) \<Rightarrow> bool" where
  "round_trips_through_toml fx toml_to toml_from \<longleftrightarrow>
     (case toml_to (db_server fx) of Inl e \<Rightarrow> False
      | Inr out \<Rightarrow>
         (case toml_from out of Inl e \<Rightarrow> False
          | Inr parsed \<Rightarrow> length (cfg_links parsed) = 1 \<and> link_id (cfg_links parsed ! 0) = ''db''))"

lemma round_trips_through_toml_passes:
  "survives_toml toml_to toml_from (db_server fx) \<Longrightarrow> round_trips_through_toml fx toml_to toml_from"
  by (auto simp: survives_toml_def round_trips_through_toml_def db_server_def fixture_defs split: sum.splits)

definition save_writes_a_valid_config_and_it_reloads_identically ::
  "fixture \<Rightarrow> (config \<Rightarrow> string + string) \<Rightarrow> (string \<Rightarrow> string + config) \<Rightarrow> string \<Rightarrow> fs \<Rightarrow> bool" where
  "save_writes_a_valid_config_and_it_reloads_identically fx toml_to toml_from path s \<longleftrightarrow>
     (case save (fx_dec fx) toml_to willing (db_server fx) path s of Inl es \<Rightarrow> False
      | Inr s' \<Rightarrow>
         (case load toml_from willing path s' of Inl e \<Rightarrow> False
          | Inr reloaded \<Rightarrow> length (cfg_links reloaded) = 1 \<and> link_id (cfg_links reloaded ! 0) = ''db''))"

lemma save_writes_a_valid_config_and_it_reloads_identically_passes:
  assumes "good_fixture fx" and "survives_toml toml_to toml_from (db_server fx)"
  shows "save_writes_a_valid_config_and_it_reloads_identically fx toml_to toml_from path s"
proof -
  have "validate (fx_dec fx) (db_server fx) = []"
    using assms(1) by (simp add: db_server_def validate_Nil_iff valid_defs fixture_defs)
  then show ?thesis
    using assms(2)
    by (auto simp: survives_toml_def save_writes_a_valid_config_and_it_reloads_identically_def save_def load_def
        fs_defs willing_def split: sum.splits option.splits) (simp_all add: db_server_def fixture_defs)
qed

definition save_refuses_to_write_an_invalid_config ::
  "fixture \<Rightarrow> (config \<Rightarrow> string + string) \<Rightarrow> string \<Rightarrow> fs \<Rightarrow> bool" where
  "save_refuses_to_write_an_invalid_config fx toml_to path s \<longleftrightarrow>
     (let cfg = (base_server fx)\<lparr>listen_data := None\<rparr>
      in isl (save (fx_dec fx) toml_to willing cfg path s) \<and>
         fs_files (store_after_save (fx_dec fx) toml_to willing cfg path s) path = None)"

lemma save_refuses_to_write_an_invalid_config_passes:
  assumes "good_fixture fx" and "fs_files s path = None"
  shows "save_refuses_to_write_an_invalid_config fx toml_to path s"
proof -
  have "validate (fx_dec fx) ((base_server fx)\<lparr>listen_data := None\<rparr>) \<noteq> []"
    by (simp add: validate_Nil_iff valid_defs fixture_defs)
  then show ?thesis
    using assms(2) by (simp add: save_refuses_to_write_an_invalid_config_def save_def store_after_save_def Let_def)
qed

end
