(* ===== verification/App_Tests.thy ===== *)
theory App_Tests
  imports Tui_App Config_Tests
begin

section \<open>The unit tests of \<open>tui/app.rs\<close>\<close>

text \<open>
  The module \<open>tests\<close> of \<open>app.rs\<close>, run on the model as in \<open>Config_Tests\<close>: the calls of a test in their
  order, each assertion on the state the calls before it leave. A test starts from what \<open>App::new\<close>
  makes of the sample configuration it has written.
\<close>

subsection \<open>Fixtures\<close>

definition write_sample_config :: "fixture \<Rightarrow> config" where
  "write_sample_config fx =
     \<lparr>cfg_role = Client, private_key_path = ''/tmp/identity.key'', peer_public_key = Some (own_key fx),
      cfg_peers = [], listen_control = None, listen_data = None, listen_udp = None,
      server_control_addr = Some ''example.com:9000'', server_data_addr = Some ''example.com:9001'',
      server_udp_addr = None, cfg_links = []\<rparr>"

definition write_sample_server_config :: config where
  "write_sample_server_config =
     \<lparr>cfg_role = Server, private_key_path = ''/tmp/identity.key'', peer_public_key = None, cfg_peers = [],
      listen_control = Some ''0.0.0.0:9000'', listen_data = Some ''0.0.0.0:9001'', listen_udp = None,
      server_control_addr = None, server_data_addr = None, server_udp_addr = None,
      cfg_links =
       [\<lparr>link_id = ''db'', link_mode = Forward, link_transport = Tcp, link_listen = None,
         link_target = Some ''127.0.0.1:5432''\<rparr>,
        \<lparr>link_id = ''dev'', link_mode = Reverse, link_transport = Tcp, link_listen = Some ''0.0.0.0:8080'',
         link_target = None\<rparr>]\<rparr>"

definition client_app :: "fixture \<Rightarrow> string \<Rightarrow> app" where
  "client_app fx path = new_app path (write_sample_config fx)"

definition server_app :: "string \<Rightarrow> app" where
  "server_app path = new_app path write_sample_server_config"

text \<open>What the tests do to the fields directly.\<close>

definition typed :: "string \<Rightarrow> app \<Rightarrow> app" where
  "typed s a = a\<lparr>input_buffer := s\<rparr>"

definition with_link :: "string \<Rightarrow> link_mode \<Rightarrow> string option \<Rightarrow> string option \<Rightarrow> app \<Rightarrow> app" where
  "with_link i m li ta a =
     set_links (app_links a @ [\<lparr>link_id = i, link_mode = m, link_transport = Tcp, link_listen = li, link_target = ta\<rparr>]) a"

definition with_peer :: "string \<Rightarrow> string \<Rightarrow> string list \<Rightarrow> app \<Rightarrow> app" where
  "with_peer name key ls a =
     set_peers (app_peers a @ [\<lparr>peer_name = name, peer_key = key, peer_links = ls\<rparr>]) a"

text \<open>\<open>begin_add_link\<close>, the entry \<open>Custom\<close> of the template menu, and an id.\<close>

definition add_custom :: "string \<Rightarrow> app \<Rightarrow> app" where
  "add_custom i a =
     confirm_link_id (typed i (confirm_template_choice ((begin_add_link a)\<lparr>template_selected := custom_index\<rparr>)))"

definition says :: "string \<Rightarrow> app \<Rightarrow> bool" where
  "says t a \<longleftrightarrow> contains t (unwrap_or_default (message a))"

lemma no_space_char:
  assumes "33 \<le> byte c \<and> byte c < 128"
  shows "ws_head (c # s) = 0" and "ws_last (c # s) = 0"
proof -
  show "ws_head (c # s) = 0"
    by (cases "c # s" rule: ws_head.cases) (use assms in \<open>auto simp: ws1_def ws2_def ws3_def\<close>)
  show "ws_last (c # s) = 0"
    by (cases "c # s" rule: ws_last.cases) (use assms in \<open>auto simp: ws1_def ws2_def ws3_def\<close>)
qed

lemma word_trim:
  assumes "list_all (\<lambda>c. 33 \<le> byte c \<and> byte c < 128) s"
  shows "trim s = s"
proof (cases s rule: rev_exhaust)
  case (snoc t d)
  then have "ws_last (rev s) = 0" using assms no_space_char(2) by simp
  moreover have "ws_head s = 0" using assms no_space_char(1) by (cases s) simp_all
  ultimately show ?thesis by (simp add: trim_id)
qed simp

lemma trimmed [simp]:
  "trim ''db'' = ''db''" "trim ''ssh'' = ''ssh''" "trim ''dev'' = ''dev''" "trim ''new-name'' = ''new-name''"
  "trim ''alice'' = ''alice''" "trim ''bob'' = ''bob''" "trim ''127.0.0.1:5432'' = ''127.0.0.1:5432''"
  "trim ''127.0.0.1:22'' = ''127.0.0.1:22''" "trim ''127.0.0.1:2222'' = ''127.0.0.1:2222''"
  "trim ''127.0.0.1:1'' = ''127.0.0.1:1''" "trim ''127.0.0.1:3000'' = ''127.0.0.1:3000''"
  "trim ''not-a-real-address'' = ''not-a-real-address''" "trim ''not-valid'' = ''not-valid''"
  "trim ''not-a-real-key'' = ''not-a-real-key''"
  by (rule word_trim, simp add: byte_def)+

lemma app_addrs [simp]:
  "parse_socket_addr ''127.0.0.1:22'' = Some (SocketV4 127 0 0 1 22)"
  "parse_socket_addr ''127.0.0.1:2222'' = Some (SocketV4 127 0 0 1 2222)"
  using parse_show_socket_v4 [of 127 0 0 1 22] parse_show_socket_v4 [of 127 0 0 1 2222]
  by (simp_all add: show_v4_def show_word_def show_nat.simps digit_chars)

lemma app_no_addrs [simp]:
  "parse_socket_addr ''not-a-real-address'' = None" "parse_socket_addr ''not-valid'' = None"
  by code_simp+

lemma port_22 [simp]: "show_word (22 :: u16) = ''22''"
  by (simp add: show_word_def show_nat.simps digit_chars)

text \<open>Keys that can be typed: an encoded key is not the empty text.\<close>

definition typable :: "fixture \<Rightarrow> bool" where
  "typable fx \<longleftrightarrow> good_fixture fx \<and> own_key fx \<noteq> [] \<and> other_key fx \<noteq> []"

lemma typable_keys [simp]:
  assumes "typable fx"
  shows "trim (own_key fx) = own_key fx" and "trim (other_key fx) = other_key fx"
    and "own_key fx \<noteq> []" and "other_key fx \<noteq> []"
    and "decode_public_key (fx_dec fx) (other_key fx) = Inr (fx_other fx)"
proof -
  have good: "good_fixture fx" and "own_key fx \<noteq> []" "other_key fx \<noteq> []" using assms by (simp_all add: typable_def)
  then show "own_key fx \<noteq> []" "other_key fx \<noteq> []" by blast+
  have "b64_lawful (fx_enc fx) (fx_dec fx)" using good by (simp add: good_fixture_def)
  then show "trim (own_key fx) = own_key fx" "trim (other_key fx) = other_key fx"
    unfolding own_key_def other_key_def encode_public_key_def by (rule b64_lawful_trim)+
  show "decode_public_key (fx_dec fx) (other_key fx) = Inr (fx_other fx)" using good by simp
qed

lemmas link_steps =
  client_app_def write_sample_config_def new_app_def typed_def with_link_def add_custom_def says_def
  begin_add_link_def begin_edit_link_def confirm_template_choice_def confirm_link_id_def choose_link_mode_def
  confirm_link_address_def store_link_def upsert_def wizard_link_def link_needs_listen_def set_links_def
  selected_link_def nth_opt_def unwrap_or_default_def pending_link_needs_listen_def custom_index_def
  cancel_link_wizard_def link_address_input_status_def unsaved_note_def bad_address_note_def quoted_def
  starts_with_def templates_def template_def Let_def

text \<open>The checklist over the two links of the server's sample.\<close>

lemma checklist_steps:
  assumes "map link_id (app_links a) = [''db'', ''dev'']"
  shows "peer_links_cursor a = 0 \<Longrightarrow> pending_peer_links a = [] \<Longrightarrow>
      toggle_peer_link a = a\<lparr>pending_peer_links := [''db'']\<rparr>"
    and "peer_links_cursor a = 0 \<Longrightarrow> pending_peer_links a = [''db''] \<Longrightarrow>
      toggle_peer_link a = a\<lparr>pending_peer_links := []\<rparr>"
    and "peer_links_cursor a = 1 \<Longrightarrow> pending_peer_links a = [] \<Longrightarrow>
      toggle_peer_link a = a\<lparr>pending_peer_links := [''dev'']\<rparr>"
    and "peer_links_cursor a = 0 \<Longrightarrow> move_peer_links_cursor 1 a = a\<lparr>peer_links_cursor := 1\<rparr>"
proof -
  obtain l m where "app_links a = [l, m]" "link_id l = ''db''" "link_id m = ''dev''"
    using assms by (auto simp: map_eq_Cons_conv)
  then show "peer_links_cursor a = 0 \<Longrightarrow> pending_peer_links a = [] \<Longrightarrow>
      toggle_peer_link a = a\<lparr>pending_peer_links := [''db'']\<rparr>"
    and "peer_links_cursor a = 0 \<Longrightarrow> pending_peer_links a = [''db''] \<Longrightarrow>
      toggle_peer_link a = a\<lparr>pending_peer_links := []\<rparr>"
    and "peer_links_cursor a = 1 \<Longrightarrow> pending_peer_links a = [] \<Longrightarrow>
      toggle_peer_link a = a\<lparr>pending_peer_links := [''dev'']\<rparr>"
    and "peer_links_cursor a = 0 \<Longrightarrow> move_peer_links_cursor 1 a = a\<lparr>peer_links_cursor := 1\<rparr>"
    by (simp_all add: toggle_peer_link_def nth_opt_def remove_at_def move_peer_links_cursor_def wrap_index_def)
qed

lemma checklist_swap:
  assumes "map link_id (app_links a) = [''db'', ''dev'']" and "peer_links_cursor a = 0"
    and "pending_peer_links a = [''db'']"
  shows "toggle_peer_link (move_peer_links_cursor 1 (toggle_peer_link a)) =
    a\<lparr>pending_peer_links := [''dev''], peer_links_cursor := 1\<rparr>"
  using assms by (simp add: checklist_steps)

lemmas edit_steps =
  client_app_def server_app_def write_sample_config_def write_sample_server_config_def new_app_def typed_def
  with_peer_def says_def begin_add_peer_def begin_edit_peer_def confirm_peer_name_def
  confirm_peer_public_key_def confirm_peer_links_def
  peer_link_is_checked_def store_peer_def upsert_def set_peers_def selected_peer_def nth_opt_def
  unwrap_or_default_def unsaved_note_def quoted_def starts_with_def remove_at_def Let_def

lemmas peer_steps = edit_steps checklist_steps

lemmas service_steps =
  client_app_def new_app_def activate_selected_service_action_def selected_service_action_def needs_confirm_def
  service_menu_def Let_def

subsection \<open>The tests\<close>

definition add_link_wizard_produces_a_correctly_shaped_forward_link :: "fixture \<Rightarrow> string \<Rightarrow> bool" where
  "add_link_wizard_produces_a_correctly_shaped_forward_link fx path \<longleftrightarrow>
     (let app = begin_add_link (client_app fx path)
      in mode_of app = Choose_Template \<and>
     (let app = confirm_template_choice (app\<lparr>template_selected := custom_index\<rparr>)
      in mode_of app = Add_Link_Id \<and>
     (let app = confirm_link_id (typed ''db'' app)
      in mode_of app = Add_Link_Direction \<and>
     (let app = choose_link_mode Forward app
      in mode_of app = Add_Link_Address \<and> pending_link_needs_listen app = Some True \<and>
     (let app = confirm_link_address (typed ''127.0.0.1:5432'' app)
      in dirty app \<and>
         (case find (\<lambda>l. link_id l = ''db'') (app_links app) of None \<Rightarrow> False
          | Some link \<Rightarrow> link_listen link = Some ''127.0.0.1:5432'' \<and> link_target link = None))))))"

lemma add_link_wizard_produces_a_correctly_shaped_forward_link_passes: "add_link_wizard_produces_a_correctly_shaped_forward_link fx path"
  by (simp add: add_link_wizard_produces_a_correctly_shaped_forward_link_def link_steps)

definition template_choice_prefills_id_and_skips_the_mode_step :: "fixture \<Rightarrow> string \<Rightarrow> bool" where
  "template_choice_prefills_id_and_skips_the_mode_step fx path \<longleftrightarrow>
     (let app = confirm_template_choice ((begin_add_link (client_app fx path))\<lparr>template_selected := 0\<rparr>)
      in mode_of app = Add_Link_Id \<and> input_buffer app = ''ssh'' \<and>
     (let app = confirm_link_id app
      in mode_of app = Add_Link_Address \<and> input_buffer app = ''127.0.0.1:22'' \<and>
         pending_link_needs_listen app = Some True \<and>
     (let app = confirm_link_address app
      in case find (\<lambda>l. link_id l = ''ssh'') (app_links app) of None \<Rightarrow> False
         | Some link \<Rightarrow> link_mode link = Forward \<and> link_listen link = Some ''127.0.0.1:22'')))"

lemma template_choice_prefills_id_and_skips_the_mode_step_passes: "template_choice_prefills_id_and_skips_the_mode_step fx path"
  by (simp add: template_choice_prefills_id_and_skips_the_mode_step_def link_steps)

definition adding_a_link_with_an_existing_id_replaces_it :: "fixture \<Rightarrow> string \<Rightarrow> bool" where
  "adding_a_link_with_an_existing_id_replaces_it fx path \<longleftrightarrow>
     (let app = with_link ''db'' Reverse None (Some ''old'') (client_app fx path);
          app = confirm_link_address (typed ''127.0.0.1:5432'' (choose_link_mode Forward (add_custom ''db'' app)))
      in length (filter (\<lambda>l. link_id l = ''db'') (app_links app)) = 1 \<and>
         map_option link_mode (find (\<lambda>l. link_id l = ''db'') (app_links app)) = Some Forward)"

lemma adding_a_link_with_an_existing_id_replaces_it_passes: "adding_a_link_with_an_existing_id_replaces_it fx path"
  by (simp add: adding_a_link_with_an_existing_id_replaces_it_def link_steps)

definition edit_prefills_current_values_and_updates_in_place :: "fixture \<Rightarrow> string \<Rightarrow> bool" where
  "edit_prefills_current_values_and_updates_in_place fx path \<longleftrightarrow>
     (let app = begin_edit_link
            ((with_link ''db'' Forward (Some ''127.0.0.1:5432'') None (client_app fx path))\<lparr>links_selected := 0\<rparr>)
      in mode_of app = Add_Link_Id \<and> input_buffer app = ''db'' \<and> editing_original_id app \<noteq> None \<and>
     (let app = confirm_link_id app
      in mode_of app = Add_Link_Direction \<and>
     (let app = choose_link_mode Forward app
      in input_buffer app = ''127.0.0.1:5432'' \<and>
     (let app = confirm_link_address (typed ''127.0.0.1:2222'' app)
      in length (app_links app) = 1 \<and> link_listen (app_links app ! 0) = Some ''127.0.0.1:2222'' \<and>
         says ''updated'' app))))"

lemma edit_prefills_current_values_and_updates_in_place_passes: "edit_prefills_current_values_and_updates_in_place fx path"
  by (simp add: edit_prefills_current_values_and_updates_in_place_def link_steps)

definition editing_and_changing_the_id_removes_the_old_entry :: "fixture \<Rightarrow> string \<Rightarrow> bool" where
  "editing_and_changing_the_id_removes_the_old_entry fx path \<longleftrightarrow>
     (let app = begin_edit_link
            ((with_link ''old-name'' Forward (Some ''127.0.0.1:1'') None (client_app fx path))\<lparr>links_selected := 0\<rparr>);
          app = confirm_link_id (typed ''new-name'' app);
          app = confirm_link_address (typed ''127.0.0.1:1'' (choose_link_mode Forward app))
      in length (app_links app) = 1 \<and> link_id (app_links app ! 0) = ''new-name'' \<and>
         \<not> list_ex (\<lambda>l. link_id l = ''old-name'') (app_links app))"

lemma editing_and_changing_the_id_removes_the_old_entry_passes: "editing_and_changing_the_id_removes_the_old_entry fx path"
  by (simp add: editing_and_changing_the_id_removes_the_old_entry_def link_steps)

definition remove_selected_link_marks_dirty_and_removes_it :: "fixture \<Rightarrow> string \<Rightarrow> bool" where
  "remove_selected_link_marks_dirty_and_removes_it fx path \<longleftrightarrow>
     (let app = with_link ''b'' Forward (Some ''y'') None (with_link ''a'' Forward (Some ''x'') None (client_app fx path));
          app = remove_selected_link (app\<lparr>links_selected := 0\<rparr>)
      in dirty app \<and> length (app_links app) = 1 \<and> link_id (app_links app ! 0) = ''b'')"

lemma remove_selected_link_marks_dirty_and_removes_it_passes: "remove_selected_link_marks_dirty_and_removes_it fx path"
  by (simp add: remove_selected_link_marks_dirty_and_removes_it_def link_steps remove_selected_link_def remove_at_def)

definition empty_link_id_cancels_without_creating_anything :: "fixture \<Rightarrow> string \<Rightarrow> bool" where
  "empty_link_id_cancels_without_creating_anything fx path \<longleftrightarrow>
     (let app = add_custom [] (client_app fx path)
      in mode_of app = Normal \<and> app_links app = [] \<and> \<not> dirty app)"

lemma empty_link_id_cancels_without_creating_anything_passes: "empty_link_id_cancels_without_creating_anything fx path"
  by (simp add: empty_link_id_cancels_without_creating_anything_def link_steps)

definition invalid_address_is_rejected_without_losing_the_wizard_progress :: "fixture \<Rightarrow> string \<Rightarrow> bool" where
  "invalid_address_is_rejected_without_losing_the_wizard_progress fx path \<longleftrightarrow>
     (let app = choose_link_mode Reverse (add_custom ''dev'' (client_app fx path));
          app = confirm_link_address (typed ''not-a-real-address'' app)
      in mode_of app = Add_Link_Address \<and> says (''isn'' @ [CHR 0x27] @ ''t a valid host:port'') app \<and>
         app_links app = [] \<and>
     (let app = confirm_link_address (typed ''127.0.0.1:3000'' app)
      in mode_of app = Normal \<and> length (app_links app) = 1))"

lemma invalid_address_is_rejected_without_losing_the_wizard_progress_passes: "invalid_address_is_rejected_without_losing_the_wizard_progress fx path"
  by (simp add: invalid_address_is_rejected_without_losing_the_wizard_progress_def link_steps)

definition link_address_input_status_reflects_validity_live :: "fixture \<Rightarrow> string \<Rightarrow> bool" where
  "link_address_input_status_reflects_validity_live fx path \<longleftrightarrow>
     (let app = choose_link_mode Reverse (add_custom ''dev'' (client_app fx path))
      in link_address_input_status app = None \<and>
         link_address_input_status (typed ''not-valid'' app) = Some False \<and>
         link_address_input_status (typed ''127.0.0.1:3000'' app) = Some True)"

lemma link_address_input_status_reflects_validity_live_passes: "link_address_input_status_reflects_validity_live fx path"
  by (simp add: link_address_input_status_reflects_validity_live_def link_steps)

definition service_menu_navigation_wraps_around :: "fixture \<Rightarrow> string \<Rightarrow> bool" where
  "service_menu_navigation_wraps_around fx path \<longleftrightarrow>
     (let app = client_app fx path
      in service_menu_selected app = 0 \<and>
     (let app = move_service_selection (- 1) app
      in service_menu_selected app = length service_menu - 1 \<and>
         service_menu_selected (move_service_selection 1 app) = 0))"

lemma service_menu_navigation_wraps_around_passes: "service_menu_navigation_wraps_around fx path"
  by (simp add: service_menu_navigation_wraps_around_def client_app_def new_app_def move_service_selection_def wrap_index_def service_menu_def Let_def)

definition view_logs_activates_without_a_confirm_prompt :: "fixture \<Rightarrow> string \<Rightarrow> bool" where
  "view_logs_activates_without_a_confirm_prompt fx path \<longleftrightarrow>
     (case position (\<lambda>a. a = View_Logs) service_menu of None \<Rightarrow> False
      | Some logs_index \<Rightarrow>
         (let app = activate_selected_service_action ((client_app fx path)\<lparr>service_menu_selected := logs_index\<rparr>)
          in mode_of app = Normal \<and> pending_service_action app = Some View_Logs))"

lemma view_logs_activates_without_a_confirm_prompt_passes: "view_logs_activates_without_a_confirm_prompt fx path"
  by (simp add: view_logs_activates_without_a_confirm_prompt_def service_steps)

definition start_action_requires_confirmation :: "fixture \<Rightarrow> string \<Rightarrow> bool" where
  "start_action_requires_confirmation fx path \<longleftrightarrow>
     (case position (\<lambda>a. a = Start) service_menu of None \<Rightarrow> False
      | Some k \<Rightarrow>
         (let app = activate_selected_service_action ((client_app fx path)\<lparr>service_menu_selected := k\<rparr>)
          in mode_of app = Confirm_Service_Action \<and> pending_service_action app = Some Start))"

lemma start_action_requires_confirmation_passes: "start_action_requires_confirmation fx path"
  by (simp add: start_action_requires_confirmation_def service_steps)

definition link_rate_is_none_until_two_samples_exist :: "fixture \<Rightarrow> string \<Rightarrow> bool" where
  "link_rate_is_none_until_two_samples_exist fx path \<longleftrightarrow>
     link_rate ''anything'' (client_app fx path) = None"

lemma link_rate_is_none_until_two_samples_exist_passes: "link_rate_is_none_until_two_samples_exist fx path"
  by (simp add: link_rate_is_none_until_two_samples_exist_def client_app_def new_app_def link_rate_def)

definition add_peer_wizard_produces_a_correctly_shaped_peer :: "fixture \<Rightarrow> string \<Rightarrow> bool" where
  "add_peer_wizard_produces_a_correctly_shaped_peer fx path \<longleftrightarrow>
     (let app = begin_add_peer (server_app path)
      in mode_of app = Add_Peer_Name \<and>
     (let app = confirm_peer_name (typed ''alice'' app)
      in mode_of app = Add_Peer_Public_Key \<and>
     (let app = confirm_peer_public_key (fx_dec fx) (typed (other_key fx) app)
      in mode_of app = Add_Peer_Links \<and>
     (let app = confirm_peer_links (toggle_peer_link app)
      in dirty app \<and>
         (case find (\<lambda>p. peer_name p = ''alice'') (app_peers app) of None \<Rightarrow> False
          | Some p \<Rightarrow> peer_key p = other_key fx \<and> peer_links p = [''db''])))))"

lemma add_peer_wizard_produces_a_correctly_shaped_peer_passes:
  assumes "typable fx"
  shows "add_peer_wizard_produces_a_correctly_shaped_peer fx path"
  using assms by (simp add: add_peer_wizard_produces_a_correctly_shaped_peer_def peer_steps)

definition peer_links_checklist_toggles_selection :: "fixture \<Rightarrow> string \<Rightarrow> bool" where
  "peer_links_checklist_toggles_selection fx path \<longleftrightarrow>
     (let app = confirm_peer_name (typed ''bob'' (begin_add_peer (server_app path)));
          app = confirm_peer_public_key (fx_dec fx) (typed (other_key fx) app)
      in \<not> peer_link_is_checked ''db'' app \<and>
     (let app = toggle_peer_link app
      in peer_link_is_checked ''db'' app \<and>
     (let app = toggle_peer_link app
      in \<not> peer_link_is_checked ''db'' app \<and>
     (let app = toggle_peer_link (move_peer_links_cursor 1 app)
      in peer_link_is_checked ''dev'' app \<and> \<not> peer_link_is_checked ''db'' app \<and>
     (let app = confirm_peer_links app
      in map_option peer_links (find (\<lambda>p. peer_name p = ''bob'') (app_peers app)) = Some [''dev''])))))"

lemma peer_links_checklist_toggles_selection_passes:
  assumes "typable fx"
  shows "peer_links_checklist_toggles_selection fx path"
  using assms by (simp add: peer_links_checklist_toggles_selection_def peer_steps)

definition adding_a_peer_with_an_existing_name_replaces_it :: "fixture \<Rightarrow> string \<Rightarrow> bool" where
  "adding_a_peer_with_an_existing_name_replaces_it fx path \<longleftrightarrow>
     (let app = begin_add_peer (with_peer ''alice'' (own_key fx) [] (server_app path));
          app = confirm_peer_name (typed ''alice'' app);
          app = confirm_peer_public_key (fx_dec fx) (typed (other_key fx) app);
          app = confirm_peer_links (toggle_peer_link app)
      in length (filter (\<lambda>p. peer_name p = ''alice'') (app_peers app)) = 1 \<and>
         map_option peer_key (find (\<lambda>p. peer_name p = ''alice'') (app_peers app)) = Some (other_key fx))"

lemma adding_a_peer_with_an_existing_name_replaces_it_passes:
  assumes "typable fx"
  shows "adding_a_peer_with_an_existing_name_replaces_it fx path"
  using assms by (simp add: adding_a_peer_with_an_existing_name_replaces_it_def peer_steps)

definition edit_peer_prefills_current_values_and_updates_in_place :: "fixture \<Rightarrow> string \<Rightarrow> bool" where
  "edit_peer_prefills_current_values_and_updates_in_place fx path \<longleftrightarrow>
     (let app = begin_edit_peer
            ((with_peer ''alice'' (other_key fx) [''db''] (server_app path))\<lparr>peers_selected := 0\<rparr>)
      in mode_of app = Add_Peer_Name \<and> input_buffer app = ''alice'' \<and> editing_original_peer_name app \<noteq> None \<and>
     (let app = confirm_peer_name app
      in mode_of app = Add_Peer_Public_Key \<and> input_buffer app = other_key fx \<and>
     (let app = confirm_peer_public_key (fx_dec fx) app
      in mode_of app = Add_Peer_Links \<and> peer_link_is_checked ''db'' app \<and>
     (let app = confirm_peer_links (toggle_peer_link (move_peer_links_cursor 1 (toggle_peer_link app)))
      in length (app_peers app) = 1 \<and> peer_links (app_peers app ! 0) = [''dev''] \<and> says ''updated'' app))))"

lemma edit_peer_prefills_current_values_and_updates_in_place_passes:
  assumes "typable fx"
  shows "edit_peer_prefills_current_values_and_updates_in_place fx path"
  using assms by (simp add: edit_peer_prefills_current_values_and_updates_in_place_def edit_steps checklist_swap)

definition editing_and_renaming_a_peer_removes_the_old_entry :: "fixture \<Rightarrow> string \<Rightarrow> bool" where
  "editing_and_renaming_a_peer_removes_the_old_entry fx path \<longleftrightarrow>
     (let app = begin_edit_peer ((with_peer ''old-name'' (other_key fx) [] (server_app path))\<lparr>peers_selected := 0\<rparr>);
          app = confirm_peer_name (typed ''new-name'' app);
          app = confirm_peer_links (confirm_peer_public_key (fx_dec fx) app)
      in length (app_peers app) = 1 \<and> peer_name (app_peers app ! 0) = ''new-name'' \<and>
         \<not> list_ex (\<lambda>p. peer_name p = ''old-name'') (app_peers app))"

lemma editing_and_renaming_a_peer_removes_the_old_entry_passes:
  assumes "typable fx"
  shows "editing_and_renaming_a_peer_removes_the_old_entry fx path"
  using assms by (simp add: editing_and_renaming_a_peer_removes_the_old_entry_def peer_steps)

definition invalid_peer_public_key_is_rejected_without_losing_wizard_progress :: "fixture \<Rightarrow> string \<Rightarrow> bool" where
  "invalid_peer_public_key_is_rejected_without_losing_wizard_progress fx path \<longleftrightarrow>
     (let app = confirm_peer_name (typed ''alice'' (begin_add_peer (server_app path)));
          app = confirm_peer_public_key (fx_dec fx) (typed ''not-a-real-key'' app)
      in mode_of app = Add_Peer_Public_Key \<and> says ''not a valid'' app \<and> app_peers app = [] \<and>
     (let app = confirm_peer_public_key (fx_dec fx) (typed (other_key fx) app)
      in mode_of app = Add_Peer_Links \<and>
     (let app = confirm_peer_links app
      in length (app_peers app) = 1 \<and> peer_key (app_peers app ! 0) = other_key fx)))"

lemma invalid_peer_public_key_is_rejected_without_losing_wizard_progress_passes:
  assumes "typable fx" and "isl (decode_public_key (fx_dec fx) ''not-a-real-key'')"
  shows "invalid_peer_public_key_is_rejected_without_losing_wizard_progress fx path"
  using assms by (simp add: invalid_peer_public_key_is_rejected_without_losing_wizard_progress_def peer_steps)

definition remove_selected_peer_marks_dirty_and_removes_it :: "fixture \<Rightarrow> string \<Rightarrow> bool" where
  "remove_selected_peer_marks_dirty_and_removes_it fx path \<longleftrightarrow>
     (let app = with_peer ''b'' (other_key fx) [] (with_peer ''a'' (own_key fx) [] (server_app path));
          app = remove_selected_peer (app\<lparr>peers_selected := 0\<rparr>)
      in dirty app \<and> length (app_peers app) = 1 \<and> peer_name (app_peers app ! 0) = ''b'')"

lemma remove_selected_peer_marks_dirty_and_removes_it_passes: "remove_selected_peer_marks_dirty_and_removes_it fx path"
  by (simp add: remove_selected_peer_marks_dirty_and_removes_it_def peer_steps remove_selected_peer_def)

definition begin_add_peer_is_a_noop_for_client_role_config :: "fixture \<Rightarrow> string \<Rightarrow> bool" where
  "begin_add_peer_is_a_noop_for_client_role_config fx path \<longleftrightarrow>
     (let app = begin_add_peer (client_app fx path)
      in mode_of app = Normal \<and> says ''server-role'' app)"

lemma begin_add_peer_is_a_noop_for_client_role_config_passes: "begin_add_peer_is_a_noop_for_client_role_config fx path"
  by (simp add: begin_add_peer_is_a_noop_for_client_role_config_def peer_steps)

definition peer_checklist_confirms_with_zero_links_when_none_are_configured :: "fixture \<Rightarrow> string \<Rightarrow> bool" where
  "peer_checklist_confirms_with_zero_links_when_none_are_configured fx path \<longleftrightarrow>
     (let app = new_app path (write_sample_server_config\<lparr>cfg_links := []\<rparr>);
          app = confirm_peer_name (typed ''alice'' (begin_add_peer app));
          app = confirm_peer_public_key (fx_dec fx) (typed (other_key fx) app)
      in mode_of app = Add_Peer_Links \<and>
     (let app = confirm_peer_links app
      in mode_of app = Normal \<and>
         map_option peer_links (find (\<lambda>p. peer_name p = ''alice'') (app_peers app)) = Some []))"

lemma peer_checklist_confirms_with_zero_links_when_none_are_configured_passes:
  assumes "typable fx"
  shows "peer_checklist_confirms_with_zero_links_when_none_are_configured fx path"
  using assms by (simp add: peer_checklist_confirms_with_zero_links_when_none_are_configured_def peer_steps)

text \<open>Saving: the file is written and reloaded, and TOML keeps the configuration.\<close>

definition saved_dev :: "fixture \<Rightarrow> string \<Rightarrow> app" where
  "saved_dev fx path =
     confirm_link_address (typed ''127.0.0.1:3000'' (choose_link_mode Reverse (add_custom ''dev'' (client_app fx path))))"

definition save_writes_a_valid_config_and_clears_dirty ::
  "fixture \<Rightarrow> (config \<Rightarrow> string + string) \<Rightarrow> (string \<Rightarrow> string + config) \<Rightarrow> string \<Rightarrow> fs \<Rightarrow> bool" where
  "save_writes_a_valid_config_and_clears_dirty fx toml_to toml_from path s \<longleftrightarrow>
     (let app = choose_link_mode Reverse (add_custom ''dev'' (client_app fx path))
      in pending_link_needs_listen app = Some False \<and>
     (let app = confirm_link_address (typed ''127.0.0.1:3000'' app)
      in dirty app \<and>
     (let (app, s') = save_config (fx_dec fx) toml_to willing app s
      in \<not> dirty app \<and>
         (case load toml_from willing path s' of Inl e \<Rightarrow> False
          | Inr reloaded \<Rightarrow> length (cfg_links reloaded) = 1 \<and>
              link_target (cfg_links reloaded ! 0) = Some ''127.0.0.1:3000''))))"

lemma saved_dev_config:
  "app_config (saved_dev fx path) = (write_sample_config fx)
     \<lparr>cfg_links := [\<lparr>link_id = ''dev'', link_mode = Reverse, link_transport = Tcp, link_listen = None,
       link_target = Some ''127.0.0.1:3000''\<rparr>]\<rparr>"
  "dirty (saved_dev fx path)" "config_path (saved_dev fx path) = path"
  by (simp_all add: saved_dev_def link_steps)

lemma saved_dev_valid: "good_fixture fx \<Longrightarrow> validate (fx_dec fx) (app_config (saved_dev fx path)) = []"
  by (simp add: saved_dev_config validate_Nil_iff valid_defs write_sample_config_def)

lemma save_writes_a_valid_config_and_clears_dirty_passes:
  assumes "good_fixture fx" and "survives_toml toml_to toml_from (app_config (saved_dev fx path))"
  shows "save_writes_a_valid_config_and_clears_dirty fx toml_to toml_from path s"
proof -
  obtain raw where raw: "toml_to (app_config (saved_dev fx path)) = Inr raw" "utf8 raw"
      "toml_from raw = Inr (app_config (saved_dev fx path))"
    using assms(2) by (auto simp: survives_toml_def split: sum.splits)
  obtain s' where s': "save (fx_dec fx) toml_to willing (app_config (saved_dev fx path)) path s = Inr s'"
      "load toml_from willing path s' = Inr (app_config (saved_dev fx path))"
    using saved_dev_valid [OF assms(1), of path] raw
    by (auto simp: save_def load_def fs_defs willing_def split: option.splits)
  have "pending_link_needs_listen (choose_link_mode Reverse (add_custom ''dev'' (client_app fx path))) = Some False"
    by (simp add: link_steps)
  then show ?thesis
    using s' saved_dev_config [of fx path]
    by (simp add: save_writes_a_valid_config_and_clears_dirty_def save_config_def Let_def flip: saved_dev_def)
qed

end
