(* ===== verification/Test_Runs.thy ===== *)
theory Test_Runs
  imports Core_Tests Tool_Tests Metrics_Tests App_Tests Examples
begin

section \<open>The unit tests on concrete functions\<close>

text \<open>
  Instances of what the tests assume of other crates: a decoder that refuses other texts than
  those of the encoder, two distinct keys, a file that TOML reads back, and a first message of the
  handshake of \<open>Examples\<close>. On them the tests that have an assumption pass.
\<close>

definition strict_dec :: b64_decoder where
  "strict_dec s = (if list_all (\<lambda>c. 65 \<le> byte c \<and> byte c \<le> 80) s then hex_dec s else Inl ''not hex'')"

lemma strict_lawful: "b64_lawful hex_enc strict_dec"
proof -
  have "strict_dec (hex_enc bs) = Inr bs" for bs
    using hex_enc_range by (auto simp: strict_dec_def hex_dec_enc list_all_iff)
  then show ?thesis by (simp add: b64_lawful_def trim_hex)
qed

definition demo_fixture :: fixture where
  "demo_fixture = \<lparr>fx_enc = hex_enc, fx_dec = strict_dec, fx_own = laptop_key, fx_other = server_key\<rparr>"

lemma demo_keys: "length laptop_key = 32" "length server_key = 32" "laptop_key \<noteq> server_key"
  by (simp_all add: laptop_key_def server_key_def)

lemma demo_fixture_good: "good_fixture demo_fixture"
  using demo_keys strict_lawful
  by (simp add: good_fixture_def demo_fixture_def strict_dec_def byte_def)

lemma hex_enc_Nil: "hex_enc k = [] \<longleftrightarrow> k = []"
  by (cases k) simp_all

lemma demo_fixture_typable: "typable demo_fixture"
  using demo_fixture_good demo_keys
  by (auto simp: typable_def own_key_def other_key_def encode_public_key_def demo_fixture_def hex_enc_Nil)

lemma demo_survives: "survives_toml (\<lambda>_. Inr ''raw'') (\<lambda>_. Inr cfg) cfg"
proof -
  have "utf8 ''raw''" by (rule utf8_ascii) (simp add: byte_def)
  then show ?thesis by (simp add: survives_toml_def)
qed

lemma demo_builds: "builds demo_snow"
  by (simp add: builds_def demo_snow_def)

lemma demo_wrote: "length public = 32 \<Longrightarrow> wrote demo_snow (\<lambda>_. True) private public (key_msg public)"
proof -
  assume n: "length public = 32"
  have "key_msg public = key_msg k \<longleftrightarrow> k = public" for k by (metis msg_key_key_msg)
  then show ?thesis
    using n by (auto simp: wrote_def accepts_def responder_def demo_snow_def resolved_def key_msg_def)
qed

text \<open>One test for each of the assumptions.\<close>

lemmas config_tests_pass =
  minimal_valid_server_and_client_configs_pass_passes [OF demo_fixture_good]
  round_trips_through_toml_passes [OF demo_survives]
  save_writes_a_valid_config_and_it_reloads_identically_passes [OF demo_fixture_good demo_survives]
  save_writes_a_valid_config_and_clears_dirty_passes [OF demo_fixture_good demo_survives]
  add_peer_wizard_produces_a_correctly_shaped_peer_passes [OF demo_fixture_typable]

lemmas handshake_tests_pass =
  matching_pinned_keys_let_initiator_and_responder_build_passes [OF demo_builds]
  no_candidate_matches_an_unrecognized_key_passes [OF demo_wrote [OF demo_keys(1)]]

lemma demo_bad_key: "isl (decode_public_key (fx_dec demo_fixture) ''not-a-real-key'')"
  by (simp add: decode_public_key_def demo_fixture_def strict_dec_def byte_def)

lemma app_tests_pass:
  "invalid_peer_public_key_is_rejected_without_losing_wizard_progress demo_fixture path"
  by (rule invalid_peer_public_key_is_rejected_without_losing_wizard_progress_passes
      [OF demo_fixture_typable demo_bad_key])

lemma handshake_candidates:
  "matches_the_correct_candidate_when_it_is_not_first demo_snow (\<lambda>_. True)
     \<lparr>kp_private = server_key, kp_public = server_key\<rparr> \<lparr>kp_private = laptop_key, kp_public = laptop_key\<rparr>
     \<lparr>kp_private = server_key, kp_public = server_key\<rparr> (key_msg laptop_key)"
  by (rule matches_the_correct_candidate_when_it_is_not_first_passes)
    (use demo_keys in \<open>simp_all add: demo_wrote\<close>)

end
