(* ===== verification/Spec2Isabelle.thy ===== *)
theory Spec2Isabelle
  imports Server_Properties Client_Properties Tool_Properties Tui_Properties Main_Program Test_Runs
begin

text \<open>
  A verification library for GhostPort, an encrypted port forwarder in Rust: the daemon (server and
  client role, TCP and UDP), its command line and terminal interface, the firewall that reads its
  log, and its Prometheus exporter. Every definition is a translation of code under \<open>src/\<close>; the
  code of other crates is a parameter.

  \<^bold>\<open>The program and the theories.\<close>
  A client dials two TCP channels of the server and runs a Noise KK handshake on each connection.
  On the control channel the server announces connections that arrived for a reverse link
  (\<open>OpenStream\<close>); on the data channel the client sends a hello naming a link (and, for a reverse
  link, the stream id) and the server joins the tunnel to a dial of the link's target or to the
  waiting connection. UDP links use one authenticated datagram flow per source address.

    \<^item> Shared vocabulary. \<open>Prelude\<close>: machine integers, instants, list operations, and the locales
      \<open>keyed_store\<close> and \<open>wrapping_cursor\<close>. \<open>Rust_Std\<close>, \<open>Utf8\<close>, \<open>Net_Addr\<close>, \<open>File_Store\<close>,
      \<open>F64\<close>: what the program uses of strings (UTF-8 bytes), socket addresses, \<open>std::fs\<close> and \<open>f64\<close>.
    \<^item> \<open>crates/ghostport-core/src\<close>. \<open>Config\<close> (\<open>config.rs\<close>: the schema and \<open>Config::validate\<close> with its
      messages), \<open>Keys\<close> (\<open>keys.rs\<close>), \<open>Stats\<close> (\<open>stats.rs\<close>, the counters of \<open>relay.rs\<close>), \<open>Theme\<close>
      (\<open>theme.rs\<close>), \<open>Wire\<close> (\<open>protocol.rs\<close>, \<open>framing.rs\<close>), \<open>Rate_Limit\<close> (\<open>ratelimit.rs\<close>), \<open>Peer_Match\<close>
      (\<open>noise.rs\<close>, \<open>peermatch.rs\<close>), \<open>Session\<close> (the \<open>select!\<close> loops of both roles and the bounded
      channels), \<open>Reverse_Streams\<close> (listeners, stream ids, the pending map and its timers in
      \<open>server.rs\<close>), \<open>Server_Role\<close> (the rest of \<open>server.rs\<close>), \<open>Client_Role\<close> (\<open>client.rs\<close>), and \<open>ipc.rs\<close>
      in \<open>Cli\<close>.
    \<^item> Concurrency. \<open>Server_Role\<close> has one data connection as one function, as the code reads;
      \<open>Server_Runs\<close> runs whole connections one after the other between the steps of the streams, and
      \<open>Server_Listeners\<close> has the listeners around them, from the bind to the last accept, with their lines;
      \<open>Server_Tasks\<close> is the step relation in which the tasks of all connections, the listeners, the
      timers and the control session interleave, one access to shared state per step. The server
      properties are stated over \<open>sys_reaches\<close>, its reachable states. \<open>Client_Tasks\<close> (\<open>cl_reaches\<close>) is
      the same for the client: the tasks of its listeners and of announced streams, the sessions and
      the reconnects. Both refine the abstract machine of \<open>Relay_Counters\<close>, as interpretations of the
      locale \<open>relay_system\<close>, in which the books of a set of relays balance.
    \<^item> \<open>crates/ghostport-udp/src\<close>: \<open>Udp\<close> (demultiplexers of both roles as interpretations of the locale
      \<open>flow_table\<close>, sessions, flows, the relay loop and the poller).
    \<^item> \<open>src/main.rs\<close>: \<open>Cli\<close> (\<open>keygen\<close>, \<open>check\<close>, \<open>run\<close>, \<open>status\<close>, the status socket), \<open>Main_Program\<close> (the
      dispatch of the commands, and the console from its start to its exit code).
    \<^item> \<open>crates/ghostport-firewall/src\<close>: \<open>Detector\<close> (\<open>detector.rs\<close>: the four patterns as a matcher, the
      failure tracker), \<open>Firewall\<close> (\<open>nft.rs\<close>, \<open>config.rs\<close>, \<open>main.rs\<close>), \<open>Ban_Window\<close> (the journal
      watcher, and the tracker against the whole history).
    \<^item> \<open>crates/ghostport-metrics/src\<close>: \<open>Metrics\<close> (\<open>render.rs\<close>, \<open>http.rs\<close>, \<open>main.rs\<close>).
    \<^item> \<open>src/tui\<close>: \<open>Tui_App\<close> (\<open>app.rs\<close>, \<open>templates.rs\<close>), \<open>Tui_Format\<close> (\<open>format.rs\<close>), \<open>Tui_Terminal\<close>
      and \<open>Tui_Events\<close> (\<open>mod.rs\<close>: the terminal and the processes of a service action, the keys and the
      loop), \<open>Tui_Strings\<close> (the types of the interface's strings), \<open>Tui_View\<close> (\<open>ui.rs\<close>), \<open>Tui_Screens\<close> (what is on the screen when a key arrives).
    \<^item> \<open>Examples\<close> instantiates every parameter with a concrete function and builds a configuration, a
      started daemon and runs of it; the witnesses of the properties use them. The properties are in
      \<open>Server_Properties\<close>, \<open>Client_Properties\<close>, \<open>Tool_Properties\<close> and \<open>Tui_Properties\<close>; those that span
      both ends, or the daemon and its console, are below.
    \<^item> The unit tests of the source, run on the model: \<open>Config_Tests\<close> (\<open>config.rs\<close>), \<open>Core_Tests\<close> (the
      other files of the core crate), \<open>Tool_Tests\<close> (\<open>detector.rs\<close>, the firewall's \<open>config.rs\<close>, \<open>format.rs\<close>,
      the UDP \<open>server.rs\<close>), \<open>Metrics_Tests\<close> and \<open>App_Tests\<close> (\<open>app.rs\<close>). A test function is a predicate
      with the name it has there and a lemma, with \<open>_passes\<close> added, that it holds; \<open>Test_Runs\<close> has
      concrete functions that meet the lemmas' assumptions.

  \<^bold>\<open>State.\<close>
  The server's shared state is the record \<open>server\<close>: the limiter, the streams (pending map, next id,
  channel of announcements, listeners, timers) and \<open>SharedState\<close>. The streams also carry two
  histories that the code does not have, \<open>accepted\<close> and \<open>claimed\<close>, which no operation reads. A task
  is its environment and a \<open>phase\<close>: the point of \<open>handle_data_connection\<close> it has reached. What the
  outside does to one connection (its bytes, whether a timeout is met, what a dial returns, what the
  copy reports) is the record \<open>conn_env\<close>, universally quantified. The client's counterparts are
  \<open>dial_env\<close> and \<open>flow_env\<close>, the console's is \<open>tui_env\<close>. Errors are values of a sum; a failed
  \<open>expect\<close> is an outcome of its own (\<open>Panicked\<close>, \<open>None\<close>, \<open>Panics\<close>), so that its absence is a theorem.

  \<^bold>\<open>What the properties show.\<close>
    \<^item> Server. Only authenticated peers are relayed, and only on links they list (TCP and UDP); one
      configured peer per handshake; no failed \<open>expect\<close> in any reachable state; no two tasks ever
      relay the same reverse stream; streams live until claimed or timed out, and ids and
      announcements fit; a finished task has an outcome of the sequential handler (refinement);
      permits and handshakes add up; the rate bound; a listener survives every failed accept, and failed
      connections leave no trace; the counters
      equal what the tasks did; UDP flows stay apart and in order.
    \<^item> Both ends. A forward and a reverse link from any reachable states of both systems: the local
      connection or the announcement becomes a task that relays, and the server joins its tunnel to
      the right connection; the status from the daemon's counters to the rows on the screen.
    \<^item> Client. No failed \<open>expect\<close>; its tasks are the announced streams of its own reverse links, in
      order, and its local connections; its counters are those of its tasks; the backoff sequence.
    \<^item> Wire. An uninterrupted receive does not depend on how bytes are cut (\<open>chunking_irrelevant\<close>); an
      interrupted one loses its prefix and ends the session.
    \<^item> Tools. \<open>validate\<close> against a declarative predicate; when the daemon starts and ends; key files;
      which log lines name whom, and how a log line can be forged; the firewall from the journal to
      the ban command, exact against a reference over the whole history; a scrape.
    \<^item> Console. The state invariant; every string is UTF-8 whatever is typed; drawing never fails and
      the terminal is the console's between events, except after a failed installation of the unit
      (\<open>failed_install_loses_screen\<close>); a prompt on the screen names what the next key does and which
      processes it may start; only valid configurations are written; byte counts are accurate.

  \<^bold>\<open>Bounds and fuel.\<close>
  No definition is bounded by fuel except \<open>settle\<close>, which runs a task alone for a number of steps:
  a task takes at most eight (handshake, hello, at most five counter updates, the end), and
  \<open>task_alone\<close> shows that eight give the result of \<open>handle_data_connection\<close>. Stream ids are \<open>u64\<close> and
  the counter wraps; properties about ids assume fewer than \<open>id_space\<close> (\<open>2 ^ 64\<close>) accepted
  connections. Counters are \<open>u64\<close> and wrap, as stated. The daemon's loops are step relations or
  functions on the list of what they receive.

  \<^bold>\<open>Parameters and what is assumed of them.\<close>
  \<open>snow\<close> (\<open>kk_authentic\<close>: a responder built for a key accepts only a first message written with it),
  the JSON and TOML texts (\<open>json_reads_back\<close>: a message survives its encoding and fits into 64 KiB),
  base64 (\<open>b64_lawful\<close>), the palette (\<open>is_sgr\<close>: an escape sequence or nothing), \<open>nft\<close>, \<open>systemctl\<close>,
  the clock, and ratatui's layout (\<open>one_area_each\<close>: a split returns one area per constraint).
  A read of the file system succeeds as the store says unless the environment makes the operation
  fail. Every assumption is met by an instance of \<open>Examples\<close>.

  \<^bold>\<open>Not modelled.\<close>
  The bytes a relay copies (\<open>tokio::io::copy_bidirectional\<close> reports two counts or an error), the
  cryptography, how the terminal library lays widgets out and renders cells, argument parsing by
  clap, the banner's text, the integration tests, packaging and documents, and of the unit tests
  those that run only other crates' code (key generation, a TOML text), the one that calls
  \<open>fingerprint\<close> twice, and the UDP client's. The tokio scheduler is the
  nondeterminism of the step relations; cancellation of a receive in \<open>select!\<close> is modelled in
  \<open>Session\<close>. Reverse UDP links are rejected by validation and have no code.
\<close>

section \<open>Both ends together\<close>

lemma hello_arrives:
  assumes "send_json hello_writer hello = Inr sent" and "json_reads_back hello_writer hello_reader hello"
  shows "recv_json hello_reader (sent @ rest) = Inr (hello, rest)"
  using assms(1) send_recv [OF assms(2)] by (metis sum.inject(2))

text \<open>
  C4: a forward link end to end. From any state the client can reach, a local connection of a
  forward listener becomes a task that, when the tunnel opens, has written the hello and is relaying;
  and when the tunnel hands the server what this task wrote, then from any state the server can
  reach, whatever its other tasks are doing, the connection gets to relaying on that link to a dial
  of its target, provided the limiter grants a permit and the peer of the handshake lists the link.
\<close>

theorem forward_end_to_end:
  assumes "cl_reaches cd cctx csys" and "run_client (cctx_config cctx) = Some (ports, caddr)"
    and "(i, listen_addr) \<in> set ports" and "tunnel_opens cd cctx cenv"
    and "hello = \<lparr>hello_link_id = i, hello_stream_id = None\<rparr>" and "send_json (cd_hello cd) hello = Inr sent"
    and "json_reads_back (cd_hello cd) (dep_hello d) hello"
    and "data_handshake (dep_snow d) (dep_finish d) (dep_io_text d) ctx (handshake_in_time env)
      (env_bytes env) = Inr (j, sent @ data)"
    and "hello_in_time env" and "i \<in> rp_links (sctx_peers ctx ! j)"
    and "find (\<lambda>l. link_id l = i) (cfg_links (sctx_config ctx)) = Some link"
    and "link_mode link = Forward" and "link_transport link = Tcp"
    and "link_target link = Some target" and "env_dial env target = Inr conn"
    and "sys_reaches d ctx sys"
    and "fst (try_acquire t1 t2 (ip_of addr) (srv_limiter (sys_server sys)))"
  shows "(\<exists>csys'. (cl_step cd cctx)\<^sup>*\<^sup>* csys csys' \<and>
       cl_dials csys' = cl_dials csys @ [relaying_dial i None peer cenv sent]) \<and>
    (\<exists>sys'. (sys_step d ctx)\<^sup>*\<^sup>* sys sys' \<and> sys_tasks sys' = sys_tasks sys @
       [\<lparr>task_addr = addr, task_env = env, task_phase = Relay i conn (relay_ops (env_copied env))\<rparr>])"
proof -
  have "link_id link = i" "link \<in> set (cfg_links (sctx_config ctx))" using find_SomeD [OF assms(11)] by auto
  then have "st_links (srv_state (sys_server sys)) i \<noteq> None"
    using reaches_ok(2) [OF assms(16) refl] by (auto simp: has_links_def)
  then have "fst (handle_hello (sctx_config ctx) (sctx_peers ctx ! j) hello env (sys_server sys)) = Relayed i conn"
    using assms(5,10-15) \<open>link_id link = i\<close> by (simp add: handle_hello_def serve_forward_def)
  from relay_starts [OF assms(17,8,9) hello_arrives [OF assms(6,7)] this]
    local_conn_relays [OF assms(1-4) assms(6) [unfolded assms(5)]]
  show ?thesis by blast
qed

lemma forward_end_to_end_witness:
  "(\<exists>csys csys'. cl_reaches demo_cdeps demo_client_ctx csys \<and> (cl_step demo_cdeps demo_client_ctx)\<^sup>*\<^sup>* csys csys' \<and>
     cl_dials csys' = cl_dials csys @
       [relaying_dial ''web'' None (SocketV4 127 0 0 1 3000) demo_dial (u32_le 4 @ ''Fweb'')]) \<and>
   (\<exists>(sys :: nat system) sys'. (sys_step demo_deps demo_ctx)\<^sup>*\<^sup>* sys sys' \<and> sys_tasks sys' = sys_tasks sys @
    [\<lparr>task_addr = SocketV4 203 0 113 9 5000, task_env = demo_env,
       task_phase = Relay ''web'' 7 (relay_ops (env_copied demo_env))\<rparr>])"
proof -
  let ?hello = "\<lparr>hello_link_id = ''web'', hello_stream_id = None\<rparr>"
  obtain csys where up: "cl_reaches demo_cdeps demo_client_ctx csys" by (rule client_up)
  obtain ls addr where run: "run_client (cctx_config demo_client_ctx) = Some (ls, addr)"
    and web: "(''web'', ''0.0.0.0:8080'') \<in> set ls" by (rule demo_web_listener)
  have sent: "send_json (cd_hello demo_cdeps) ?hello = Inr (u32_le 4 @ ''Fweb'')"
    by (simp add: demo_cdeps_def send_json_def)
  have reads: "json_reads_back (cd_hello demo_cdeps) (dep_hello demo_deps) ?hello"
    using demo_hellos(1) by (simp add: demo_cdeps_def demo_dep_fields)
  obtain sys where reached: "sys_reaches demo_deps demo_ctx sys" "demo_srv = sys_server sys"
    by (rule demo_srv_reached)
  have facts: "hello_in_time demo_env" "''web'' \<in> rp_links (sctx_peers demo_ctx ! 0)"
    "find (\<lambda>l. link_id l = ''web'') (cfg_links (sctx_config demo_ctx)) = Some web_link"
    "link_mode web_link = Forward" "link_transport web_link = Tcp"
    "link_target web_link = Some ''127.0.0.1:80''" "env_dial demo_env ''127.0.0.1:80'' = Inr 7"
    by (simp_all add: demo_env_def demo_ctx_def laptop_peer_def demo_server_def web_link_def)
  show ?thesis
    using forward_end_to_end [OF up run web demo_opens refl sent reads demo_handshake [folded demo_dep_fields]
        facts reached(1) demo_permit [unfolded reached(2)]] up by blast
qed

text \<open>
  C5: a reverse link end to end. When the server announces a stream that is still waiting and a
  client reads the announcement on an open session, between two frames, that session opens a task
  for the stream which, when the tunnel opens, has written the hello and is relaying; and when the
  hello reaches the server, the connection gets to relaying to the very connection that this link's
  listener accepted, whatever the other tasks of both sides are doing.
\<close>

theorem reverse_end_to_end:
  assumes "sys_reaches d ctx sys" and "srv = sys_server sys"
    and "Suc (length (accepted (srv_streams srv))) < id_space"
    and "OpenStream l n \<in> set (signalled (srv_streams srv) @ queued (open_stream (srv_streams srv)))"
    and "pending (srv_streams srv) n \<noteq> None"
    and "json_reads_back to_json (cd_control cd) (OpenStream l n)"
    and "send_json to_json (OpenStream l n) = Inr fr"
    and "cl_reaches cd cctx csys" and "cl_session csys = Some s" and "alive s" and "recv_ph s = fresh_recv"
    and "link_expects_reverse (cctx_config cctx) l"
    and "stream_refused (cd_palette cd) (cd_io_text cd) cctx l n cenv = None" and "tunnel_opens cd cctx cenv"
    and "hello = \<lparr>hello_link_id = l, hello_stream_id = Some n\<rparr>" and "send_json (cd_hello cd) hello = Inr sent"
    and "json_reads_back (cd_hello cd) (dep_hello d) hello"
    and "data_handshake (dep_snow d) (dep_finish d) (dep_io_text d) ctx (handshake_in_time env)
      (env_bytes env) = Inr (j, sent @ data)"
    and "hello_in_time env" and "l \<in> rp_links (sctx_peers ctx ! j)"
    and "find (\<lambda>k. link_id k = l) (cfg_links (sctx_config ctx)) = Some link"
    and "link_mode link = Reverse" and "link_transport link = Tcp"
    and "fst (try_acquire t1 t2 (ip_of addr) (srv_limiter srv))"
  shows "(\<exists>csys'. (cl_step cd cctx)\<^sup>*\<^sup>* csys csys' \<and>
       cl_dials csys' = cl_dials csys @ [relaying_dial l (Some n) peer cenv sent]) \<and>
    (\<exists>c sys'. (n, l, c) \<in> set (accepted (srv_streams srv)) \<and> (sys_step d ctx)\<^sup>*\<^sup>* sys sys' \<and>
       sys_tasks sys' = sys_tasks sys @
         [\<lparr>task_addr = addr, task_env = env, task_phase = Relay l c (relay_ops (env_copied env))\<rparr>])"
proof -
  note ok = reaches_ok [OF assms(1,2)] and inv = reachable_inv [OF reaches_ok(1) [OF assms(1,2)] assms(3)]
  obtain c where p: "pending (srv_streams srv) n = Some c" using assms(5) by blast
  then obtain l' where own: "owner (srv_streams srv) n = Some (l', c)"
    using inv by (auto simp: owned_def pending_owned_def)
  have "map_option fst (owner (srv_streams srv) n) = Some l"
    using inv assms(4) by (force simp: signals_ok_def announced_def)
  then have acc: "(n, l, c) \<in> set (accepted (srv_streams srv))"
    using own by (auto simp: owner_def dest: map_of_SomeD)
  have link: "link_id link = l" "link \<in> set (cfg_links (sctx_config ctx))" using find_SomeD [OF assms(21)] by auto
  then have "st_links (srv_state srv) l \<noteq> None" using ok(2) by (auto simp: has_links_def)
  then have relayed: "fst (handle_hello (sctx_config ctx) (sctx_peers ctx ! j) hello env (sys_server sys)) = Relayed l c"
    using assms(2,15,20-23) p link(1) by (simp add: handle_hello_def serve_reverse_def claim_stream_def)
  obtain sys' where run: "(sys_step d ctx)\<^sup>*\<^sup>* sys sys'" "sys_tasks sys' = sys_tasks sys @
      [\<lparr>task_addr = addr, task_env = env, task_phase = Relay l c (relay_ops (env_copied env))\<rparr>]"
    by (rule relay_starts [OF assms(24) [unfolded assms(2)] assms(18,19) hello_arrives [OF assms(16,17)] relayed])
  have "\<exists>csys'. (cl_step cd cctx)\<^sup>*\<^sup>* csys csys' \<and> cl_dials csys' = cl_dials csys @ [relaying_dial l (Some n) peer cenv sent]"
    by (rule announced_relays [OF assms(8-11,6,7,12-14) assms(16) [unfolded assms(15)]])
  then show ?thesis
    by (rule conjI) (intro exI [of _ c] exI [of _ sys'] conjI acc run)
qed

lemma reverse_end_to_end_witness:
  "(\<exists>csys csys'. cl_reaches demo_cdeps demo_client_ctx csys \<and> (cl_step demo_cdeps demo_client_ctx)\<^sup>*\<^sup>* csys csys' \<and>
     cl_dials csys' = cl_dials csys @
       [relaying_dial ''dev'' (Some 1) (SocketV4 127 0 0 1 3000) demo_dial (u32_le 4 @ ''Rdev'')]) \<and>
   (\<exists>c (sys :: nat system) sys'. (1, ''dev'', c) \<in> set (accepted (srv_streams demo_waiting)) \<and>
     (sys_step demo_deps demo_ctx)\<^sup>*\<^sup>* sys sys' \<and> sys_tasks sys' = sys_tasks sys @
     [\<lparr>task_addr = SocketV4 203 0 113 9 5000, task_env = claim_env,
        task_phase = Relay ''dev'' c (relay_ops (env_copied claim_env))\<rparr>])"
proof -
  let ?hello = "\<lparr>hello_link_id = ''dev'', hello_stream_id = Some 1\<rparr>"
  obtain csys where up: "cl_reaches demo_cdeps demo_client_ctx csys" "cl_session csys = Some new_session"
    by (rule client_up)
  have fresh: "alive new_session" "recv_ph new_session = fresh_recv" by (simp_all add: new_session_def)
  have sent: "send_json (cd_hello demo_cdeps) ?hello = Inr (u32_le 4 @ ''Rdev'')"
    by (simp add: demo_cdeps_def send_json_def)
  have reads: "json_reads_back (cd_hello demo_cdeps) (dep_hello demo_deps) ?hello"
    using demo_hellos(2) by (simp add: demo_cdeps_def demo_dep_fields)
  have opened: "json_reads_back control_text (cd_control demo_cdeps) (OpenStream ''dev'' 1)"
    using demo_messages(2) by (simp add: demo_cdeps_def)
  have queue: "OpenStream ''dev'' 1 \<in> set (signalled (srv_streams demo_waiting) @
      queued (open_stream (srv_streams demo_waiting)))" "pending (srv_streams demo_waiting) 1 \<noteq> None"
    by (simp_all add: demo_waiting_def demo_streams_fields)
  have announced: "send_json control_text (OpenStream ''dev'' 1) = Inr (u32_le 4 @ CHR ''O'' # ''dev'')"
    by (simp add: send_json_def)
  have expected: "link_expects_reverse (cctx_config demo_client_ctx) ''dev''"
    by (simp add: link_expects_reverse_def demo_client_ctx_def demo_client_def web_link_def dev_link_def)
  have links: "hello_in_time claim_env" "''dev'' \<in> rp_links (sctx_peers demo_ctx ! 0)"
    "find (\<lambda>k. link_id k = ''dev'') (cfg_links (sctx_config demo_ctx)) = Some dev_link"
    "link_mode dev_link = Reverse" "link_transport dev_link = Tcp"
    by (simp_all add: laptop_peer_def demo_ctx_def demo_server_def web_link_def dev_link_def claim_env_def demo_env_def)
  have permit: "fst (try_acquire 0 0 (ip_of (SocketV4 203 0 113 9 5000)) (srv_limiter demo_waiting))"
    using demo_permit by (simp add: demo_waiting_def)
  have claimed: "data_handshake (dep_snow demo_deps) (dep_finish demo_deps) (dep_io_text demo_deps) demo_ctx
      (handshake_in_time claim_env) (env_bytes claim_env) = Inr (0, (u32_le 4 @ ''Rdev'') @ [])"
    using claim_handshake by (simp add: demo_dep_fields)
  obtain sys where reached: "sys_reaches demo_deps demo_ctx sys" "demo_waiting = sys_server sys"
    by (rule demo_waiting_reached)
  show ?thesis
    using reverse_end_to_end [OF reached demo_room queue opened announced up fresh expected demo_accepts demo_opens refl
        sent reads claimed links permit] up(1) by blast
qed

text \<open>
  C6: a UDP link end to end. The first datagram of a new local source opens a flow on the client;
  once the flow is up, the session of the server that reads its hello serves the link's target, and
  relays that first datagram and all that follow, of both directions, unchanged and in order while no
  minute passes without traffic; after a minute of silence nothing is passed on any more.
\<close>

theorem udp_end_to_end:
  assumes "flows src = None"
    and "run_flow csn hello_writer ccfg private_key remote_key i src d cenv = Established sent"
    and "\<forall>bs. hello_writer \<lparr>hello_link_id = i, hello_stream_id = None\<rparr> = Inr bs \<longrightarrow>
      hello_reader bs = Inr \<lparr>hello_link_id = i, hello_stream_id = None\<rparr>"
    and "reply_error senv state = None" and "first_packet senv = In_Time (Inr (sent ! 0))"
    and "find (\<lambda>l. link_id l = i) (cfg_links cfg) = Some link"
    and "link_transport link = Udp" and "link_mode link = Forward" and "i \<in> rp_links peer"
    and "link_target link = Some target" and "bind_target_error senv = None"
    and "connect_target_error senv target = None"
    and "evs = (gap, From_Near (sent ! 1)) # later"
    and "\<forall>(gap, ev) \<in> set evs. gap < secs 60 \<and> ev \<noteq> Near_Error \<and> ev \<noteq> Far_Error"
    and "secs 60 \<le> silence"
  shows "snd (client_datagram (src, d) flows) = Some (src, d) \<and>
    run_session hello_reader cfg addr peer state senv = Serving i target \<and>
    relay_packets evs = \<lparr>to_far = d # near_payloads (map snd later),
      to_near = far_payloads (map snd later), relaying = True\<rparr> \<and>
    relay_packets (evs @ (silence, ev) # rest) = (relay_packets evs)\<lparr>relaying := False\<rparr>"
proof -
  obtain bs where bs: "hello_writer \<lparr>hello_link_id = i, hello_stream_id = None\<rparr> = Inr bs" "sent = [bs, d]"
    using established_hello [OF assms(2)] by blast
  have "link_id link = i" using find_SomeD [OF assms(6)] by simp
  then have "run_session hello_reader cfg addr peer state senv = Serving i target"
    using assms(3-12) bs by (simp add: run_session_def udp_hello_def serve_udp_link_def)
  moreover have "relay_packets evs = \<lparr>to_far = near_payloads (map snd evs),
      to_near = far_payloads (map snd evs), relaying = True\<rparr>"
    using relay_packets_lossless assms(14) by (simp add: idle_timeout_def)
  moreover have "relay_packets (evs @ (silence, ev) # rest) = (relay_packets evs)\<lparr>relaying := False\<rparr>"
    unfolding relay_packets_def fold_append comp_apply
    by (rule relay_idle) (simp add: idle_timeout_def assms(15))
  ultimately show ?thesis
    using assms(1,13) bs(2) by (simp add: client_datagram_def)
qed

lemma udp_end_to_end_witness:
  "snd (client_datagram (SocketV4 127 0 0 1 4000, ''query'') (\<lambda>_. None)) = Some (SocketV4 127 0 0 1 4000, ''query'') \<and>
   run_session hello_of_text demo_server (SocketV4 203 0 113 9 5000) laptop_peer
     (server_key, laptop_key) demo_udp_env = Serving ''dns'' ''127.0.0.1:80'' \<and>
   relay_packets ((5, From_Near ''query'') # demo_traffic) =
     \<lparr>to_far = ''query'' # near_payloads (map snd demo_traffic),
      to_near = far_payloads (map snd demo_traffic), relaying = True\<rparr>"
proof -
  have flow: "run_flow demo_snow hello_text demo_client laptop_key server_key ''dns''
      (SocketV4 127 0 0 1 4000) ''query'' demo_flow = Established [''Fdns'', ''query'']"
    by (simp add: run_flow_def demo_client_def demo_flow_def initiator_def demo_snow_def)
  have read: "\<forall>bs. hello_text \<lparr>hello_link_id = ''dns'', hello_stream_id = None\<rparr> = Inr bs \<longrightarrow>
      hello_of_text bs = Inr \<lparr>hello_link_id = ''dns'', hello_stream_id = None\<rparr>"
    by (simp add: hello_of_text_def)
  have link: "find (\<lambda>l. link_id l = ''dns'') (cfg_links demo_server) = Some dns_link"
    by (simp add: demo_server_def web_link_def dev_link_def dns_link_def)
  have "\<forall>(gap, ev) \<in> set ((5, From_Near ''query'') # demo_traffic). gap < secs 60 \<and> ev \<noteq> Near_Error \<and> ev \<noteq> Far_Error"
    by (simp add: demo_traffic_def secs_def)
  then show ?thesis
    using udp_end_to_end [OF _ flow read _ _ link, of "\<lambda>_. None" demo_udp_env "(server_key, laptop_key)" laptop_peer
        "''127.0.0.1:80''" _ 5 demo_traffic "secs 60" "SocketV4 203 0 113 9 5000"]
    by (simp add: demo_udp_env_def dns_link_def laptop_peer_def)
qed

section \<open>The daemon and its console\<close>

text \<open>
  C20: the status from end to end. When the daemon's answer survives the JSON encoding, the screen
  the console draws after the query has one row for every link of the server's configuration, in
  order, with the connections that link has carried, and below them a row with their sum.
\<close>

theorem status_end_to_end:
  assumes "sys_reaches dep ctx sys" and "srv = sys_server sys" and "snap = snapshot now (sctx_config ctx) (srv_state srv)"
    and "respond to_json snap = Inr bs" and "from_json bs = Inr snap"
    and "env_query env = query_status from_json sock (Inr (Inr bs))"
    and "tab_of (ui t) = Tab_Status" and "\<not> should_quit (ui t)"
    and "draw lib pal b64_dec sha256 (ui (tui_step (env, Idle) t)) area = Some d"
    and "links = cfg_links (sctx_config ctx)"
    and "carried = (\<lambda>l. total_streams (the (st_links (srv_state srv) (link_id l))))"
  shows "map (\<lambda>row. (fst (row ! 0), fst (row ! 3))) (shown_rows d) =
    map (\<lambda>l. (link_id l, show_word (carried l))) links @
    (if links = [] then [] else [(''TOTAL'', show_word (sum_list (map carried links)))])"
proof -
  have "env_query env = Inr snap" using assms(5,6) by (simp add: query_status_def)
  then have rows: "shown_rows d = map (status_row (load_theme pal) (ui (tui_step (env, Idle) t))) (snap_links snap) @
      (if snap_links snap = [] then [] else [total_row (load_theme pal) (snap_links snap)])"
    using status_screen [OF assms(9)] idle_status [OF assms(7,8)] by blast
  have "has_links (sctx_config ctx) (srv_state srv)"
    by (rule reaches_ok(2) [OF assms(1,2)])
  from snapshot_links [OF this, of now] have links: "snap_links snap =
      map (\<lambda>l. link_snapshot_of (link_id l) (to_lowercase (debug_mode (link_mode l)))
        (the (st_links (srv_state srv) (link_id l)))) links"
    by (simp only: assms(3,10))
  show ?thesis
    unfolding rows links assms(11)
    by (simp add: status_row_def total_row_def link_snapshot_of_def o_def)
qed

lemma status_end_to_end_witness:
  "\<exists>d. map (\<lambda>row. (fst (row ! 0), fst (row ! 3))) (shown_rows d) =
    map (\<lambda>l. (link_id l, show_word (total_streams (the (st_links (srv_state demo_waiting) (link_id l))))))
      (cfg_links demo_server) @
    [(''TOTAL'', show_word (sum_list (map (\<lambda>l. total_streams (the (st_links (srv_state demo_waiting) (link_id l))))
      (cfg_links demo_server))))]"
proof -
  let ?snap = "snapshot 160 demo_server (srv_state demo_waiting)"
  let ?read = "\<lambda>t. if t = ''status'' then Inr ?snap else Inl ''bad''"
  let ?env = "demo_tui_env\<lparr>env_query := query_status ?read ''/s'' (Inr (Inr ''status''))\<rparr>"
  let ?t = "tui_at (new_app ''/c'' demo_server)"
  obtain d where d: "draw demo_screen demo_palette hex_dec id (ui (tui_step (?env, Idle) ?t)) demo_area = Some d"
    using draw_total [OF demo_screen_ok] by blast
  have cfg: "sctx_config demo_ctx = demo_server" by (simp add: demo_ctx_def)
  obtain sys where reached: "sys_reaches demo_deps demo_ctx sys" "demo_waiting = sys_server sys"
    by (rule demo_waiting_reached)
  have snap: "?snap = snapshot 160 (sctx_config demo_ctx) (srv_state demo_waiting)" by (simp only: cfg)
  have resp: "respond (\<lambda>_. Inr ''status'') ?snap = Inr ''status''" by (simp add: respond_def)
  have reads: "?read ''status'' = Inr ?snap" by simp
  have query: "env_query ?env = query_status ?read ''/s'' (Inr (Inr ''status''))" by simp
  have shown: "tab_of (ui ?t) = Tab_Status" "\<not> should_quit (ui ?t)" by (simp_all add: tui_at_def new_app_def)
  have "map (\<lambda>row. (fst (row ! 0), fst (row ! 3))) (shown_rows d) =
    map (\<lambda>l. (link_id l, show_word (total_streams (the (st_links (srv_state demo_waiting) (link_id l))))))
      (cfg_links demo_server) @
    (if cfg_links demo_server = [] then []
     else [(''TOTAL'', show_word (sum_list (map (\<lambda>l. total_streams (the (st_links (srv_state demo_waiting) (link_id l))))
      (cfg_links demo_server))))])"
    using status_end_to_end [OF reached snap resp reads query shown d refl refl] unfolding cfg .
  then show ?thesis by (intro exI [of _ d]) (simp add: demo_server_def)
qed

end
